(* ===== verification/Prelude.thy ===== *)
theory Prelude
  imports
    Complex_Main
    "HOL-Library.AList"
    "HOL-Library.Sublist"
    "HOL-Library.Multiset"
    "HOL-Library.Char_ord"
    "HOL-Library.List_Lexorder"
    "HOL-Library.Product_Lexorder"
begin

text \<open>
  Shared vocabulary of the development: Python's exceptions as values, the part of Python's
  \<open>str\<close>, \<open>int\<close> and \<open>dict\<close> that the distribution uses, and the generic lemmas on them.

  Texts are \<open>string\<close>, one \<open>char\<close> per code point, so the model ranges over the code points
  below 256 (ASCII and Latin-1). The predicates \<open>isdigit\<close>, \<open>isalpha\<close> and the case mappings
  follow Python's tables on that range (superscript digits count as \<open>isdigit\<close>, for instance);
  the two letters whose upper case lies above it (code points 181 and 255) stay unchanged.

  A dictionary in insertion order is an association list with distinct keys: \<open>map_of\<close> is
  \<open>d.get\<close>, \<open>AList.update\<close> is \<open>d[k] = v\<close> (an existing key keeps its place).
\<close>

named_theorems py_simps \<open>rewrite rules of the Python runtime model\<close>
named_theorems res_simps \<open>rewrite rules of results that may be an exception\<close>

section \<open>Exceptions as values\<close>

text \<open>
  The exceptions the modelled code raises or handles. \<open>Foreign\<close> stands for an exception of
  code outside the repository, by its class name.
\<close>

datatype exn = TypeError | AttributeError | ValueError | IndexError | KeyError | RuntimeError
  | OverflowError | ClientError string | Foreign string

type_synonym 'a res = "exn + 'a"

definition bindr :: "'a res \<Rightarrow> ('a \<Rightarrow> 'b res) \<Rightarrow> 'b res" where
  "bindr r f = (case r of Inl e \<Rightarrow> Inl e | Inr v \<Rightarrow> f v)"

lemma bindr_Inl [simp, res_simps]: "bindr (Inl e) f = Inl e"
  by (simp add: bindr_def)

lemma bindr_Inr [simp, res_simps]: "bindr (Inr v) f = f v"
  by (simp add: bindr_def)

lemma bindr_eq_Inr: "bindr r f = Inr y \<longleftrightarrow> (\<exists>v. r = Inr v \<and> f v = Inr y)"
  by (cases r) auto

lemma bindr_eq_Inl: "bindr r f = Inl e \<longleftrightarrow> r = Inl e \<or> (\<exists>v. r = Inr v \<and> f v = Inl e)"
  by (cases r) auto

lemma bindr_assoc [res_simps]: "bindr (bindr r f) g = bindr r (\<lambda>x. bindr (f x) g)"
  by (cases r) auto

lemma bindr_cong [fundef_cong]:
  "r = s \<Longrightarrow> (\<And>v. s = Inr v \<Longrightarrow> f v = g v) \<Longrightarrow> bindr r f = bindr s g"
  by (cases s) auto

text \<open>Python's \<open>a and b\<close> on operands that may raise: \<open>b\<close> is evaluated only when \<open>a\<close> holds.\<close>

definition and_res :: "bool res \<Rightarrow> bool res \<Rightarrow> bool res" where
  "and_res a b = bindr a (\<lambda>x. if x then b else Inr False)"

lemma and_res_simps [simp, res_simps]:
  "and_res (Inl e) b = Inl e"
  "and_res (Inr False) b = Inr False"
  "and_res (Inr True) b = b"
  by (simp_all add: and_res_def)

lemma and_res_eq_True: "and_res a b = Inr True \<longleftrightarrow> a = Inr True \<and> b = Inr True"
  by (cases a) (auto simp: and_res_def)

text \<open>A loop that runs an operation that may raise on each element, in order.\<close>

fun map_res :: "('a \<Rightarrow> 'b res) \<Rightarrow> 'a list \<Rightarrow> 'b list res" where
  "map_res f [] = Inr []"
| "map_res f (x # xs) = bindr (f x) (\<lambda>y. bindr (map_res f xs) (\<lambda>ys. Inr (y # ys)))"

lemma map_res_all_Inr: "(\<And>x. x \<in> set xs \<Longrightarrow> f x = Inr (g x)) \<Longrightarrow> map_res f xs = Inr (map g xs)"
  by (induction xs) auto

lemma map_res_list_all2: "map_res f xs = Inr ys \<longleftrightarrow> list_all2 (\<lambda>x y. f x = Inr y) xs ys"
  by (induction xs arbitrary: ys) (auto simp: bindr_eq_Inr list_all2_Cons1)

lemma map_res_Inr_elem: "map_res f xs = Inr ys \<Longrightarrow> y \<in> set ys \<Longrightarrow> \<exists>x \<in> set xs. f x = Inr y"
  by (induction xs arbitrary: ys) (auto simp: bindr_eq_Inr)

lemma map_res_ok: "(\<exists>ys. map_res f xs = Inr ys) \<longleftrightarrow> (\<forall>x \<in> set xs. \<exists>y. f x = Inr y)"
proof (induction xs)
  case Nil
  then show ?case by simp
next
  case (Cons x xs)
  then show ?case by (cases "f x") (auto simp: bindr_eq_Inr)
qed

section \<open>Dictionaries\<close>

lemma map_of_update [simp, py_simps]:
  "map_of (AList.update k v d) = (map_of d)(k \<mapsto> v)"
  by (rule update_conv')

lemma keys_update [simp, py_simps]:
  "fst ` set (AList.update k v d) = insert k (fst ` set d)"
  by (induction d) auto

lemma distinct_update_keys [simp, intro]:
  "distinct (map fst d) \<Longrightarrow> distinct (map fst (AList.update k v d))"
  by (rule distinct_update)

lemma update_fresh: "k \<notin> fst ` set d \<Longrightarrow> AList.update k v d = d @ [(k, v)]"
  by (induction d) auto

text \<open>\<open>dict(pairs)\<close> and dictionary comprehensions: later pairs overwrite earlier ones.\<close>

definition dict_of :: "('k \<times> 'v) list \<Rightarrow> ('k \<times> 'v) list" where
  "dict_of ps = foldl (\<lambda>d (k, v). AList.update k v d) [] ps"

lemma map_of_foldl_update:
  "map_of (foldl (\<lambda>d (k, v). AList.update k v d) d ps) = map_of d ++ map_of (rev ps)"
proof (induction ps arbitrary: d)
  case Nil
  then show ?case by simp
next
  case (Cons p ps)
  obtain k v where p: "p = (k, v)" by (cases p)
  show ?case by (simp add: p Cons.IH update_conv' del: fun_upd_apply)
qed

lemma map_of_dict_of [simp]: "map_of (dict_of ps) = map_of (rev ps)"
  by (simp add: dict_of_def map_of_foldl_update)

lemma keys_foldl_update:
  "fst ` set (foldl (\<lambda>d (k, v). AList.update k v d) d ps) = fst ` set d \<union> fst ` set ps"
proof (induction ps arbitrary: d)
  case Nil
  then show ?case by simp
next
  case (Cons p ps)
  obtain k v where p: "p = (k, v)" by (cases p)
  show ?case by (simp only: p foldl.simps prod.case Cons.IH keys_update) simp
qed

lemma keys_dict_of [simp]: "fst ` set (dict_of ps) = fst ` set ps"
  by (simp add: dict_of_def keys_foldl_update)

lemma distinct_foldl_update:
  "distinct (map fst d) \<Longrightarrow> distinct (map fst (foldl (\<lambda>d (k, v). AList.update k v d) d ps))"
  by (induction ps arbitrary: d) (auto simp: distinct_update)

lemma distinct_dict_of [simp]: "distinct (map fst (dict_of ps))"
  by (simp add: dict_of_def distinct_foldl_update)

lemma map_of_rev_distinct: "distinct (map fst d) \<Longrightarrow> map_of (rev d) = map_of d"
  by (subst map_of_inject_set) (simp_all add: rev_map [symmetric])

lemma list_all2_witness: "list_all2 P xs ys \<Longrightarrow> y \<in> set ys \<Longrightarrow> \<exists>x \<in> set xs. P x y"
  by (induction rule: list_all2_induct) auto

lemma list_all2_image: "list_all2 P xs ys \<Longrightarrow> x \<in> set xs \<Longrightarrow> \<exists>y \<in> set ys. P x y"
  by (induction rule: list_all2_induct) auto

section \<open>Characters\<close>

abbreviation ord :: "char \<Rightarrow> nat" where
  "ord c \<equiv> of_char c"

definition py_space :: "char \<Rightarrow> bool" where
  "py_space c \<longleftrightarrow> ord c \<in> {9, 10, 11, 12, 13, 28, 29, 30, 31, 32, 133, 160}"

definition is_dec :: "char \<Rightarrow> bool" where
  "is_dec c \<longleftrightarrow> 48 \<le> ord c \<and> ord c \<le> 57"

definition char_isdigit :: "char \<Rightarrow> bool" where
  "char_isdigit c \<longleftrightarrow> is_dec c \<or> ord c \<in> {178, 179, 185}"

definition char_isalpha :: "char \<Rightarrow> bool" where
  "char_isalpha c \<longleftrightarrow>
     65 \<le> ord c \<and> ord c \<le> 90 \<or> 97 \<le> ord c \<and> ord c \<le> 122 \<or> ord c \<in> {170, 181, 186}
     \<or> 192 \<le> ord c \<and> ord c \<noteq> 215 \<and> ord c \<noteq> 247"

definition lower_char :: "char \<Rightarrow> char" where
  "lower_char c =
     (if 65 \<le> ord c \<and> ord c \<le> 90 \<or> 192 \<le> ord c \<and> ord c \<le> 222 \<and> ord c \<noteq> 215
      then char_of (ord c + 32) else c)"

definition upper_char :: "char \<Rightarrow> string" where
  "upper_char c =
     (if 97 \<le> ord c \<and> ord c \<le> 122 \<or> 224 \<le> ord c \<and> ord c \<le> 254 \<and> ord c \<noteq> 247
      then [char_of (ord c - 32)] else if ord c = 223 then ''SS'' else [c])"

section \<open>Texts\<close>

definition py_lower :: "string \<Rightarrow> string" where
  "py_lower s = map lower_char s"

definition py_upper :: "string \<Rightarrow> string" where
  "py_upper s = concat (map upper_char s)"

definition py_casefold :: "string \<Rightarrow> string" where
  "py_casefold s = concat (map (\<lambda>c. if ord c = 223 then ''ss'' else [lower_char c]) s)"

definition py_isdigit :: "string \<Rightarrow> bool" where
  "py_isdigit s \<longleftrightarrow> s \<noteq> [] \<and> list_all char_isdigit s"

definition py_lstrip :: "string \<Rightarrow> string" where
  "py_lstrip s = dropWhile py_space s"

definition py_strip :: "string \<Rightarrow> string" where
  "py_strip s = rev (dropWhile py_space (rev (dropWhile py_space s)))"

abbreviation py_startswith :: "string \<Rightarrow> string \<Rightarrow> bool" where
  "py_startswith p s \<equiv> prefix p s"

definition py_endswith :: "string \<Rightarrow> string \<Rightarrow> bool" where
  "py_endswith p s \<longleftrightarrow> prefix (rev p) (rev s)"

text \<open>\<open>p in s\<close>.\<close>

fun py_in :: "string \<Rightarrow> string \<Rightarrow> bool" where
  "py_in p [] = (p = [])"
| "py_in p (c # cs) = (prefix p (c # cs) \<or> py_in p cs)"

lemma py_in_iff: "py_in p s \<longleftrightarrow> (\<exists>u v. s = u @ p @ v)"
proof (induction s)
  case Nil
  then show ?case by auto
next
  case (Cons c cs)
  have "(\<exists>u v. c # cs = u @ p @ v) \<longleftrightarrow> prefix p (c # cs) \<or> (\<exists>u v. cs = u @ p @ v)"
  proof
    assume "\<exists>u v. c # cs = u @ p @ v"
    then obtain u v where uv: "c # cs = u @ p @ v" by blast
    then show "prefix p (c # cs) \<or> (\<exists>u v. cs = u @ p @ v)"
      by (cases u) (auto simp: prefix_def)
  next
    assume "prefix p (c # cs) \<or> (\<exists>u v. cs = u @ p @ v)"
    then show "\<exists>u v. c # cs = u @ p @ v"
      by (metis append_Cons append_Nil prefix_def)
  qed
  with Cons.IH show ?case by simp
qed

text \<open>\<open>s.split(c)\<close> and \<open>c.join(parts)\<close> for a one-character separator.\<close>

fun py_split :: "char \<Rightarrow> string \<Rightarrow> string list" where
  "py_split c [] = [[]]"
| "py_split c (x # xs) =
     (if x = c then [] # py_split c xs
      else (case py_split c xs of [] \<Rightarrow> [[x]] | w # ws \<Rightarrow> (x # w) # ws))"

fun py_join :: "string \<Rightarrow> string list \<Rightarrow> string" where
  "py_join sep [] = []"
| "py_join sep [w] = w"
| "py_join sep (w # ws) = w @ sep @ py_join sep ws"

lemma py_split_not_Nil [simp]: "py_split c s \<noteq> []"
  by (induction s) (auto split: list.splits)

lemma py_join_split [simp]: "py_join [c] (py_split c s) = s"
proof (induction s)
  case Nil
  then show ?case by simp
next
  case (Cons x xs)
  obtain w ws where ws: "py_split c xs = w # ws"
    by (cases "py_split c xs") auto
  with Cons.IH show ?case by (cases ws) auto
qed

lemma py_split_no_sep: "c \<notin> set s \<Longrightarrow> py_split c s = [s]"
  by (induction s) auto

lemma py_split_append: "c \<notin> set w \<Longrightarrow> py_split c (w @ c # s) = w # py_split c s"
  by (induction w) auto

lemma py_split_join:
  "ws \<noteq> [] \<Longrightarrow> \<forall>w \<in> set ws. c \<notin> set w \<Longrightarrow> py_split c (py_join [c] ws) = ws"
  by (induction "[c]" ws rule: py_join.induct) (auto simp: py_split_no_sep py_split_append)

lemma py_split_app: "py_split c (u @ c # v) = py_split c u @ py_split c v"
proof (induction u)
  case Nil
  then show ?case by simp
next
  case (Cons x u)
  then show ?case by (cases "py_split c u") auto
qed

lemma last_py_split: "last (py_split c (u @ c # v)) = last (py_split c v)"
  by (simp add: py_split_app)

lemma py_split_parts: "w \<in> set (py_split c s) \<Longrightarrow> c \<notin> set w"
  by (induction s arbitrary: w) (auto split: list.splits if_splits)

lemma py_split_first: "hd (py_split c s) = takeWhile (\<lambda>x. x \<noteq> c) s"
proof (induction s)
  case Nil
  then show ?case by simp
next
  case (Cons x s)
  then show ?case by (cases "py_split c s") auto
qed

text \<open>\<open>s.split(c, 1)\<close>: one or two parts.\<close>

fun py_split1 :: "char \<Rightarrow> string \<Rightarrow> string list" where
  "py_split1 c s =
     (if c \<in> set s then [takeWhile (\<lambda>x. x \<noteq> c) s, tl (dropWhile (\<lambda>x. x \<noteq> c) s)] else [s])"

text \<open>\<open>s.replace(old, new)\<close> for a non-empty \<open>old\<close>.\<close>

fun py_replace :: "string \<Rightarrow> string \<Rightarrow> string \<Rightarrow> string" where
  "py_replace old new [] = []"
| "py_replace old new (c # cs) =
     (if old \<noteq> [] \<and> prefix old (c # cs)
      then new @ py_replace old new (drop (length old - 1) cs)
      else c # py_replace old new cs)"

lemma py_replace_char: "py_replace [a] new s = concat (map (\<lambda>x. if x = a then new else [x]) s)"
  by (induction s) auto

lemma py_replace_absent: "\<not> py_in old s \<Longrightarrow> py_replace old new s = s"
  by (induction s) auto

lemma py_replace_prefix:
  "old \<noteq> [] \<Longrightarrow> py_replace old new (old @ s) = new @ py_replace old new s"
  by (cases old) auto

section \<open>Integers as texts\<close>

fun nat_str :: "nat \<Rightarrow> string" where
  "nat_str n =
     (if n < 10 then [char_of (48 + n)] else nat_str (n div 10) @ [char_of (48 + n mod 10)])"

declare nat_str.simps [simp del]

definition int_str :: "int \<Rightarrow> string" where
  "int_str i = (if i < 0 then ''-'' @ nat_str (nat (- i)) else nat_str (nat i))"

text \<open>
  \<open>int(s)\<close> on a text: surrounding blanks, a sign, decimal digits with single underscores
  between them. \<open>None\<close> is the \<open>ValueError\<close>.
\<close>

fun scan_digits :: "bool \<Rightarrow> int \<Rightarrow> string \<Rightarrow> int option" where
  "scan_digits prev acc [] = (if prev then Some acc else None)"
| "scan_digits prev acc (c # cs) =
     (if is_dec c then scan_digits True (10 * acc + (int (ord c) - 48)) cs
      else if c = CHR ''_'' \<and> prev then scan_digits False acc cs
      else None)"

definition py_int :: "string \<Rightarrow> int option" where
  "py_int s =
     (case py_strip s of
        CHR ''-'' # cs \<Rightarrow> map_option uminus (scan_digits False 0 cs)
      | CHR ''+'' # cs \<Rightarrow> scan_digits False 0 cs
      | cs \<Rightarrow> scan_digits False 0 cs)"

lemma nat_str_dec: "list_all is_dec (nat_str n)"
proof (induction n rule: nat_str.induct)
  case (1 n)
  have digit: "is_dec (char_of (48 + k))" if "k < 10" for k :: nat
    using that by (simp add: is_dec_def)
  show ?case
    using 1 by (subst nat_str.simps) (auto simp: digit)
qed

lemma nat_str_not_Nil [simp]: "nat_str n \<noteq> []"
  by (subst nat_str.simps) simp

lemma scan_digits_append:
  "list_all is_dec s \<Longrightarrow>
   scan_digits True a (s @ t) =
     scan_digits True (foldl (\<lambda>a c. 10 * a + (int (ord c) - 48)) a s) t"
  by (induction s arbitrary: a) auto

lemma scan_digits_prev:
  "s \<noteq> [] \<Longrightarrow> list_all is_dec s \<Longrightarrow> scan_digits False a s = scan_digits True a s"
  by (cases s) auto

lemma foldl_nat_str: "foldl (\<lambda>a c. 10 * a + (int (ord c) - 48)) 0 (nat_str n) = int n"
proof (induction n rule: nat_str.induct)
  case (1 n)
  have "10 * int (n div 10) + int (n mod 10) = int n"
    by (metis mult_div_mod_eq of_nat_add of_nat_mult of_nat_numeral)
  with 1 show ?case by (subst nat_str.simps) simp
qed

lemma scan_digits_nat_str: "scan_digits False 0 (nat_str n) = Some (int n)"
proof -
  have "scan_digits True 0 (nat_str n @ []) = Some (int n)"
    by (subst scan_digits_append) (simp_all add: nat_str_dec foldl_nat_str)
  then show ?thesis
    by (simp add: scan_digits_prev nat_str_dec)
qed

lemma is_dec_not_space: "is_dec c \<Longrightarrow> \<not> py_space c"
  by (auto simp: is_dec_def py_space_def)

lemma py_strip_dec: "list_all is_dec s \<Longrightarrow> py_strip s = s"
proof -
  have "dropWhile py_space t = t" if "list_all is_dec t" for t
    using that is_dec_not_space by (cases t) auto
  then show "list_all is_dec s \<Longrightarrow> py_strip s = s"
    by (simp add: py_strip_def list_all_iff)
qed

lemma py_int_nat_str: "py_int (nat_str n) = Some (int n)"
proof -
  obtain c cs where cs: "nat_str n = c # cs" by (cases "nat_str n") auto
  then have "is_dec c" using nat_str_dec [of n] by simp
  then have "c \<noteq> CHR ''-'' \<and> c \<noteq> CHR ''+''" by (auto simp: is_dec_def)
  moreover have "py_strip (c # cs) = c # cs" using py_strip_dec [OF nat_str_dec [of n]] cs by simp
  ultimately have "py_int (nat_str n) = scan_digits False 0 (nat_str n)"
    unfolding py_int_def cs by (simp only: list.case) (auto split: char.splits bool.splits)
  then show ?thesis by (simp add: scan_digits_nat_str)
qed

lemma nat_str_inj: "nat_str m = nat_str n \<Longrightarrow> m = n"
  by (metis foldl_nat_str of_nat_eq_iff)

end
