(* ===== verification/PyDecimal.thy ===== *)
theory PyDecimal
  imports Prelude
begin

text \<open>
  Python's \<open>decimal.Decimal\<close> in its default context: 28 significant digits, rounding half to
  even. A decimal is the rational number it denotes; every arithmetic operation rounds its exact
  result with \<open>dec_fix\<close>, and \<open>Decimal(x)\<close> of an integer or a float is exact.

  The locale \<open>relative_rounding\<close> is what a client needs to know of such an arithmetic: each
  rounding is off by a fixed fraction of the exact result at most. \<open>dec_fix\<close> provides it with
  the fraction \<open>1 / (2 * 10 ^ 27)\<close>.
\<close>

section \<open>Rounding to 28 digits\<close>

text \<open>The nearest integer, ties to the even one.\<close>

definition round_half_even :: "rat \<Rightarrow> int" where
  "round_half_even x =
     (let f = \<lfloor>x\<rfloor>; d = x - of_int f
      in if d < 1 / 2 then f else if 1 / 2 < d then f + 1 else if even f then f else f + 1)"

fun num_digits :: "nat \<Rightarrow> nat" where
  "num_digits n = (if n < 10 then 1 else Suc (num_digits (n div 10)))"

declare num_digits.simps [simp del]

definition dec_prec :: nat where
  "dec_prec = 28"

text \<open>The exponent at which \<open>x > 0\<close> has a coefficient of (at least) \<open>dec_prec\<close> digits.\<close>

definition dec_exponent :: "rat \<Rightarrow> int" where
  "dec_exponent x =
     (let (a, b) = quotient_of x;
          e = int (num_digits (nat a)) - int (num_digits (nat b)) - int dec_prec
      in if x / 10 powi e < 10 ^ dec_prec then e else e + 1)"

definition dec_fix :: "rat \<Rightarrow> rat" where
  "dec_fix x =
     (if x = 0 then 0
      else let q = 10 powi dec_exponent \<bar>x\<bar> in of_int (round_half_even (x / q)) * q)"

definition dec_sub :: "rat \<Rightarrow> rat \<Rightarrow> rat" where
  "dec_sub a b = dec_fix (a - b)"

definition dec_div :: "rat \<Rightarrow> rat \<Rightarrow> rat" where
  "dec_div a b = dec_fix (a / b)"

section \<open>The rounding error\<close>

lemma round_half_even_error: "\<bar>of_int (round_half_even x) - x\<bar> \<le> 1 / 2"
proof -
  define d where "d = x - of_int \<lfloor>x\<rfloor>"
  have d: "0 \<le> d" "d < 1" and x: "x = of_int \<lfloor>x\<rfloor> + d"
    unfolding d_def using floor_correct [of x] by linarith+
  have "of_int (round_half_even x) - x = (if d < 1 / 2 \<or> \<not> 1 / 2 < d \<and> even \<lfloor>x\<rfloor> then - d else 1 - d)"
    using x by (simp add: round_half_even_def Let_def d_def)
  then show ?thesis using d by (auto split: if_splits)
qed

lemma num_digits_upper: "n < 10 ^ num_digits n"
proof (induction n rule: num_digits.induct)
  case (1 n)
  show ?case
  proof (cases "n < 10")
    case True
    then show ?thesis by (subst num_digits.simps) simp
  next
    case False
    with 1 have "n div 10 < 10 ^ num_digits (n div 10)" by simp
    then have "n < 10 * 10 ^ num_digits (n div 10)" by linarith
    with False show ?thesis by (subst num_digits.simps) simp
  qed
qed

lemma num_digits_lower: "0 < n \<Longrightarrow> 10 ^ (num_digits n - 1) \<le> n"
proof (induction n rule: num_digits.induct)
  case (1 n)
  show ?case
  proof (cases "n < 10")
    case True
    then have "num_digits n = 1" by (subst num_digits.simps) simp
    with "1.prems" show ?thesis by simp
  next
    case False
    then have step: "num_digits n = Suc (num_digits (n div 10))"
      by (subst num_digits.simps) simp
    have pos: "0 < num_digits (n div 10)"
      by (subst num_digits.simps) simp
    from False "1.IH" have "10 ^ (num_digits (n div 10) - 1) \<le> n div 10" by simp
    then have "10 * 10 ^ (num_digits (n div 10) - 1) \<le> n" by linarith
    moreover have "10 * 10 ^ (num_digits (n div 10) - 1) = (10 :: nat) ^ num_digits (n div 10)"
      using pos by (cases "num_digits (n div 10)") simp_all
    ultimately show ?thesis by (simp add: step)
  qed
qed

text \<open>The coefficient has at least 28 digits: the scaled number is at least \<open>10 ^ 27\<close>.\<close>

lemma dec_exponent_lower:
  assumes "0 < x"
  shows "10 ^ 27 \<le> x / 10 powi dec_exponent x"
proof -
  obtain a b where ab: "quotient_of x = (a, b)" by force
  have b: "0 < b" using quotient_of_denom_pos ab by blast
  have x: "x = of_int a / of_int b" using quotient_of_div ab by blast
  have a: "0 < a" using assms b x by (simp add: zero_less_divide_iff)
  define na where "na = num_digits (nat a)"
  define nb where "nb = num_digits (nat b)"
  have na: "1 \<le> na" unfolding na_def by (subst num_digits.simps) simp
  define e where "e = int na - int nb - 28"
  have "(10 :: nat) ^ (na - 1) \<le> nat a"
    unfolding na_def using a by (intro num_digits_lower) simp
  then have la: "(10 :: rat) ^ (na - 1) \<le> of_int a"
    using a by (metis of_nat_le_iff of_nat_nat of_nat_numeral of_nat_power order_less_imp_le)
  have "nat b < 10 ^ nb"
    unfolding nb_def by (rule num_digits_upper)
  then have ub: "of_int b \<le> (10 :: rat) ^ nb"
    using b by (metis of_nat_less_iff of_nat_nat of_nat_numeral of_nat_power order_less_imp_le)
  have "10 ^ 27 * 10 powi e = (10 :: rat) powi (27 + e)"
    by (simp add: power_int_add)
  also have "27 + e = int (na - 1) - int nb"
    using na by (simp add: e_def)
  also have "(10 :: rat) powi (int (na - 1) - int nb) = 10 ^ (na - 1) / 10 ^ nb"
    by (simp add: power_int_diff)
  also have "\<dots> \<le> of_int a / of_int b"
    using la ub a b by (intro frac_le) simp_all
  finally have low: "10 ^ 27 * 10 powi e \<le> x" using x by simp
  have exp: "dec_exponent x = (if x / 10 powi e < 10 ^ 28 then e else e + 1)"
    by (simp add: dec_exponent_def ab e_def na_def nb_def Let_def dec_prec_def)
  have pos: "(0 :: rat) < 10 powi e" by simp
  show ?thesis
  proof (cases "x / 10 powi e < 10 ^ 28")
    case True
    with exp low pos show ?thesis by (simp add: pos_le_divide_eq)
  next
    case False
    then have "10 ^ 28 * 10 powi e \<le> x" using pos by (simp add: pos_le_divide_eq not_less)
    moreover have "(10 :: rat) powi (e + 1) = 10 * 10 powi e" by (simp add: power_int_add)
    ultimately show ?thesis using False exp pos by (simp add: pos_le_divide_eq)
  qed
qed

lemma dec_fix_error: "\<bar>dec_fix x - x\<bar> \<le> 1 / (2 * 10 ^ 27) * \<bar>x\<bar>"
proof (cases "x = 0")
  case True
  then show ?thesis by (simp add: dec_fix_def)
next
  case False
  define q :: rat where "q = 10 powi dec_exponent \<bar>x\<bar>"
  have q: "0 < q" by (simp add: q_def)
  have "10 ^ 27 \<le> \<bar>x\<bar> / q"
    unfolding q_def using False by (intro dec_exponent_lower) simp
  then have big: "10 ^ 27 * q \<le> \<bar>x\<bar>" using q by (simp add: pos_le_divide_eq)
  have "dec_fix x - x = (of_int (round_half_even (x / q)) - x / q) * q"
    using False q by (simp add: dec_fix_def q_def Let_def left_diff_distrib)
  then have "\<bar>dec_fix x - x\<bar> = \<bar>of_int (round_half_even (x / q)) - x / q\<bar> * q"
    using q by (simp add: abs_mult)
  also have "\<dots> \<le> 1 / 2 * q"
    using round_half_even_error q by (intro mult_right_mono) simp_all
  finally show ?thesis using big by simp
qed

section \<open>Arithmetics with a relative rounding error\<close>

locale relative_rounding =
  fixes rnd :: "rat \<Rightarrow> rat" and u :: rat
  assumes error: "\<bar>rnd x - x\<bar> \<le> u * \<bar>x\<bar>"
    and u_nonneg: "0 \<le> u" and u_small: "u \<le> 1 / 4"
begin

lemma rnd_zero [simp]: "rnd 0 = 0"
  using error [of 0] by simp

lemma rnd_bounds:
  "0 \<le> x \<Longrightarrow> rnd x \<le> x + u * x" "0 \<le> x \<Longrightarrow> x - u * x \<le> rnd x"
  using error [of x] by (simp_all add: abs_le_iff)

lemma rnd_pos: "0 < x \<Longrightarrow> 0 < rnd x"
proof -
  assume "0 < x"
  then have "u * x \<le> 1 / 4 * x" using u_small by (intro mult_right_mono) simp_all
  with rnd_bounds(2) [of x] \<open>0 < x\<close> show ?thesis by linarith
qed

lemma rnd_neg: "x < 0 \<Longrightarrow> rnd x < 0"
proof -
  assume "x < 0"
  then have "u * (- x) \<le> 1 / 4 * (- x)" using u_small by (intro mult_right_mono) simp_all
  moreover have "rnd x - x \<le> u * (- x)" using error [of x] \<open>x < 0\<close> by (simp add: abs_le_iff)
  ultimately show ?thesis using \<open>x < 0\<close> by linarith
qed

lemma rnd_nonneg_iff: "0 \<le> rnd x \<longleftrightarrow> 0 \<le> x"
  using rnd_pos [of x] rnd_neg [of x] by (cases "x = 0") (auto simp: not_le [symmetric])

lemma rnd_pos_iff: "0 < rnd x \<longleftrightarrow> 0 < x"
  using rnd_pos [of x] rnd_neg [of x] by (cases "x = 0") (auto simp: not_le [symmetric])

text \<open>The rounding of a bounded number is off by a bounded amount.\<close>

lemma rnd_within: "\<bar>x\<bar> \<le> t \<Longrightarrow> \<bar>rnd x - x\<bar> \<le> u * t"
  using error [of x] u_nonneg by (meson mult_left_mono order_trans)

end

interpretation dec: relative_rounding dec_fix "1 / (2 * 10 ^ 27)"
  by unfold_locales (rule dec_fix_error, simp_all)

end
