(* ===== verification/RateLimiter.thy ===== *)
theory RateLimiter
  imports PyDecimal
begin

text \<open>
  The reservoir of the X-Ray sampler: \<open>sampler/_rate_limiter.py\<close>,
  \<open>_rate_limiting_sampler.py\<close>, \<open>_fallback_sampler.py\<close> and \<open>_clock.py\<close>.

  A reading of the clock is an \<open>instant\<close>: the datetime in microseconds and the float
  \<open>now().timestamp() * 1000.0\<close> as the rational number it denotes. An operation takes the
  readings it makes as arguments, in the order in which it makes them, so the theorems hold for
  whatever the clock returns. The lock around the wallet makes \<open>try_spend\<close> atomic: concurrent
  calls are some sequence of the calls modelled here.
\<close>

section \<open>The clock\<close>

record instant =
  datetime_us :: int
  millis :: rat

text \<open>\<open>datetime.max\<close>, and \<open>datetime.fromtimestamp\<close> with its range check, in microseconds.\<close>

definition clock_max :: int where
  "clock_max = 253402300799999999"

definition from_timestamp :: "rat \<Rightarrow> int res" where
  "from_timestamp t =
     (let us = round_half_even (t * 10 ^ 6)
      in if - 62135596800000000 \<le> us \<and> us \<le> clock_max then Inr us else Inl ValueError)"

definition time_delta :: "int \<Rightarrow> int" where
  "time_delta seconds = seconds * 10 ^ 6"

section \<open>The rate limiter\<close>

record rate_limiter =
  max_balance_millis :: rat
  quota :: rat
  wallet_floor_millis :: rat

definition new_rate_limiter :: "int \<Rightarrow> int \<Rightarrow> instant \<Rightarrow> rate_limiter" where
  "new_rate_limiter max_balance_in_seconds q now =
     \<lparr>max_balance_millis = of_int (max_balance_in_seconds * 1000),
      quota = of_int q, wallet_floor_millis = millis now\<rparr>"

definition cost_in_millis :: "rat \<Rightarrow> rat \<Rightarrow> rat" where
  "cost_in_millis q cost = dec_div cost (dec_div q 1000)"

definition try_spend :: "rat \<Rightarrow> instant \<Rightarrow> rate_limiter \<Rightarrow> bool \<times> rate_limiter" where
  "try_spend cost now rl =
     (if quota rl = 0 then (False, rl)
      else
        let wallet_ceiling_millis = millis now;
            current = dec_sub wallet_ceiling_millis (wallet_floor_millis rl);
            current_balance_millis = min current (max_balance_millis rl);
            pending = dec_sub current_balance_millis (cost_in_millis (quota rl) cost)
        in if 0 \<le> pending
           then (True, rl\<lparr>wallet_floor_millis := dec_sub wallet_ceiling_millis pending\<rparr>)
           else (False, rl))"

section \<open>Sampling results\<close>

datatype decision = DROP | RECORD_ONLY | RECORD_AND_SAMPLE

text \<open>
  What a sampler is asked about: the trace id, the attributes and the trace state are the
  arguments the modelled samplers read or pass on; \<open>'a\<close> is the type of attribute values.
\<close>

record 'a request =
  trace_id :: int
  req_attributes :: "(string \<times> 'a) list option"
  req_trace_state :: "string option"

record 'a sampling_result =
  decision :: decision
  res_attributes :: "(string \<times> 'a) list option"
  res_trace_state :: "string option"

definition sampling_result :: "decision \<Rightarrow> 'a request \<Rightarrow> 'a sampling_result" where
  "sampling_result d req =
     \<lparr>decision = d, res_attributes = req_attributes req, res_trace_state = req_trace_state req\<rparr>"

section \<open>Rate limiting and fallback samplers\<close>

definition new_rate_limiting_sampler :: "int \<Rightarrow> instant \<Rightarrow> rate_limiter" where
  "new_rate_limiting_sampler q now = new_rate_limiter 1 q now"

definition rate_limiting_should_sample ::
    "instant \<Rightarrow> 'a request \<Rightarrow> rate_limiter \<Rightarrow> 'a sampling_result \<times> rate_limiter" where
  "rate_limiting_should_sample now req rl =
     (let (ok, rl') = try_spend 1 now rl
      in (sampling_result (if ok then RECORD_AND_SAMPLE else DROP) req, rl'))"

text \<open>
  The fixed rate sampler is the SDK's \<open>TraceIdRatioBased\<close>: code outside the repository, and a
  parameter \<open>ratio\<close> of the model that takes the rate and the request.
\<close>

type_synonym 'a ratio_sampler = "rat \<Rightarrow> 'a request \<Rightarrow> 'a sampling_result"

definition new_fallback_sampler :: "instant \<Rightarrow> rate_limiter" where
  "new_fallback_sampler now = new_rate_limiting_sampler 1 now"

text \<open>The float \<open>0.05\<close>, as the binary fraction it denotes.\<close>

definition fallback_rate :: rat where
  "fallback_rate = 3602879701896397 / 72057594037927936"

definition fallback_should_sample ::
    "'a ratio_sampler \<Rightarrow> instant \<Rightarrow> 'a request \<Rightarrow> rate_limiter
      \<Rightarrow> 'a sampling_result \<times> rate_limiter" where
  "fallback_should_sample ratio now req rl =
     (let (r, rl') = rate_limiting_should_sample now req rl
      in if decision r \<noteq> DROP then (r, rl') else (ratio fallback_rate req, rl'))"

section \<open>The wallet\<close>

text \<open>
  One successful \<open>try_spend\<close> in any arithmetic with a small relative error: the floor of the
  wallet rises by the cost, it is never more than the maximal balance below the reading, and
  never above it, up to four roundings of numbers no larger than \<open>T\<close>.
\<close>

context relative_rounding begin

lemma wallet_grant:
  assumes C: "0 \<le> C" "C \<le> T" and M: "0 \<le> M" "4 * M \<le> T" and c: "0 < c" and F: "- T \<le> F"
    and pend: "p = rnd (min (rnd (C - F)) M - c)" and ok: "0 \<le> p"
  shows "F + c - 4 * u * T \<le> rnd (C - p)"
    and "C - M + c - 4 * u * T \<le> rnd (C - p)"
    and "rnd (C - p) \<le> C + 4 * u * T"
    and "- T \<le> rnd (C - p)"
proof -
  define bal where "bal = min (rnd (C - F)) M"
  have T: "0 \<le> T" using C by linarith
  have uT: "0 \<le> u * T" "u * T \<le> T / 4"
    using u_nonneg T mult_right_mono [OF u_small T] by simp_all
  have bal: "c \<le> bal" "bal \<le> M" "bal \<le> rnd (C - F)"
    using ok pend by (simp_all add: bal_def rnd_nonneg_iff)
  then have CF: "0 < C - F" using c rnd_pos_iff [of "C - F"] by linarith
  have "\<bar>C - F\<bar> \<le> 2 * T" using CF C F by linarith
  then have "\<bar>rnd (C - F) - (C - F)\<bar> \<le> u * (2 * T)" by (rule rnd_within)
  then have bal_up: "bal \<le> C - F + 2 * (u * T)" using bal(3) by (simp add: abs_le_iff)
  have "\<bar>bal - c\<bar> \<le> T / 4" using bal c M by linarith
  then have "\<bar>p - (bal - c)\<bar> \<le> u * (T / 4)"
    unfolding pend bal_def [symmetric] by (rule rnd_within)
  then have p_up: "p \<le> bal - c + u * T / 4" using abs_ge_self [of "p - (bal - c)"] by linarith
  have "\<bar>C - p\<bar> \<le> T" using p_up ok C bal c M uT by linarith
  then have "\<bar>rnd (C - p) - (C - p)\<bar> \<le> u * T" by (rule rnd_within)
  then have fl: "C - p - u * T \<le> rnd (C - p)" "rnd (C - p) \<le> C - p + u * T"
    by (simp_all add: abs_le_iff)
  show "F + c - 4 * u * T \<le> rnd (C - p)" using fl(1) p_up bal_up uT by linarith
  show "C - M + c - 4 * u * T \<le> rnd (C - p)" using fl(1) p_up bal(2) uT by linarith
  show "rnd (C - p) \<le> C + 4 * u * T" using fl(2) ok uT by linarith
  show "- T \<le> rnd (C - p)" using fl(1) p_up bal c C M uT T by linarith
qed

end

text \<open>The number of grants in a sequence of calls.\<close>

fun granted :: "rat \<Rightarrow> instant list \<Rightarrow> rate_limiter \<Rightarrow> nat" where
  "granted cost [] rl = 0"
| "granted cost (t # ts) rl =
     (let (ok, rl') = try_spend cost t rl in (if ok then 1 else 0) + granted cost ts rl')"

definition slack :: "rat \<Rightarrow> rat" where
  "slack T = 4 * (1 / (2 * 10 ^ 27)) * T"

lemma try_spend_frame:
  "quota (snd (try_spend cost t rl)) = quota rl"
  "max_balance_millis (snd (try_spend cost t rl)) = max_balance_millis rl"
  by (simp_all add: try_spend_def Let_def)

lemma try_spend_False: "\<not> fst (try_spend cost t rl) \<Longrightarrow> snd (try_spend cost t rl) = rl"
  by (simp add: try_spend_def Let_def split: if_splits)

text \<open>The side conditions under which the wallet lemma applies to a limiter.\<close>

definition wallet_ok :: "rat \<Rightarrow> rate_limiter \<Rightarrow> bool" where
  "wallet_ok T rl \<longleftrightarrow>
     0 < quota rl \<and> 0 \<le> max_balance_millis rl \<and> 4 * max_balance_millis rl \<le> T
     \<and> - T \<le> wallet_floor_millis rl"

lemma cost_in_millis_pos: "0 < q \<Longrightarrow> 0 < cost \<Longrightarrow> 0 < cost_in_millis q cost"
  by (simp add: cost_in_millis_def dec_div_def dec.rnd_pos_iff)

lemma try_spend_grant:
  assumes ok: "fst (try_spend cost t rl)" and wf: "wallet_ok T rl" and cost: "0 < cost"
    and t: "0 \<le> millis t" "millis t \<le> T"
  defines "rl' \<equiv> snd (try_spend cost t rl)" and "c \<equiv> cost_in_millis (quota rl) cost"
  shows "wallet_floor_millis rl + c - slack T \<le> wallet_floor_millis rl'"
    and "millis t - max_balance_millis rl + c - slack T \<le> wallet_floor_millis rl'"
    and "wallet_floor_millis rl' \<le> millis t + slack T"
    and "wallet_ok T rl'"
proof -
  define p where
    "p = dec_fix (min (dec_fix (millis t - wallet_floor_millis rl)) (max_balance_millis rl) - c)"
  have p: "0 \<le> p" and fl: "wallet_floor_millis rl' = dec_fix (millis t - p)"
    using ok wf unfolding rl'_def c_def p_def
    by (simp_all add: try_spend_def Let_def dec_sub_def wallet_ok_def split: if_splits)
  have c: "0 < c" unfolding c_def using wf cost by (simp add: cost_in_millis_pos wallet_ok_def)
  have wf': "0 \<le> max_balance_millis rl" "4 * max_balance_millis rl \<le> T"
      "- T \<le> wallet_floor_millis rl"
    using wf by (simp_all add: wallet_ok_def)
  note grant = dec.wallet_grant [OF t wf'(1,2) c wf'(3) p_def p, folded fl slack_def]
  show "wallet_floor_millis rl + c - slack T \<le> wallet_floor_millis rl'" by (rule grant(1))
  show "millis t - max_balance_millis rl + c - slack T \<le> wallet_floor_millis rl'" by (rule grant(2))
  show "wallet_floor_millis rl' \<le> millis t + slack T" by (rule grant(3))
  show "wallet_ok T rl'"
    using wf grant(4) by (simp add: wallet_ok_def rl'_def try_spend_frame)
qed

lemma granted_from_floor:
  assumes "wallet_ok T rl" and "0 < cost" and "0 \<le> s" and "e \<le> T"
    and "\<forall>t \<in> set ts. s \<le> millis t \<and> millis t \<le> e"
    and "b \<le> wallet_floor_millis rl" and "wallet_floor_millis rl \<le> e + slack T"
  shows "b + of_nat (granted cost ts rl) * (cost_in_millis (quota rl) cost - slack T) \<le> e + slack T"
  using assms
proof (induction ts arbitrary: rl b)
  case Nil
  then show ?case by simp
next
  case (Cons t ts)
  define c where "c = cost_in_millis (quota rl) cost - slack T"
  define rl' where "rl' = snd (try_spend cost t rl)"
  have q: "cost_in_millis (quota rl') cost - slack T = c"
    by (simp add: c_def rl'_def try_spend_frame)
  show ?case
  proof (cases "fst (try_spend cost t rl)")
    case True
    have t: "0 \<le> millis t" "millis t \<le> T" "millis t \<le> e" using Cons.prems by auto
    note grant = try_spend_grant [OF True Cons.prems(1,2) t(1,2), folded rl'_def]
    have "b + c \<le> wallet_floor_millis rl'" "wallet_floor_millis rl' \<le> e + slack T"
      using grant(1,3) Cons.prems(6) t unfolding c_def by linarith+
    then have "b + c + of_nat (granted cost ts rl') * c \<le> e + slack T"
      using Cons.IH [OF grant(4) Cons.prems(2-4), of "b + c"] Cons.prems(5) q by simp
    moreover have "granted cost (t # ts) rl = Suc (granted cost ts rl')"
      using True by (simp add: rl'_def split_beta Let_def)
    ultimately show ?thesis
      by (simp only: c_def [symmetric]) (simp add: distrib_right)
  next
    case False
    then have "granted cost (t # ts) rl = granted cost ts rl"
      by (simp add: split_beta Let_def try_spend_False)
    with Cons show ?thesis by simp
  qed
qed

text \<open>
  The rate bound: whatever the state of the wallet, the calls of a window from \<open>s\<close> to \<open>e\<close>
  spend no more than the maximal balance and the time that passes.
\<close>

lemma granted_window:
  assumes "wallet_ok T rl" and "0 < cost" and "0 \<le> s" and "s \<le> e" and "e \<le> T"
    and "\<forall>t \<in> set ts. s \<le> millis t \<and> millis t \<le> e"
  shows "of_nat (granted cost ts rl) * (cost_in_millis (quota rl) cost - slack T)
    \<le> max_balance_millis rl + (e - s) + slack T"
  using assms
proof (induction ts arbitrary: rl)
  case Nil
  then show ?case by (simp add: wallet_ok_def slack_def)
next
  case (Cons t ts)
  define c where "c = cost_in_millis (quota rl) cost - slack T"
  define rl' where "rl' = snd (try_spend cost t rl)"
  show ?case
  proof (cases "fst (try_spend cost t rl)")
    case True
    have t: "0 \<le> millis t" "millis t \<le> T" "s \<le> millis t" "millis t \<le> e"
      using Cons.prems by auto
    note grant = try_spend_grant [OF True Cons.prems(1,2) t(1,2), folded rl'_def]
    have "s - max_balance_millis rl + c \<le> wallet_floor_millis rl'"
        "wallet_floor_millis rl' \<le> e + slack T"
      using grant(2,3) t unfolding c_def by linarith+
    then have "s - max_balance_millis rl + c + of_nat (granted cost ts rl')
        * (cost_in_millis (quota rl') cost - slack T) \<le> e + slack T"
      using Cons.prems grant(4) by (intro granted_from_floor [where s = s]) auto
    then have "c + of_nat (granted cost ts rl') * c \<le> max_balance_millis rl + (e - s) + slack T"
      by (simp add: c_def rl'_def try_spend_frame)
    moreover have "granted cost (t # ts) rl = Suc (granted cost ts rl')"
      using True by (simp add: rl'_def split_beta Let_def)
    ultimately show ?thesis
      by (simp only: c_def [symmetric]) (simp add: distrib_right)
  next
    case False
    then have "granted cost (t # ts) rl = granted cost ts rl"
      by (simp add: split_beta Let_def try_spend_False)
    with Cons show ?thesis by simp
  qed
qed

text \<open>The price of one request, up to the rounding of the two divisions.\<close>

lemma cost_in_millis_lower:
  assumes "0 < q"
  shows "(1 - 2 * (1 / (2 * 10 ^ 27))) * (1000 / q) \<le> cost_in_millis q 1"
proof -
  define u :: rat where "u = 1 / (2 * 10 ^ 27)"
  define r where "r = dec_fix (q / 1000)"
  have r: "0 < r" "r \<le> (1 + u) * (q / 1000)"
    using assms dec.rnd_pos [of "q / 1000"] dec.rnd_bounds(1) [of "q / 1000"]
    by (simp_all add: r_def u_def distrib_right)
  have "1 / ((1 + u) * (q / 1000)) \<le> 1 / r"
    using r assms by (intro divide_left_mono mult_pos_pos) (auto simp: u_def)
  moreover have "(1 - u) * (1000 / q) \<le> 1 / ((1 + u) * (q / 1000))"
    using assms by (simp add: u_def field_simps)
  ultimately have inv: "(1 - u) * (1000 / q) \<le> 1 / r" by linarith
  have "(1 - 2 * u) * (1000 / q) \<le> (1 - u) * ((1 - u) * (1000 / q))"
    using assms by (simp add: u_def field_simps)
  also have "\<dots> \<le> (1 - u) * (1 / r)"
    using inv by (intro mult_left_mono) (simp_all add: u_def)
  also have "\<dots> \<le> dec_fix (1 / r)"
    using dec.rnd_bounds(2) [of "1 / r"] r by (simp add: u_def left_diff_distrib)
  finally show ?thesis
    by (simp add: cost_in_millis_def dec_div_def r_def u_def)
qed

lemma cost_in_millis_upper:
  assumes "0 < q"
  shows "cost_in_millis q 1 \<le> (1 + 4 * (1 / (2 * 10 ^ 27))) * (1000 / q)"
proof -
  define u :: rat where "u = 1 / (2 * 10 ^ 27)"
  define r where "r = dec_fix (q / 1000)"
  have r: "0 < r" "(1 - u) * (q / 1000) \<le> r"
    using assms dec.rnd_pos [of "q / 1000"] dec.rnd_bounds(2) [of "q / 1000"]
    by (simp_all add: r_def u_def left_diff_distrib)
  have "dec_fix (1 / r) \<le> (1 + u) * (1 / r)"
    using dec.rnd_bounds(1) [of "1 / r"] r by (simp add: u_def distrib_right)
  also have "\<dots> \<le> (1 + u) * (1 / ((1 - u) * (q / 1000)))"
    using r assms by (intro mult_left_mono divide_left_mono mult_pos_pos) (auto simp: u_def)
  also have "\<dots> \<le> (1 + 4 * u) * (1000 / q)"
    using assms by (simp add: u_def field_simps)
  finally show ?thesis
    by (simp add: cost_in_millis_def dec_div_def r_def u_def)
qed

lemma cost_in_millis_one: "cost_in_millis 1 1 = 1000"
  by code_simp

text \<open>Grants paid for by a second and a window of \<open>w\<close> seconds, at a cost that is the exact one up to rounding.\<close>

lemma grants_times_cost:
  fixes c :: rat
  assumes qr: "0 < (of_int q :: rat)" "(of_int q :: rat) \<le> 10 ^ 6"
    and main: "of_nat n * (c - 2 / 10 ^ 14) \<le> 1000 + 1000 * of_nat w + 2 / 10 ^ 14"
    and low: "(1 - 1 / 10 ^ 27) * (1000 / of_int q) \<le> c"
  shows "of_nat n * (1 - 3 / 10 ^ 11) \<le> (of_int (q * (int w + 1)) :: rat) + 2 / 10 ^ 11"
proof -
  have "(1 - 3 / 10 ^ 11) * (1000 / of_int q :: rat) \<le> (1 - 1 / 10 ^ 27) * (1000 / of_int q) - 2 / 10 ^ 14"
    using qr by (simp add: field_simps)
  with low have "(1 - 3 / 10 ^ 11) * (1000 / of_int q) \<le> c - 2 / 10 ^ 14" by linarith
  then have "of_nat n * ((1 - 3 / 10 ^ 11) * (1000 / of_int q)) \<le> of_nat n * (c - 2 / 10 ^ 14)"
    by (rule mult_left_mono) simp
  with main have "of_nat n * ((1 - 3 / 10 ^ 11) * (1000 / of_int q :: rat))
      \<le> 1000 + 1000 * of_nat w + 2 / 10 ^ 14" by linarith
  then have "of_nat n * ((1 - 3 / 10 ^ 11) * (1000 / of_int q)) * (of_int q / 1000 :: rat)
      \<le> (1000 + 1000 * of_nat w + 2 / 10 ^ 14) * (of_int q / 1000)"
    using qr by (intro mult_right_mono) simp_all
  also have "(1000 + 1000 * of_nat w + 2 / 10 ^ 14) * (of_int q / 1000)
      = (of_int (q * (int w + 1)) :: rat) + 2 / 10 ^ 17 * of_int q"
    by (simp add: field_simps)
  also have "of_nat n * ((1 - 3 / 10 ^ 11) * (1000 / of_int q)) * (of_int q / 1000 :: rat)
      = of_nat n * (1 - 3 / 10 ^ 11)"
    using qr by simp
  finally have "of_nat n * (1 - 3 / 10 ^ 11) \<le> (of_int (q * (int w + 1)) :: rat) + 2 / 10 ^ 17 * of_int q" .
  moreover have "2 / 10 ^ 17 * (of_int q :: rat) \<le> 2 / 10 ^ 11"
    using qr by (simp add: field_simps)
  ultimately show "of_nat n * (1 - 3 / 10 ^ 11) \<le> (of_int (q * (int w + 1)) :: rat) + 2 / 10 ^ 11"
    by (rule order_trans [OF _ add_left_mono])
qed

section \<open>Properties\<close>

text \<open>C3: the rate limiter never grants more than its quota. Whatever calls are made, at whatever
  readings of the clock within a window of \<open>w\<close> seconds, and whatever the wallet held before, a
  limiter of quota \<open>q\<close> requests per second and a balance of at most one second grants at most
  \<open>q * (w + 1)\<close> of them. The bound is exact for the 28-digit decimal arithmetic of the code, for
  quotas up to a million, windows up to 1000 seconds and clocks up to the year 2286.\<close>

theorem rate_limit_window:
  assumes q: "0 < q" "q \<le> 10 ^ 6" and w: "w < 10 ^ 3"
    and rl: "quota rl = of_int q" "max_balance_millis rl = 1000"
      "- (10 ^ 13) \<le> wallet_floor_millis rl"
    and times: "0 \<le> s" "s + 1000 * of_nat w \<le> 10 ^ 13"
      "\<forall>t \<in> set ts. s \<le> millis t \<and> millis t \<le> s + 1000 * of_nat w"
  shows "int (granted 1 ts rl) \<le> q * (int w + 1)"
proof (rule ccontr)
  define n where "n = granted 1 ts rl"
  define N where "N = q * (int w + 1)"
  define c where "c = cost_in_millis (of_int q) 1"
  assume "\<not> ?thesis"
  then have n: "of_int N + 1 \<le> (of_nat n :: rat)"
    unfolding n_def [symmetric] N_def [symmetric]
    by (metis not_le of_int_1 of_int_add of_int_le_iff of_int_of_nat_eq zless_imp_add1_zle)
  have "q * (int w + 1) \<le> 10 ^ 6 * 10 ^ 3"
    using q w by (intro mult_mono) auto
  then have "(of_int (q * (int w + 1)) :: rat) \<le> of_int (10 ^ 6 * 10 ^ 3)"
    by (simp only: of_int_le_iff)
  then have N: "0 \<le> (of_int N :: rat)" "(of_int N :: rat) \<le> 10 ^ 9"
    using q by (simp_all add: N_def)
  have qr: "0 < (of_int q :: rat)" "(of_int q :: rat) \<le> 10 ^ 6"
    using q by (simp, metis of_int_le_iff of_int_numeral of_int_power)
  have "wallet_ok (10 ^ 13) rl" using q rl by (simp add: wallet_ok_def)
  from granted_window [OF this, of 1 s "s + 1000 * of_nat w" ts]
  have "of_nat n * (c - slack (10 ^ 13)) \<le> 1000 + 1000 * of_nat w + slack (10 ^ 13)"
    using times rl by (simp add: n_def c_def)
  then have main: "of_nat n * (c - 2 / 10 ^ 14) \<le> 1000 + 1000 * of_nat w + 2 / 10 ^ 14"
    by (simp add: slack_def)
  have low: "(1 - 1 / 10 ^ 27) * (1000 / of_int q) \<le> c"
    using cost_in_millis_lower [OF qr(1)] by (simp add: c_def)
  have "of_nat n * (1 - 3 / 10 ^ 11) \<le> (of_int N :: rat) + 2 / 10 ^ 11"
    using grants_times_cost [OF qr main low] by (simp add: N_def)
  moreover have "(of_int N + 1) * (1 - 3 / 10 ^ 11) \<le> (of_nat n * (1 - 3 / 10 ^ 11) :: rat)"
    using n by (intro mult_right_mono) simp_all
  ultimately have "(of_int N + 1) * (1 - 3 / 10 ^ 11) \<le> (of_int N :: rat) + 2 / 10 ^ 11"
    by linarith
  then show False using N by (simp add: algebra_simps)
qed

theorem rate_limit_window_witness:
  "int (granted 1 [\<lparr>datetime_us = 0, millis = 5000\<rparr>, \<lparr>datetime_us = 0, millis = 5001\<rparr>] (new_rate_limiter 1 1 \<lparr>datetime_us = 0, millis = 0\<rparr>))
    \<le> 1 * (int 1 + 1)"
  by (rule rate_limit_window [where s = 5000]) (simp_all add: new_rate_limiter_def)

text \<open>No starvation. A limiter with a positive quota that has been left alone for a second (its
  floor is 1001 ms below the reading) grants the next request, whatever the decimal rounding.\<close>

theorem rate_limit_idle_grants:
  assumes "0 < q" and "quota rl = of_int q" and "max_balance_millis rl = 1000"
    and "wallet_floor_millis rl + 1001 \<le> millis t"
  shows "fst (try_spend 1 t rl)"
proof -
  define x where "x = millis t - wallet_floor_millis rl"
  have x: "1001 \<le> x" using assms(4) by (simp add: x_def)
  have "x - 1 / (2 * 10 ^ 27) * x \<le> dec_fix x" using x by (intro dec.rnd_bounds) simp
  then have full: "1000 \<le> dec_fix x" using x by simp
  have "cost_in_millis (of_int q) 1 \<le> 1000"
  proof (cases "q = 1")
    case True
    then show ?thesis by (simp add: cost_in_millis_one)
  next
    case False
    with assms(1) have q: "2 \<le> (of_int q :: rat)" by simp
    then have "1000 / of_int q \<le> (500 :: rat)" by (simp add: field_simps)
    moreover have "cost_in_millis (of_int q) 1 \<le> (1 + 4 * (1 / (2 * 10 ^ 27))) * (1000 / of_int q)"
      using q by (intro cost_in_millis_upper) simp
    ultimately show ?thesis by simp
  qed
  then have "0 \<le> dec_fix (min (dec_fix x) 1000 - cost_in_millis (of_int q) 1)"
    using full by (simp add: dec.rnd_nonneg_iff)
  then show ?thesis
    using assms(1-3) by (simp add: try_spend_def Let_def dec_sub_def x_def)
qed

theorem rate_limit_idle_grants_witness:
  "fst (try_spend 1 \<lparr>datetime_us = 0, millis = 2000\<rparr> (new_rate_limiter 1 7 \<lparr>datetime_us = 0, millis = 0\<rparr>))"
  by (rule rate_limit_idle_grants [of 7]) (simp_all add: new_rate_limiter_def)

text \<open>The fallback sampler is the rate limiting sampler first and the 5 percent sampler for the
  rest: a request the reservoir grants is recorded and sampled and does not reach the fixed rate
  sampler, every other request gets exactly that sampler's answer, and the attributes and the
  trace state of a granted request are passed on unchanged.\<close>

theorem fallback_samples:
  "fst (fallback_should_sample ratio now req rl) =
     (if fst (try_spend 1 now rl)
      then \<lparr>decision = RECORD_AND_SAMPLE, res_attributes = req_attributes req,
            res_trace_state = req_trace_state req\<rparr>
      else ratio fallback_rate req)
   \<and> snd (fallback_should_sample ratio now req rl) = snd (try_spend 1 now rl)"
  by (simp add: fallback_should_sample_def rate_limiting_should_sample_def sampling_result_def
      split_beta Let_def)

end
