(* ===== verification/SamplingRules.thy ===== *)
theory SamplingRules
  imports RateLimiter
begin

text \<open>
  The documents exchanged with X-Ray: \<open>sampler/_sampling_rule.py\<close>, \<open>_sampling_target.py\<close>,
  \<open>_sampling_statistics_document.py\<close> and \<open>_aws_xray_sampling_client.py\<close>.

  A document of a response is the record of the keyword arguments it passes to the constructor
  (\<open>None\<close> for an absent or null one), with the list of its unknown keywords, which make the
  constructor raise a \<open>TypeError\<close>; the values have the types of the X-Ray interface. The HTTP
  session is code outside the repository: its answer is an argument of the two calls.
\<close>

section \<open>Sampling rules\<close>

record rule_doc =
  doc_Attributes :: "(string \<times> string) list option"
  doc_FixedRate :: "rat option"
  doc_HTTPMethod :: "string option"
  doc_Host :: "string option"
  doc_Priority :: "int option"
  doc_ReservoirSize :: "int option"
  doc_ResourceARN :: "string option"
  doc_RuleARN :: "string option"
  doc_RuleName :: "string option"
  doc_ServiceName :: "string option"
  doc_ServiceType :: "string option"
  doc_URLPath :: "string option"
  doc_Version :: "int option"
  doc_unknown :: "string list"

record sampling_rule =
  Attributes :: "(string \<times> string) list"
  FixedRate :: rat
  HTTPMethod :: string
  Host :: string
  Priority :: int
  ReservoirSize :: int
  ResourceARN :: string
  RuleARN :: string
  RuleName :: string
  ServiceName :: string
  ServiceType :: string
  URLPath :: string
  Version :: int

text \<open>\<open>x if x is not None else default\<close>.\<close>

definition or_default :: "'a option \<Rightarrow> 'a \<Rightarrow> 'a" where
  "or_default x d = (case x of Some v \<Rightarrow> v | None \<Rightarrow> d)"

lemma or_default_simps [simp]: "or_default (Some v) d = v" "or_default None d = d"
  by (simp_all add: or_default_def)

definition new_sampling_rule :: "rule_doc \<Rightarrow> sampling_rule res" where
  "new_sampling_rule doc =
     (if doc_unknown doc \<noteq> [] then Inl TypeError
      else Inr \<lparr>Attributes = or_default (doc_Attributes doc) [],
                FixedRate = or_default (doc_FixedRate doc) 0,
                HTTPMethod = or_default (doc_HTTPMethod doc) [],
                Host = or_default (doc_Host doc) [],
                Priority = or_default (doc_Priority doc) 10001,
                ReservoirSize = or_default (doc_ReservoirSize doc) 0,
                ResourceARN = or_default (doc_ResourceARN doc) [],
                RuleARN = or_default (doc_RuleARN doc) [],
                RuleName = or_default (doc_RuleName doc) [],
                ServiceName = or_default (doc_ServiceName doc) [],
                ServiceType = or_default (doc_ServiceType doc) [],
                URLPath = or_default (doc_URLPath doc) [],
                Version = or_default (doc_Version doc) 0\<rparr>)"

definition rule_lt :: "sampling_rule \<Rightarrow> sampling_rule \<Rightarrow> bool" where
  "rule_lt self other =
     (if Priority self = Priority other then RuleName self < RuleName other
      else Priority self < Priority other)"

text \<open>Dictionaries compare equal when they have the same items, whatever their order.\<close>

definition dict_eq :: "('k \<times> 'v) list \<Rightarrow> ('k \<times> 'v) list \<Rightarrow> bool" where
  "dict_eq d e \<longleftrightarrow>
     length d = length e \<and> list_all (\<lambda>(k, v). map_of e k = Some v) d"

definition rule_eq :: "sampling_rule \<Rightarrow> sampling_rule \<Rightarrow> bool" where
  "rule_eq self other \<longleftrightarrow>
     FixedRate self = FixedRate other
     \<and> HTTPMethod self = HTTPMethod other
     \<and> Host self = Host other
     \<and> Priority self = Priority other
     \<and> ReservoirSize self = ReservoirSize other
     \<and> ResourceARN self = ResourceARN other
     \<and> RuleARN self = RuleARN other
     \<and> RuleName self = RuleName other
     \<and> ServiceName self = ServiceName other
     \<and> ServiceType self = ServiceType other
     \<and> URLPath self = URLPath other
     \<and> Version self = Version other
     \<and> dict_eq (Attributes self) (Attributes other)"

lemma dict_eq_iff_map_of:
  assumes "distinct (map fst d)" and "distinct (map fst e)"
  shows "dict_eq d e \<longleftrightarrow> map_of d = map_of e"
proof
  assume eq: "dict_eq d e"
  then have sub: "set d \<subseteq> set e"
    by (auto simp: dict_eq_def list_all_iff dest: map_of_SomeD)
  have "distinct d" "distinct e" using assms by (simp_all add: distinct_map)
  then have "card (set d) = card (set e)" using eq by (simp add: dict_eq_def distinct_card)
  then have "set d = set e" using sub by (simp add: card_subset_eq)
  then show "map_of d = map_of e" using assms by (simp add: map_of_inject_set)
next
  assume eq: "map_of d = map_of e"
  then have s: "set d = set e" using assms by (simp add: map_of_inject_set)
  have "distinct d" "distinct e" using assms by (simp_all add: distinct_map)
  with s have "length d = length e" by (metis distinct_card)
  moreover have "list_all (\<lambda>(k, v). map_of e k = Some v) d"
    using assms s by (auto simp: list_all_iff)
  ultimately show "dict_eq d e" by (simp add: dict_eq_def)
qed

text \<open>The order of \<open>rule_lt\<close> as a linear order on keys: priority, then name.\<close>

datatype rule_key = RuleKey int string

instantiation rule_key :: linorder
begin

definition less_eq_rule_key :: "rule_key \<Rightarrow> rule_key \<Rightarrow> bool" where
  "less_eq_rule_key a b =
     (case (a, b) of (RuleKey p m, RuleKey q n) \<Rightarrow> p < q \<or> p = q \<and> m \<le> n)"

definition less_rule_key :: "rule_key \<Rightarrow> rule_key \<Rightarrow> bool" where
  "less_rule_key a b =
     (case (a, b) of (RuleKey p m, RuleKey q n) \<Rightarrow> p < q \<or> p = q \<and> m < n)"

instance
  by standard (auto simp: less_eq_rule_key_def less_rule_key_def split: rule_key.splits)

end

definition rule_key :: "sampling_rule \<Rightarrow> rule_key" where
  "rule_key rule = RuleKey (Priority rule) (RuleName rule)"

lemma rule_lt_iff: "rule_lt a b \<longleftrightarrow> rule_key a < rule_key b"
  by (auto simp: rule_lt_def rule_key_def less_rule_key_def)

text \<open>
  \<open>list.sort\<close> is a stable sort that compares with \<open>__lt__\<close> only, which by \<open>rule_lt_iff\<close> is
  the order of the keys.
\<close>

definition sort_rules :: "sampling_rule list \<Rightarrow> sampling_rule list" where
  "sort_rules rules = sort_key rule_key rules"

lemma sort_rules_set [simp]: "set (sort_rules rules) = set rules"
  by (simp add: sort_rules_def)

lemma sort_rules_sorted: "sorted_wrt (\<lambda>a b. \<not> rule_lt b a) (sort_rules rules)"
proof -
  have "sorted (map rule_key (sort_rules rules))" by (simp add: sort_rules_def)
  then show ?thesis
    by (simp add: sorted_map rule_lt_iff not_less)
qed

section \<open>Sampling targets\<close>

record target_doc =
  tdoc_FixedRate :: "rat option"
  tdoc_Interval :: "int option"
  tdoc_ReservoirQuota :: "int option"
  tdoc_ReservoirQuotaTTL :: "rat option"
  tdoc_RuleName :: "string option"
  tdoc_unknown :: "string list"

record sampling_target =
  target_FixedRate :: rat
  target_Interval :: "int option"
  target_ReservoirQuota :: "int option"
  target_ReservoirQuotaTTL :: "rat option"
  target_RuleName :: string

definition new_sampling_target :: "target_doc \<Rightarrow> sampling_target res" where
  "new_sampling_target doc =
     (if tdoc_unknown doc \<noteq> [] then Inl TypeError
      else Inr \<lparr>target_FixedRate = or_default (tdoc_FixedRate doc) 0,
                target_Interval = tdoc_Interval doc,
                target_ReservoirQuota = tdoc_ReservoirQuota doc,
                target_ReservoirQuotaTTL = tdoc_ReservoirQuotaTTL doc,
                target_RuleName = or_default (tdoc_RuleName doc) []\<rparr>)"

record unprocessed_doc =
  udoc_ErrorCode :: "string option"
  udoc_Message :: "string option"
  udoc_RuleName :: "string option"
  udoc_unknown :: "string list"

text \<open>The last two fields keep a \<open>None\<close> they are given when there is an error code.\<close>

record unprocessed_statistics =
  unprocessed_ErrorCode :: string
  unprocessed_Message :: "string option"
  unprocessed_RuleName :: "string option"

definition new_unprocessed_statistics :: "unprocessed_doc \<Rightarrow> unprocessed_statistics res" where
  "new_unprocessed_statistics doc =
     (if udoc_unknown doc \<noteq> [] then Inl TypeError
      else Inr \<lparr>unprocessed_ErrorCode = or_default (udoc_ErrorCode doc) [],
                unprocessed_Message =
                  (if udoc_ErrorCode doc \<noteq> None then udoc_Message doc else Some []),
                unprocessed_RuleName =
                  (if udoc_ErrorCode doc \<noteq> None then udoc_RuleName doc else Some [])\<rparr>)"

record target_response =
  LastRuleModification :: rat
  SamplingTargetDocuments :: "sampling_target list"
  UnprocessedStatistics :: "unprocessed_statistics list"

text \<open>The documents that construct, in order; one that raises \<open>TypeError\<close> is logged and skipped.\<close>

fun constructed :: "('d \<Rightarrow> 'a res) \<Rightarrow> 'd list \<Rightarrow> 'a list" where
  "constructed build [] = []"
| "constructed build (d # ds) =
     (case build d of Inl _ \<Rightarrow> constructed build ds | Inr x \<Rightarrow> x # constructed build ds)"

definition new_target_response ::
    "rat option \<Rightarrow> target_doc list option \<Rightarrow> unprocessed_doc list option \<Rightarrow> target_response" where
  "new_target_response modified documents unprocessed =
     \<lparr>LastRuleModification = or_default modified 0,
      SamplingTargetDocuments = constructed new_sampling_target (or_default documents []),
      UnprocessedStatistics =
        constructed new_unprocessed_statistics (or_default unprocessed [])\<rparr>"

section \<open>Statistics\<close>

record statistics =
  ClientID :: string
  stats_RuleName :: string
  RequestCount :: int
  BorrowCount :: int
  SampleCount :: int

definition new_statistics :: "string \<Rightarrow> string \<Rightarrow> statistics" where
  "new_statistics client_id rule_name =
     \<lparr>ClientID = client_id, stats_RuleName = rule_name,
      RequestCount = 0, BorrowCount = 0, SampleCount = 0\<rparr>"

text \<open>The dictionary that is sent; \<open>Timestamp\<close> is the reading in seconds.\<close>

record statistics_document = statistics +
  Timestamp :: rat

definition snapshot :: "instant \<Rightarrow> statistics \<Rightarrow> statistics_document" where
  "snapshot now stats =
     \<lparr>ClientID = ClientID stats, stats_RuleName = stats_RuleName stats,
      RequestCount = RequestCount stats, BorrowCount = BorrowCount stats,
      SampleCount = SampleCount stats, Timestamp = millis now / 1000\<rparr>"

section \<open>The X-Ray client\<close>

text \<open>
  What the session and \<open>response.json()\<close> come to: an exception of either (every one of them is
  caught), no response, a response that is null, or a body. A body of \<open>GetSamplingRules\<close> has an
  optional list of records, each with an optional rule; a body of \<open>SamplingTargets\<close> has its two
  mandatory keys or lacks one.
\<close>

datatype 'b reply = Fails exn | NoResponse | NullBody | Body 'b

type_synonym rules_body = "rule_doc option list option"

record targets_body =
  body_LastRuleModification :: "rat option option"
  body_SamplingTargetDocuments :: "target_doc list option option"
  body_UnprocessedStatistics :: "unprocessed_doc list option"
  body_unknown :: "string list"

text \<open>
  The loop over the records: a record without a rule is skipped, and the exception of a rule that
  does not construct is caught outside the loop, which ends there with the rules built so far.
\<close>

fun build_rules :: "rule_doc option list \<Rightarrow> sampling_rule list" where
  "build_rules [] = []"
| "build_rules (None # records) = build_rules records"
| "build_rules (Some doc # records) =
     (case new_sampling_rule doc of Inl _ \<Rightarrow> [] | Inr rule \<Rightarrow> rule # build_rules records)"

definition get_sampling_rules :: "rules_body reply \<Rightarrow> sampling_rule list" where
  "get_sampling_rules reply =
     (case reply of
        Fails _ \<Rightarrow> [] | NoResponse \<Rightarrow> [] | NullBody \<Rightarrow> []
      | Body None \<Rightarrow> []
      | Body (Some records) \<Rightarrow> build_rules records)"

definition get_sampling_targets :: "targets_body reply \<Rightarrow> target_response" where
  "get_sampling_targets reply =
     (let default = new_target_response None None None
      in case reply of
           Fails _ \<Rightarrow> default | NoResponse \<Rightarrow> default | NullBody \<Rightarrow> default
         | Body b \<Rightarrow>
             (case (body_LastRuleModification b, body_SamplingTargetDocuments b) of
                (Some modified, Some documents) \<Rightarrow>
                  if body_unknown b \<noteq> [] then default
                  else new_target_response modified documents (body_UnprocessedStatistics b)
              | _ \<Rightarrow> default))"

lemma constructed_set: "x \<in> set (constructed build ds) \<longleftrightarrow> (\<exists>d \<in> set ds. build d = Inr x)"
  by (induction ds) (auto split: sum.splits)

lemma build_rules_all:
  "list_all (\<lambda>r. case r of None \<Rightarrow> True | Some doc \<Rightarrow> doc_unknown doc = []) records \<Longrightarrow>
     length (build_rules records) = length (filter (\<lambda>r. r \<noteq> None) records)"
  by (induction records rule: build_rules.induct) (auto simp: new_sampling_rule_def)

end
