(* ===== verification/Attributes.thy ===== *)
theory Attributes
  imports Prelude
begin

text \<open>
  Attribute values and attribute mappings (\<open>opentelemetry.util.types\<close>), the data that the
  samplers, the span processors and the metric attribute generator read.

  A value is a string, a boolean, an integer, a float (the rational it denotes) or a sequence;
  \<open>AEnum\<close> is a member of an enumeration class, which Python compares equal to no string.
  A mapping is an association list in insertion order.
\<close>

datatype aval = AStr string | ABool bool | AInt int | AFloat rat | ASeq "aval list" | AEnum string

type_synonym attrs = "(string \<times> aval) list"

text \<open>\<open>d.get(k1, d.get(k2, None))\<close>, the look-up of a key with an older key as its backup.\<close>

definition get_or :: "attrs \<Rightarrow> string \<Rightarrow> string \<Rightarrow> aval option" where
  "get_or d k1 k2 = (case map_of d k1 of Some v \<Rightarrow> Some v | None \<Rightarrow> map_of d k2)"

lemma get_or_simps [py_simps]:
  "map_of d k1 = Some v \<Longrightarrow> get_or d k1 k2 = Some v"
  "map_of d k1 = None \<Longrightarrow> get_or d k1 k2 = map_of d k2"
  by (simp_all add: get_or_def)

text \<open>A method of \<open>str\<close> called on a value: every other type has no such attribute.\<close>

definition as_str :: "aval \<Rightarrow> string res" where
  "as_str v = (case v of AStr s \<Rightarrow> Inr s | _ \<Rightarrow> Inl AttributeError)"

lemma as_str_simps [simp, py_simps]:
  "as_str (AStr s) = Inr s"
  "as_str (ABool b) = Inl AttributeError"
  "as_str (AInt i) = Inl AttributeError"
  "as_str (AFloat x) = Inl AttributeError"
  "as_str (ASeq vs) = Inl AttributeError"
  "as_str (AEnum n) = Inl AttributeError"
  by (simp_all add: as_str_def)

lemma as_str_Inr: "as_str v = Inr s \<longleftrightarrow> v = AStr s"
  by (cases v) simp_all

text \<open>\<open>len(v)\<close>.\<close>

definition py_len :: "aval \<Rightarrow> nat res" where
  "py_len v =
     (case v of AStr s \<Rightarrow> Inr (length s) | ASeq vs \<Rightarrow> Inr (length vs) | _ \<Rightarrow> Inl TypeError)"

text \<open>A value that Python treats as true.\<close>

definition truthy :: "aval \<Rightarrow> bool" where
  "truthy v =
     (case v of AStr s \<Rightarrow> s \<noteq> [] | ABool b \<Rightarrow> b | AInt i \<Rightarrow> i \<noteq> 0 | AFloat x \<Rightarrow> x \<noteq> 0
      | ASeq vs \<Rightarrow> vs \<noteq> [] | AEnum _ \<Rightarrow> True)"

end
