(* ===== verification/Matcher.thy ===== *)
theory Matcher
  imports Attributes
begin

text \<open>
  \<open>sampler/_matcher.py\<close>: wildcard patterns, translated to a regular expression and matched by
  Python's \<open>re\<close>. The model has the three stages: the text of the expression that
  \<open>to_regex_pattern\<close> builds (with \<open>re.escape\<close>), the part of the \<open>re\<close> syntax such a text uses,
  and \<open>re.fullmatch\<close> on it, in which a dot matches any character but a newline.

  \<open>glob\<close> is the specification: the text falls into one segment per character of the pattern.
\<close>

section \<open>Regular expressions\<close>

text \<open>The characters that \<open>re.escape\<close> puts a backslash before.\<close>

definition re_special :: "char \<Rightarrow> bool" where
  "re_special c \<longleftrightarrow>
     ord c \<in> {9, 10, 11, 12, 13, 32, 35, 36, 38, 40, 41, 42, 43, 45, 46, 63, 91, 92, 93, 94, 123, 124, 125, 126}"

abbreviation backslash :: char where
  "backslash \<equiv> CHR 0x5C"

abbreviation newline :: char where
  "newline \<equiv> CHR 0x0A"

definition re_escape :: "string \<Rightarrow> string" where
  "re_escape s = concat (map (\<lambda>c. if re_special c then [backslash, c] else [c]) s)"

datatype re_item = RChar char | RAny | RStar

text \<open>The compiled expression; \<open>None\<close> for a text outside the syntax described above.\<close>

fun re_compile :: "string \<Rightarrow> re_item list option" where
  "re_compile [] = Some []"
| "re_compile (c # cs) =
     (if c = backslash then
        (case cs of [] \<Rightarrow> None | d # ds \<Rightarrow> map_option ((#) (RChar d)) (re_compile ds))
      else if c = CHR ''.'' then
        (if cs \<noteq> [] \<and> hd cs = CHR ''*'' then map_option ((#) RStar) (re_compile (tl cs))
         else map_option ((#) RAny) (re_compile cs))
      else if re_special c then None
      else map_option ((#) (RChar c)) (re_compile cs))"

fun re_fullmatch :: "re_item list \<Rightarrow> string \<Rightarrow> bool" where
  "re_fullmatch [] s = (s = [])"
| "re_fullmatch (RChar c # r) s = (case s of [] \<Rightarrow> False | x # xs \<Rightarrow> x = c \<and> re_fullmatch r xs)"
| "re_fullmatch (RAny # r) s = (case s of [] \<Rightarrow> False | x # xs \<Rightarrow> x \<noteq> newline \<and> re_fullmatch r xs)"
| "re_fullmatch (RStar # r) [] = re_fullmatch r []"
| "re_fullmatch (RStar # r) (x # xs) =
     (re_fullmatch r (x # xs) \<or> x \<noteq> newline \<and> re_fullmatch (RStar # r) xs)"

section \<open>The matcher\<close>

text \<open>
  The loop of \<open>to_regex_pattern\<close> at \<open>index\<close>: the rest of the pattern is still to be read,
  \<open>token_start\<close> is \<open>-1\<close> or the index at which the current run of literal characters began.
\<close>

fun to_regex_loop :: "string \<Rightarrow> nat \<Rightarrow> int \<Rightarrow> string \<Rightarrow> string \<Rightarrow> string" where
  "to_regex_loop rule_pattern index token_start regex_pattern [] =
     (if token_start \<noteq> - 1 then regex_pattern @ re_escape (drop (nat token_start) rule_pattern)
      else regex_pattern)"
| "to_regex_loop rule_pattern index token_start regex_pattern (c # rest) =
     (if c = CHR ''*'' \<or> c = CHR ''?'' then
        let regex' = (if token_start \<noteq> - 1
              then regex_pattern @ re_escape (drop (nat token_start) (take index rule_pattern))
              else regex_pattern);
            regex'' = regex' @ (if c = CHR ''*'' then ''.*'' else ''.'')
        in to_regex_loop rule_pattern (Suc index) (- 1) regex'' rest
      else
        to_regex_loop rule_pattern (Suc index)
          (if token_start = - 1 then int index else token_start) regex_pattern rest)"

definition to_regex_pattern :: "string \<Rightarrow> string" where
  "to_regex_pattern rule_pattern = to_regex_loop rule_pattern 0 (- 1) [] rule_pattern"

text \<open>
  \<open>re.fullmatch(regex, text) is not None\<close>: \<open>re\<close> refuses a text that is no string with a
  \<open>TypeError\<close> and an expression it cannot parse with its own \<open>re.error\<close>.
\<close>

definition py_fullmatch :: "string \<Rightarrow> aval \<Rightarrow> bool res" where
  "py_fullmatch regex text =
     (case re_compile regex of
        None \<Rightarrow> Inl (Foreign ''re.error'')
      | Some items \<Rightarrow>
          (case text of AStr s \<Rightarrow> Inr (re_fullmatch items s) | _ \<Rightarrow> Inl TypeError))"

definition wild_card_match :: "aval option \<Rightarrow> string option \<Rightarrow> bool res" where
  "wild_card_match text pattern =
     (case pattern of
        None \<Rightarrow> Inr False
      | Some p \<Rightarrow>
          if p = ''*'' then Inr True
          else
            (case text of
               None \<Rightarrow> Inr False
             | Some t \<Rightarrow>
                 if length p = 0 then bindr (py_len t) (\<lambda>n. Inr (n = 0))
                 else if list_ex (\<lambda>c. c = CHR ''*'' \<or> c = CHR ''?'') p
                 then py_fullmatch (to_regex_pattern p) t
                 else Inr (AStr p = t)))"

text \<open>The loop over the attributes, with the count of the matches so far.\<close>

fun count_matches :: "(string \<times> string) list \<Rightarrow> nat \<Rightarrow> attrs \<Rightarrow> nat res" where
  "count_matches rule_attributes n [] = Inr n"
| "count_matches rule_attributes n ((key, val) # rest) =
     (case map_of rule_attributes key of
        None \<Rightarrow> count_matches rule_attributes n rest
      | Some pattern \<Rightarrow>
          bindr (wild_card_match (Some val) (Some pattern)) (\<lambda>m.
            count_matches rule_attributes (if m then n + 1 else n) rest))"

definition attribute_match :: "attrs option \<Rightarrow> (string \<times> string) list option \<Rightarrow> bool res" where
  "attribute_match attributes rule_attributes =
     (case rule_attributes of
        None \<Rightarrow> Inr True
      | Some ras \<Rightarrow>
          if length ras = 0 then Inr True
          else
            (case attributes of
               None \<Rightarrow> Inr False
             | Some as \<Rightarrow>
                 if length as = 0 \<or> length ras > length as then Inr False
                 else bindr (count_matches ras 0 as) (\<lambda>n. Inr (n = length ras))))"

definition cloud_platform_mapping :: "(string \<times> string) list" where
  "cloud_platform_mapping =
     [(''aws_lambda'', ''AWS::Lambda::Function''),
      (''aws_elastic_beanstalk'', ''AWS::ElasticBeanstalk::Environment''),
      (''aws_ec2'', ''AWS::EC2::Instance''),
      (''aws_ecs'', ''AWS::ECS::Container''),
      (''aws_eks'', ''AWS::EKS::Container'')]"

section \<open>The specification\<close>

text \<open>
  A star stands for any text without a newline, a question mark for one character that is no
  newline, any other character for itself.
\<close>

definition segment_ok :: "char \<Rightarrow> string \<Rightarrow> bool" where
  "segment_ok c seg =
     (if c = CHR ''*'' then newline \<notin> set seg
      else if c = CHR ''?'' then (\<exists>x. seg = [x] \<and> x \<noteq> newline)
      else seg = [c])"

definition glob :: "string \<Rightarrow> string \<Rightarrow> bool" where
  "glob pattern text \<longleftrightarrow> (\<exists>segs. list_all2 segment_ok pattern segs \<and> text = concat segs)"

section \<open>From the pattern to the expression\<close>

definition regex_of_char :: "char \<Rightarrow> string" where
  "regex_of_char c =
     (if c = CHR ''*'' then ''.*'' else if c = CHR ''?'' then ''.'' else re_escape [c])"

definition item_of_char :: "char \<Rightarrow> re_item" where
  "item_of_char c = (if c = CHR ''*'' then RStar else if c = CHR ''?'' then RAny else RChar c)"

lemma re_escape_append [simp]: "re_escape (s @ t) = re_escape s @ re_escape t"
  by (simp add: re_escape_def)

lemma re_escape_Nil [simp]: "re_escape [] = []"
  by (simp add: re_escape_def)

text \<open>The loop emits the expressions of the characters one after the other.\<close>

lemma to_regex_loop_eq:
  assumes "rule_pattern = pre @ rest"
    and "token_start = - 1 \<or> (\<exists>k \<le> length pre. token_start = int k)"
  shows "to_regex_loop rule_pattern (length pre) token_start regex rest =
    regex @ re_escape (if token_start = - 1 then [] else drop (nat token_start) pre)
      @ concat (map regex_of_char rest)"
  using assms
proof (induction rest arbitrary: pre token_start regex)
  case Nil
  then show ?case by auto
next
  case (Cons c rest)
  have step: "rule_pattern = (pre @ [c]) @ rest" using Cons.prems by simp
  have len: "Suc (length pre) = length (pre @ [c])" by simp
  show ?case
  proof (cases "c = CHR ''*'' \<or> c = CHR ''?''")
    case True
    show ?thesis
      using True Cons.prems unfolding to_regex_loop.simps Let_def len
      by (subst Cons.IH [OF step]) (auto simp: regex_of_char_def)
  next
    case False
    let ?ts = "if token_start = - 1 then int (length pre) else token_start"
    have "?ts = - 1 \<or> (\<exists>k \<le> length (pre @ [c]). ?ts = int k)"
      using Cons.prems(2) by fastforce
    from Cons.IH [OF step this]
    have "to_regex_loop rule_pattern (length pre) token_start regex (c # rest) =
        regex @ re_escape (drop (nat ?ts) (pre @ [c])) @ concat (map regex_of_char rest)"
      using False by (auto split: if_splits)
    moreover have "re_escape (drop (nat ?ts) (pre @ [c])) =
        re_escape (if token_start = - 1 then [] else drop (nat token_start) pre) @ regex_of_char c"
      using False Cons.prems(2) by (auto simp: regex_of_char_def)
    ultimately show ?thesis by simp
  qed
qed

lemma to_regex_pattern_eq: "to_regex_pattern p = concat (map regex_of_char p)"
  using to_regex_loop_eq [of p "[]" p "- 1" "[]"] by (simp add: to_regex_pattern_def)

text \<open>No expression of a character begins with a star, so a dot is never misread.\<close>

lemma regex_head:
  "concat (map regex_of_char p) \<noteq> [] \<Longrightarrow> hd (concat (map regex_of_char p)) \<noteq> CHR ''*''"
  by (cases p) (auto simp: regex_of_char_def re_escape_def re_special_def)

lemma re_compile_char:
  assumes "r \<noteq> [] \<longrightarrow> hd r \<noteq> CHR ''*''"
  shows "re_compile (regex_of_char c @ r) = map_option ((#) (item_of_char c)) (re_compile r)"
proof -
  consider "c = CHR ''*''" | "c = CHR ''?''" | "c \<noteq> CHR ''*''" "c \<noteq> CHR ''?''" "re_special c"
    | "c \<noteq> CHR ''*''" "c \<noteq> CHR ''?''" "\<not> re_special c" by blast
  then show ?thesis
  proof cases
    case 1
    then show ?thesis by (simp add: regex_of_char_def item_of_char_def)
  next
    case 2
    then show ?thesis using assms by (auto simp: regex_of_char_def item_of_char_def)
  next
    case 3
    then show ?thesis by (simp add: regex_of_char_def item_of_char_def re_escape_def)
  next
    case 4
    then have "c \<noteq> backslash" "c \<noteq> CHR ''.''" by (auto simp: re_special_def)
    with 4 show ?thesis by (simp add: regex_of_char_def item_of_char_def re_escape_def)
  qed
qed

lemma re_compile_pattern: "re_compile (to_regex_pattern p) = Some (map item_of_char p)"
  unfolding to_regex_pattern_eq
proof (induction p)
  case Nil
  then show ?case by simp
next
  case (Cons c p)
  then show ?case using re_compile_char [OF impI [OF regex_head], of p c]
    by (simp del: re_compile.simps)
qed
section \<open>From the expression to the specification\<close>

lemma glob_Nil: "glob [] t \<longleftrightarrow> t = []"
  by (simp add: glob_def)

lemma glob_Cons: "glob (c # p) t \<longleftrightarrow> (\<exists>seg t'. t = seg @ t' \<and> segment_ok c seg \<and> glob p t')"
proof
  assume "glob (c # p) t"
  then obtain seg segs where "t = seg @ concat segs" "segment_ok c seg" "list_all2 segment_ok p segs"
    by (auto simp: glob_def list_all2_Cons1)
  then show "\<exists>seg t'. t = seg @ t' \<and> segment_ok c seg \<and> glob p t'"
    unfolding glob_def by blast
next
  assume "\<exists>seg t'. t = seg @ t' \<and> segment_ok c seg \<and> glob p t'"
  then obtain seg t' segs where "t = seg @ t'" "segment_ok c seg"
      "list_all2 segment_ok p segs" "t' = concat segs"
    by (auto simp: glob_def)
  then have "list_all2 segment_ok (c # p) (seg # segs)" "t = concat (seg # segs)" by simp_all
  then show "glob (c # p) t" unfolding glob_def by blast
qed

lemma glob_char:
  "c \<noteq> CHR ''*'' \<Longrightarrow> c \<noteq> CHR ''?'' \<Longrightarrow> glob (c # p) t \<longleftrightarrow> (\<exists>t'. t = c # t' \<and> glob p t')"
  by (auto simp: glob_Cons segment_ok_def)

lemma glob_question: "glob (CHR ''?'' # p) t \<longleftrightarrow> (\<exists>x t'. t = x # t' \<and> x \<noteq> newline \<and> glob p t')"
  unfolding glob_Cons segment_ok_def
  by (simp, metis append_Cons append_Nil)

lemma glob_star:
  "glob (CHR ''*'' # p) t \<longleftrightarrow>
     glob p t \<or> (\<exists>x t'. t = x # t' \<and> x \<noteq> newline \<and> glob (CHR ''*'' # p) t')"
proof
  assume "glob (CHR ''*'' # p) t"
  then obtain seg t' where seg: "t = seg @ t'" "newline \<notin> set seg" "glob p t'"
    by (auto simp: glob_Cons segment_ok_def)
  show "glob p t \<or> (\<exists>x t'. t = x # t' \<and> x \<noteq> newline \<and> glob (CHR ''*'' # p) t')"
  proof (cases seg)
    case Nil
    with seg show ?thesis by simp
  next
    case (Cons x xs)
    with seg have "glob (CHR ''*'' # p) (xs @ t')" by (auto simp: glob_Cons segment_ok_def)
    with seg Cons show ?thesis by auto
  qed
next
  assume "glob p t \<or> (\<exists>x t'. t = x # t' \<and> x \<noteq> newline \<and> glob (CHR ''*'' # p) t')"
  then show "glob (CHR ''*'' # p) t"
  proof
    assume "glob p t"
    then have "t = [] @ t \<and> segment_ok (CHR ''*'') [] \<and> glob p t" by (simp add: segment_ok_def)
    then show ?thesis unfolding glob_Cons by blast
  next
    assume "\<exists>x t'. t = x # t' \<and> x \<noteq> newline \<and> glob (CHR ''*'' # p) t'"
    then obtain x seg t'' where "t = (x # seg) @ t''" "newline \<notin> set (x # seg)" "glob p t''"
      by (auto simp: glob_Cons [of _ p] segment_ok_def)
    then have "t = (x # seg) @ t'' \<and> segment_ok (CHR ''*'') (x # seg) \<and> glob p t''"
      by (simp add: segment_ok_def)
    then show ?thesis unfolding glob_Cons [of _ p t] by blast
  qed
qed

lemma re_fullmatch_star:
  assumes "\<And>s. re_fullmatch r s \<longleftrightarrow> glob p s"
  shows "re_fullmatch (RStar # r) s \<longleftrightarrow> glob (CHR ''*'' # p) s"
proof (induction s)
  case Nil
  show ?case using glob_star [of p "[]"] by (simp add: assms)
next
  case (Cons x xs)
  then show ?case using glob_star [of p "x # xs"] by (simp add: assms)
qed

lemma re_fullmatch_glob: "re_fullmatch (map item_of_char p) s \<longleftrightarrow> glob p s"
proof (induction p arbitrary: s)
  case Nil
  then show ?case by (simp add: glob_Nil)
next
  case (Cons c p)
  consider "c = CHR ''*''" | "c = CHR ''?''" | "c \<noteq> CHR ''*''" "c \<noteq> CHR ''?''" by blast
  then show ?case
  proof cases
    case 1
    then have "item_of_char c = RStar" by (simp add: item_of_char_def)
    with 1 show ?thesis using re_fullmatch_star [OF Cons.IH] by simp
  next
    case 2
    then have "item_of_char c = RAny" by (simp add: item_of_char_def)
    with 2 show ?thesis by (cases s) (simp_all add: glob_question Cons.IH)
  next
    case 3
    then have "item_of_char c = RChar c" by (simp add: item_of_char_def)
    with 3 show ?thesis by (cases s) (auto simp: glob_char Cons.IH)
  qed
qed

text \<open>A pattern without wildcards stands for itself only.\<close>

lemma glob_literal:
  "\<not> list_ex (\<lambda>c. c = CHR ''*'' \<or> c = CHR ''?'') p \<Longrightarrow> glob p t \<longleftrightarrow> p = t"
  by (induction p arbitrary: t) (auto simp: glob_Nil glob_char)

section \<open>Attributes of a rule\<close>

lemma wild_card_match_str:
  "wild_card_match (Some (AStr t)) (Some p) = Inr (p = ''*'' \<or> glob p t)"
proof (cases "p = ''*''")
  case True
  then show ?thesis by (simp add: wild_card_match_def)
next
  case False
  show ?thesis
  proof (cases "list_ex (\<lambda>c. c = CHR ''*'' \<or> c = CHR ''?'') p")
    case True
    then have "p \<noteq> []" by auto
    with True False show ?thesis
      by (simp add: wild_card_match_def py_fullmatch_def re_compile_pattern re_fullmatch_glob)
  next
    case wild: False
    then show ?thesis
      using False glob_literal [OF wild, of t]
      by (cases "p = []") (auto simp: wild_card_match_def py_len_def)
  qed
qed

text \<open>
  A value of any type: the star matches it, a string is matched by \<open>glob\<close>, the empty sequence by
  the empty pattern. A pattern with a wildcard raises \<open>TypeError\<close> on a value that is no string,
  and so does the empty pattern on a value without a length.
\<close>

definition has_wildcard :: "string \<Rightarrow> bool" where
  "has_wildcard p = list_ex (\<lambda>c. c = CHR ''*'' \<or> c = CHR ''?'') p"

definition pattern_matches :: "string \<Rightarrow> aval \<Rightarrow> bool" where
  "pattern_matches p v \<longleftrightarrow>
     p = ''*'' \<or> (case v of AStr s \<Rightarrow> glob p s | ASeq vs \<Rightarrow> p = [] \<and> vs = [] | _ \<Rightarrow> False)"

definition pattern_raises :: "string \<Rightarrow> aval \<Rightarrow> bool" where
  "pattern_raises p v \<longleftrightarrow>
     p \<noteq> ''*'' \<and> (case v of AStr s \<Rightarrow> False | ASeq vs \<Rightarrow> has_wildcard p
       | _ \<Rightarrow> p = [] \<or> has_wildcard p)"

lemma wild_card_match_cases:
  "wild_card_match (Some v) (Some p) =
     (if pattern_raises p v then Inl TypeError else Inr (pattern_matches p v))"
proof (cases "\<exists>s. v = AStr s")
  case True
  then show ?thesis
    by (auto simp: wild_card_match_str pattern_raises_def pattern_matches_def)
next
  case False
  show ?thesis
  proof (cases "has_wildcard p")
    case True
    then have "p \<noteq> []" by (auto simp: has_wildcard_def)
    with True False show ?thesis
      by (cases v) (auto simp: wild_card_match_def py_fullmatch_def re_compile_pattern
        pattern_raises_def pattern_matches_def has_wildcard_def)
  next
    case no: False
    then have "p \<noteq> ''*''" by (auto simp: has_wildcard_def)
    with no False show ?thesis
      by (cases v) (auto simp: wild_card_match_def py_len_def
        pattern_raises_def pattern_matches_def has_wildcard_def)
  qed
qed

text \<open>The loop raises when one of its comparisons does, and counts the matches otherwise.\<close>

definition named_raises :: "(string \<times> string) list \<Rightarrow> attrs \<Rightarrow> bool" where
  "named_raises ras as \<longleftrightarrow>
     (\<exists>(k, v) \<in> set as. \<exists>p. map_of ras k = Some p \<and> pattern_raises p v)"

definition named_match :: "(string \<times> string) list \<Rightarrow> string \<times> aval \<Rightarrow> bool" where
  "named_match ras kv =
     (case map_of ras (fst kv) of None \<Rightarrow> False | Some p \<Rightarrow> pattern_matches p (snd kv))"

lemma named_raises_simps [simp]:
  "\<not> named_raises ras []"
  "named_raises ras ((k, v) # as) \<longleftrightarrow>
     (case map_of ras k of None \<Rightarrow> False | Some p \<Rightarrow> pattern_raises p v) \<or> named_raises ras as"
  by (auto simp: named_raises_def split: option.splits)

lemma count_matches_eq:
  "count_matches ras n as =
     (if named_raises ras as then Inl TypeError
      else Inr (n + length (filter (named_match ras) as)))"
  by (induction as arbitrary: n)
    (auto simp: named_match_def wild_card_match_cases split: option.splits)

text \<open>With distinct keys, as many matches as rule attributes means that each of them matched.\<close>

lemma matches_all_iff:
  assumes ras: "distinct (map fst ras)" and as: "distinct (map fst as)"
  shows "length (filter (named_match ras) as) = length ras \<longleftrightarrow>
    (\<forall>(k, p) \<in> set ras. \<exists>v. map_of as k = Some v \<and> pattern_matches p v)"
proof -
  let ?hits = "filter (named_match ras) as"
  have hits: "distinct (map fst ?hits)" using as by (rule distinct_map_filter)
  have sub: "fst ` set ?hits \<subseteq> fst ` set ras"
    by (auto simp: named_match_def dest!: map_of_SomeD split: option.splits)
      (metis fst_conv image_eqI map_of_SomeD)
  have card: "length ?hits = card (fst ` set ?hits)" "length ras = card (fst ` set ras)"
    using hits ras by (metis distinct_card length_map list.set_map)+
  have "length ?hits = length ras \<longleftrightarrow> fst ` set ras \<subseteq> fst ` set ?hits"
    unfolding card using sub by (metis card_subset_eq finite_imageI finite_set order_refl subset_antisym)
  also have "\<dots> \<longleftrightarrow> (\<forall>(k, p) \<in> set ras. \<exists>v. map_of as k = Some v \<and> pattern_matches p v)"
  proof
    assume L: "fst ` set ras \<subseteq> fst ` set ?hits"
    show "\<forall>(k, p) \<in> set ras. \<exists>v. map_of as k = Some v \<and> pattern_matches p v"
    proof clarify
      fix k p assume kp: "(k, p) \<in> set ras"
      then have "k \<in> fst ` set ?hits" using L by force
      then obtain v where v: "(k, v) \<in> set as" "named_match ras (k, v)" by auto
      moreover have "map_of ras k = Some p" using ras kp by simp
      moreover have "map_of as k = Some v" using as v(1) by simp
      ultimately show "\<exists>v. map_of as k = Some v \<and> pattern_matches p v"
        by (simp add: named_match_def)
    qed
  next
    assume R: "\<forall>(k, p) \<in> set ras. \<exists>v. map_of as k = Some v \<and> pattern_matches p v"
    show "fst ` set ras \<subseteq> fst ` set ?hits"
    proof
      fix k assume "k \<in> fst ` set ras"
      then obtain p where kp: "(k, p) \<in> set ras" by auto
      with R obtain v where v: "map_of as k = Some v" "pattern_matches p v" by blast
      have "map_of ras k = Some p" using ras kp by simp
      with v have "(k, v) \<in> set ?hits" by (auto simp: named_match_def dest: map_of_SomeD)
      then show "k \<in> fst ` set ?hits" by force
    qed
  qed
  finally show ?thesis .
qed

lemma attribute_match_Inr_True:
  assumes ras: "distinct (map fst ras)" and as: "distinct (map fst as)"
  shows "attribute_match (Some as) (Some ras) = Inr True \<longleftrightarrow>
    (\<forall>(k, p) \<in> set ras. \<exists>v. map_of as k = Some v \<and> pattern_matches p v)"
  (is "_ \<longleftrightarrow> ?all")
proof -
  have raise: "\<not> named_raises ras as" if ?all
  proof
    assume "named_raises ras as"
    then obtain k v p where kv: "(k, v) \<in> set as" "map_of ras k = Some p" "pattern_raises p v"
      by (auto simp: named_raises_def)
    have "map_of as k = Some v" using as kv(1) by simp
    moreover have "(k, p) \<in> set ras" using kv(2) by (rule map_of_SomeD)
    ultimately have "pattern_matches p v" using that by auto
    with kv(3) show False
      by (auto simp: pattern_raises_def pattern_matches_def has_wildcard_def split: aval.splits)
  qed
  have len: "length ras \<le> length as" if ?all
  proof -
    have "length (filter (named_match ras) as) = length ras"
      using that matches_all_iff [OF ras as] by blast
    then show ?thesis using length_filter_le [of "named_match ras" as] by simp
  qed
  show ?thesis
    using raise len matches_all_iff [OF ras as]
    by (cases ras) (auto simp: attribute_match_def count_matches_eq)
qed

section \<open>Properties\<close>

text \<open>C5: a wildcard pattern of a sampling rule matches exactly the texts it describes: the texts
  that fall into one segment per pattern character, a star standing for any text without a
  newline, a question mark for one such character and any other character, regular expression
  metacharacters included, for itself. The one exception the code makes is the pattern that is a
  star alone, which matches every text, newlines included. A missing text matches only that
  pattern.\<close>

theorem wild_card_match_is_glob:
  "wild_card_match (Some (AStr t)) (Some p) = Inr (p = ''*'' \<or> glob p t)
   \<and> wild_card_match None (Some p) = Inr (p = ''*'')"
  by (simp add: wild_card_match_str) (simp add: wild_card_match_def)

text \<open>C25: the attributes of a rule match a span exactly when each attribute the rule names is
  present on the span with a value its pattern matches; the count of the loop is that
  conjunction. The function raises (always a \<open>TypeError\<close>) exactly when it gets to the loop and a
  named attribute has a value that is no string while its pattern has a wildcard, or has no
  length while its pattern is empty.\<close>

theorem attribute_match_spec:
  assumes "distinct (map fst ras)" and "distinct (map fst as)"
  shows "(attribute_match (Some as) (Some ras) = Inr True \<longleftrightarrow>
      (\<forall>(k, p) \<in> set ras. \<exists>v. map_of as k = Some v \<and> pattern_matches p v))
    \<and> (attribute_match (Some as) (Some ras) = Inl e \<longleftrightarrow>
      e = TypeError \<and> ras \<noteq> [] \<and> length ras \<le> length as
      \<and> (\<exists>(k, v) \<in> set as. \<exists>p. map_of ras k = Some p \<and> pattern_raises p v))"
proof (rule conjI)
  show "attribute_match (Some as) (Some ras) = Inr True \<longleftrightarrow>
      (\<forall>(k, p) \<in> set ras. \<exists>v. map_of as k = Some v \<and> pattern_matches p v)"
    using assms by (rule attribute_match_Inr_True)
  show "attribute_match (Some as) (Some ras) = Inl e \<longleftrightarrow>
      e = TypeError \<and> ras \<noteq> [] \<and> length ras \<le> length as
      \<and> (\<exists>(k, v) \<in> set as. \<exists>p. map_of ras k = Some p \<and> pattern_raises p v)"
    unfolding named_raises_def [symmetric]
    by (cases as) (auto simp: attribute_match_def count_matches_eq)
qed

theorem attribute_match_spec_witness:
  "attribute_match (Some [(''a'', AStr ''xyz''), (''b'', AInt 200)]) (Some [(''a'', ''x*'')]) = Inr True"
proof -
  have "glob ''x*'' ''xyz''"
    by (simp add: re_fullmatch_glob [symmetric] item_of_char_def)
  then show ?thesis
    by (subst attribute_match_spec [THEN conjunct1]) (simp_all add: pattern_matches_def)
qed

end
