(* ===== verification/PyUrl.thy ===== *)
theory PyUrl
  imports Prelude
begin

text \<open>
  The part of Python's \<open>urllib.parse\<close> that the distribution uses: \<open>urlparse\<close> and the
  \<open>hostname\<close> and \<open>port\<close> of its result, as in Python 3.11 with the validation of bracketed hosts
  by \<open>ipaddress\<close>. On the characters of the model the NFKC check of the library never raises, so
  it does not appear here.
\<close>

section \<open>Partitioning a text\<close>

definition py_partition :: "char \<Rightarrow> string \<Rightarrow> string \<times> bool \<times> string" where
  "py_partition c s =
     (takeWhile (\<lambda>x. x \<noteq> c) s, c \<in> set s, tl (dropWhile (\<lambda>x. x \<noteq> c) s))"

definition py_rpartition :: "char \<Rightarrow> string \<Rightarrow> string \<times> bool \<times> string" where
  "py_rpartition c s =
     (if c \<in> set s
      then (rev (tl (dropWhile (\<lambda>x. x \<noteq> c) (rev s))), True, rev (takeWhile (\<lambda>x. x \<noteq> c) (rev s)))
      else ([], False, s))"

lemma partition_absent [simp]: "c \<notin> set s \<Longrightarrow> py_partition c s = (s, False, [])"
proof -
  assume c: "c \<notin> set s"
  then have "takeWhile (\<lambda>x. x \<noteq> c) s = s" by (induction s) auto
  moreover have "dropWhile (\<lambda>x. x \<noteq> c) s = []" using c by (induction s) auto
  ultimately show ?thesis using c by (simp only: py_partition_def) simp
qed

lemma partition_present [simp]: "c \<notin> set s \<Longrightarrow> py_partition c (s @ c # t) = (s, True, t)"
proof -
  assume c: "c \<notin> set s"
  then have "takeWhile (\<lambda>x. x \<noteq> c) (s @ c # t) = s" by (induction s) auto
  moreover have "dropWhile (\<lambda>x. x \<noteq> c) (s @ c # t) = c # t" using c by (induction s) auto
  ultimately show ?thesis by (simp add: py_partition_def)
qed

lemma rpartition_absent [simp]: "c \<notin> set s \<Longrightarrow> py_rpartition c s = ([], False, s)"
  by (simp add: py_rpartition_def)

section \<open>Bracketed hosts\<close>

definition is_hex :: "char \<Rightarrow> bool" where
  "is_hex c \<longleftrightarrow> is_dec c \<or> 97 \<le> ord c \<and> ord c \<le> 102 \<or> 65 \<le> ord c \<and> ord c \<le> 70"

definition ipv4_octet :: "string \<Rightarrow> bool" where
  "ipv4_octet s \<longleftrightarrow>
     s \<noteq> [] \<and> list_all is_dec s \<and> length s \<le> 3 \<and> (s = ''0'' \<or> hd s \<noteq> CHR ''0'')
     \<and> foldl (\<lambda>a c. 10 * a + (ord c - 48)) 0 s \<le> 255"

definition ipv4_ok :: "string \<Rightarrow> bool" where
  "ipv4_ok s \<longleftrightarrow> (let octets = py_split (CHR ''.'') s in length octets = 4 \<and> list_all ipv4_octet octets)"

definition hextet :: "string \<Rightarrow> bool" where
  "hextet s \<longleftrightarrow> s \<noteq> [] \<and> list_all is_hex s \<and> length s \<le> 4"

text \<open>The groups of an IPv6 address, after a trailing IPv4 address became two of them.\<close>

definition ipv6_groups :: "string list \<Rightarrow> bool" where
  "ipv6_groups parts \<longleftrightarrow>
     (let inner = butlast (tl parts);
          skips = length (filter (\<lambda>p. p = []) inner);
          hi = length (takeWhile (\<lambda>p. p \<noteq> []) inner) + 1;
          lo = length parts - hi - 1;
          hi' = (if hd parts = [] then hi - 1 else hi);
          lo' = (if last parts = [] then lo - 1 else lo)
      in length parts \<le> 9 \<and> skips \<le> 1
         \<and> (if skips = 1
            then (hd parts = [] \<longrightarrow> hi' = 0) \<and> (last parts = [] \<longrightarrow> lo' = 0) \<and> hi' + lo' < 8
              \<and> list_all hextet (take hi' parts)
              \<and> list_all hextet (drop (length parts - lo') parts)
            else length parts = 8 \<and> list_all hextet parts))"

definition ipv6_ok :: "string \<Rightarrow> bool" where
  "ipv6_ok s \<longleftrightarrow>
     (let (addr, sep, scope) = py_partition (CHR ''%'') s;
          parts = py_split (CHR '':'') addr
      in (sep \<longrightarrow> scope \<noteq> [] \<and> CHR ''%'' \<notin> set scope)
         \<and> addr \<noteq> [] \<and> 3 \<le> length parts
         \<and> (if CHR ''.'' \<in> set (last parts)
            then ipv4_ok (last parts) \<and> ipv6_groups (butlast parts @ [''0'', ''0''])
            else ipv6_groups parts))"

definition bracketed_host_ok :: "string \<Rightarrow> bool" where
  "bracketed_host_ok h \<longleftrightarrow>
     (if h \<noteq> [] \<and> hd h = CHR ''v''
      then let (v, dot, rest) = py_partition (CHR ''.'') (tl h)
           in dot \<and> v \<noteq> [] \<and> list_all is_hex v \<and> rest \<noteq> []
      else ipv6_ok h)"

section \<open>Parsing a URL\<close>

record parse_result =
  scheme :: string
  netloc :: string
  path :: string
  params :: string
  query :: string
  fragment :: string

definition scheme_char :: "char \<Rightarrow> bool" where
  "scheme_char c \<longleftrightarrow>
     is_dec c \<or> 65 \<le> ord c \<and> ord c \<le> 90 \<or> 97 \<le> ord c \<and> ord c \<le> 122 \<or> c \<in> set ''+-.''"

definition ascii_letter :: "char \<Rightarrow> bool" where
  "ascii_letter c \<longleftrightarrow> 65 \<le> ord c \<and> ord c \<le> 90 \<or> 97 \<le> ord c \<and> ord c \<le> 122"

definition uses_params :: "string list" where
  "uses_params =
     ['''', ''ftp'', ''hdl'', ''prospero'', ''http'', ''imap'', ''https'', ''shttp'', ''rtsp'',
      ''rtsps'', ''rtspu'', ''sip'', ''sips'', ''mms'', ''sftp'', ''tel'']"

text \<open>Leading blanks and control characters are dropped, tabs and line breaks removed.\<close>

definition url_clean :: "string \<Rightarrow> string" where
  "url_clean url = filter (\<lambda>c. ord c \<noteq> 9 \<and> ord c \<noteq> 10 \<and> ord c \<noteq> 13) (dropWhile (\<lambda>c. ord c \<le> 32) url)"

definition split_scheme :: "string \<Rightarrow> string \<times> string" where
  "split_scheme url =
     (let (s, colon, rest) = py_partition (CHR '':'') url
      in if colon \<and> s \<noteq> [] \<and> ascii_letter (hd s) \<and> list_all scheme_char s
         then (py_lower s, rest) else ([], url))"

definition netloc_char :: "char \<Rightarrow> bool" where
  "netloc_char c \<longleftrightarrow> c \<noteq> CHR ''/'' \<and> c \<noteq> CHR ''?'' \<and> c \<noteq> CHR ''#''"

definition split_netloc :: "string \<Rightarrow> (string \<times> string) res" where
  "split_netloc url =
     (if prefix ''//'' url
      then let n = takeWhile netloc_char (drop 2 url); rest = dropWhile netloc_char (drop 2 url)
           in if (CHR ''['' \<in> set n) \<noteq> (CHR '']'' \<in> set n) then Inl ValueError
              else if CHR ''['' \<in> set n
                \<and> \<not> bracketed_host_ok (fst (py_partition (CHR '']'') (snd (snd (py_partition (CHR ''['') n)))))
              then Inl ValueError
              else Inr (n, rest)
      else Inr ([], url))"

definition split_params :: "string \<Rightarrow> string \<times> string" where
  "split_params url =
     (let (before, slash, last_segment) = py_rpartition (CHR ''/'') url;
          (seg, semi, ps) = py_partition (CHR '';'') last_segment
      in if semi then ((if slash then before @ ''/'' else []) @ seg, ps) else (url, []))"

definition urlparse :: "string \<Rightarrow> parse_result res" where
  "urlparse url0 =
     (let (s, url1) = split_scheme (url_clean url0)
      in bindr (split_netloc url1) (\<lambda>(n, url2).
           let (url3, _, f) = py_partition (CHR ''#'') url2;
               (url4, _, q) = py_partition (CHR ''?'') url3;
               (p, ps) = (if s \<in> set uses_params \<and> CHR '';'' \<in> set url4
                 then split_params url4 else (url4, []))
           in Inr \<lparr>scheme = s, netloc = n, path = p, params = ps, query = q, fragment = f\<rparr>))"

section \<open>Host name and port\<close>

definition host_info :: "string \<Rightarrow> string \<times> string option" where
  "host_info n =
     (let (_, _, hostinfo) = py_rpartition (CHR ''@'') n;
          (_, bracket, bracketed) = py_partition (CHR ''['') hostinfo;
          (h, p) = (if bracket
            then let (h, _, rest) = py_partition (CHR '']'') bracketed
                 in (h, snd (snd (py_partition (CHR '':'') rest)))
            else let (h, _, p) = py_partition (CHR '':'') hostinfo in (h, p))
      in (h, if p = [] then None else Some p))"

definition url_hostname :: "parse_result \<Rightarrow> string option" where
  "url_hostname r =
     (let h = fst (host_info (netloc r))
      in if h = [] then None
         else let (host, percent, zone) = py_partition (CHR ''%'') h
              in Some (py_lower host @ (if percent then ''%'' else []) @ zone))"

definition url_port :: "parse_result \<Rightarrow> int option res" where
  "url_port r =
     (case snd (host_info (netloc r)) of
        None \<Rightarrow> Inr None
      | Some p \<Rightarrow>
          if list_all is_dec p
          then let v = foldl (\<lambda>a c. 10 * a + (int (ord c) - 48)) 0 p
               in if v \<le> 65535 then Inr (Some v) else Inl ValueError
          else Inl ValueError)"

section \<open>Lemmas\<close>

text \<open>The only exception of a parse is \<open>ValueError\<close>.\<close>

lemma split_netloc_Inl: "split_netloc u = Inl e \<Longrightarrow> e = ValueError"
  by (auto simp: split_netloc_def Let_def split: if_splits)

lemma urlparse_Inl: "urlparse u = Inl e \<Longrightarrow> e = ValueError"
  unfolding urlparse_def split_beta Let_def bindr_eq_Inl
  using split_netloc_Inl by auto

lemma url_port_Inl: "url_port r = Inl e \<Longrightarrow> e = ValueError"
  by (auto simp: url_port_def Let_def split: option.splits if_splits)

lemma url_port_bounds: "url_port r = Inr (Some v) \<Longrightarrow> v \<le> 65535"
  by (auto simp: url_port_def Let_def split: option.splits if_splits)

text \<open>A colon that follows a letter and scheme characters ends the scheme.\<close>

lemma split_scheme_text:
  assumes "s \<noteq> []" and "ascii_letter (hd s)" and "list_all scheme_char s"
  shows "split_scheme (s @ CHR '':'' # rest) = (py_lower s, rest)"
proof -
  have "CHR '':'' \<notin> set s"
    using assms(3) by (auto simp: list_all_iff scheme_char_def is_dec_def)
  then show ?thesis using assms by (simp add: split_scheme_def)
qed

end
