(* ===== verification/RuleApplier.thy ===== *)
theory RuleApplier
  imports SamplingRules Matcher PyUrl
begin

text \<open>
  \<open>sampler/_sampling_rule_applier.py\<close>: one sampling rule with its reservoir, its fixed rate and
  its statistics.

  \<open>TraceIdRatioBased\<close> is a class of the OpenTelemetry SDK, outside the repository: \<open>sdk\<close> is what
  its constructor does with a rate (an exception or nothing) and what its \<open>should_sample\<close> answers.
\<close>

section \<open>State\<close>

record 'a sdk =
  ratio_error :: "rat \<Rightarrow> exn option"
  ratio_sample :: "'a ratio_sampler"

definition new_ratio :: "'a sdk \<Rightarrow> rat \<Rightarrow> rat res" where
  "new_ratio lib rate = (case ratio_error lib rate of Some e \<Rightarrow> Inl e | None \<Rightarrow> Inr rate)"

record rule_applier =
  applier_client_id :: string
  rule :: sampling_rule
  stats :: statistics
  borrowing :: bool
  fixed_rate :: rat
  reservoir :: rate_limiter
  reservoir_expiry :: int

definition create_reservoir_sampler :: "int \<Rightarrow> instant \<Rightarrow> rate_limiter" where
  "create_reservoir_sampler q now = new_rate_limiting_sampler q now"

text \<open>
  The constructor. \<open>t1\<close> is the reading the reservoir is created at and \<open>t2\<close> the one that becomes
  the expiry when the target has no time to live.
\<close>

definition new_rule_applier ::
    "'a sdk \<Rightarrow> sampling_rule \<Rightarrow> string \<Rightarrow> instant \<Rightarrow> instant \<Rightarrow> statistics option
      \<Rightarrow> sampling_target option \<Rightarrow> rule_applier res" where
  "new_rule_applier lib r client_id t1 t2 st target =
     (let st' = (case st of None \<Rightarrow> new_statistics client_id (RuleName r) | Some s \<Rightarrow> s)
      in case target of
           None \<Rightarrow>
             bindr (new_ratio lib (FixedRate r)) (\<lambda>rate.
               Inr \<lparr>applier_client_id = client_id, rule = r, stats = st',
                    borrowing = (ReservoirSize r > 0), fixed_rate = rate,
                    reservoir = create_reservoir_sampler (if ReservoirSize r > 0 then 1 else 0) t1,
                    reservoir_expiry = clock_max\<rparr>)
         | Some tg \<Rightarrow>
             (let new_quota = or_default (target_ReservoirQuota tg) 0;
                  new_fixed_rate = target_FixedRate tg
              in bindr (new_ratio lib new_fixed_rate) (\<lambda>rate.
                   bindr (case target_ReservoirQuotaTTL tg of
                            Some ttl \<Rightarrow> from_timestamp ttl
                          | None \<Rightarrow> Inr (datetime_us t2)) (\<lambda>expiry.
                     Inr \<lparr>applier_client_id = client_id, rule = r, stats = st',
                          borrowing = False, fixed_rate = rate,
                          reservoir = create_reservoir_sampler new_quota t1,
                          reservoir_expiry = expiry\<rparr>))))"

section \<open>Operations\<close>

text \<open>\<open>t1\<close> is compared with the expiry; \<open>t2\<close> is read by the reservoir, when it is asked.\<close>

definition applier_should_sample ::
    "'a sdk \<Rightarrow> instant \<Rightarrow> instant \<Rightarrow> 'a request \<Rightarrow> rule_applier
      \<Rightarrow> 'a sampling_result \<times> rule_applier" where
  "applier_should_sample lib t1 t2 req ap =
     (let dropped = \<lparr>decision = DROP, res_attributes = req_attributes req,
                     res_trace_state = req_trace_state req\<rparr>;
          reservoir_expired = (datetime_us t1 \<ge> reservoir_expiry ap);
          (first, res') =
            (if \<not> reservoir_expired then rate_limiting_should_sample t2 req (reservoir ap)
             else (dropped, reservoir ap));
          (result, has_borrowed, has_sampled) =
            (if decision first \<noteq> DROP then (first, borrowing ap, True)
             else let second = ratio_sample lib (fixed_rate ap) req
                  in (second, False, decision second \<noteq> DROP));
          st = stats ap;
          st' = st\<lparr>RequestCount := RequestCount st + 1,
                   BorrowCount := BorrowCount st + (if has_borrowed then 1 else 0),
                   SampleCount := SampleCount st + (if has_sampled then 1 else 0)\<rparr>
      in (result, ap\<lparr>stats := st', reservoir := res'\<rparr>))"

definition get_then_reset_statistics ::
    "instant \<Rightarrow> rule_applier \<Rightarrow> statistics_document \<times> rule_applier" where
  "get_then_reset_statistics now ap =
     (snapshot now (stats ap),
      ap\<lparr>stats := new_statistics (applier_client_id ap) (RuleName (rule ap))\<rparr>)"

definition with_target ::
    "'a sdk \<Rightarrow> instant \<Rightarrow> instant \<Rightarrow> sampling_target \<Rightarrow> rule_applier \<Rightarrow> rule_applier res" where
  "with_target lib t1 t2 target ap =
     new_rule_applier lib (rule ap) (applier_client_id ap) t1 t2 (Some (stats ap)) (Some target)"

section \<open>Matching a span\<close>

definition get_service_type :: "attrs option \<Rightarrow> string" where
  "get_service_type resource =
     (case resource of
        None \<Rightarrow> []
      | Some r \<Rightarrow>
          (case map_of r ''cloud.platform'' of
             None \<Rightarrow> []
           | Some (AStr platform) \<Rightarrow> or_default (map_of cloud_platform_mapping platform) []
           | Some _ \<Rightarrow> []))"

text \<open>\<open>attributes.get\<close> when the attributes may be \<open>None\<close>, which has no such attribute.\<close>

definition get_lambda_arn :: "attrs \<Rightarrow> attrs option \<Rightarrow> aval res" where
  "get_lambda_arn resource attributes =
     (case get_or resource ''cloud.resource_id'' ''faas.id'' of
        Some arn \<Rightarrow> Inr arn
      | None \<Rightarrow>
          (case attributes of
             None \<Rightarrow> Inl AttributeError
           | Some as \<Rightarrow> Inr (or_default (get_or as ''cloud.resource_id'' ''faas.id'') (AStr []))))"

definition get_arn :: "attrs option \<Rightarrow> attrs option \<Rightarrow> aval res" where
  "get_arn resource attributes =
     (case resource of
        None \<Rightarrow> Inr (AStr [])
      | Some r \<Rightarrow>
          (case map_of r ''aws.ecs.container.arn'' of
             Some arn \<Rightarrow> Inr arn
           | None \<Rightarrow>
               if map_of r ''cloud.platform'' = Some (AStr ''aws_lambda'')
               then get_lambda_arn r attributes
               else Inr (AStr [])))"

text \<open>The path of the request: the attribute, else the path of the URL, else the root.\<close>

definition request_path :: "attrs option \<Rightarrow> aval option res" where
  "request_path attributes =
     (let url_path = Option.bind attributes (\<lambda>as. get_or as ''url.path'' ''http.target'');
          url_full = Option.bind attributes (\<lambda>as. get_or as ''url.full'' ''http.url'')
      in case (url_path, url_full) of
           (Some p, _) \<Rightarrow> Inr (Some p)
         | (None, Some u) \<Rightarrow>
             bindr (as_str u) (\<lambda>url.
               if py_in ''://'' url
               then bindr (urlparse url) (\<lambda>r.
                      Inr (Some (AStr (if path r = [] then ''/'' else path r))))
               else Inr None)
         | (None, None) \<Rightarrow> Inr (Some (AStr ''/'')))"

definition matches :: "attrs option \<Rightarrow> attrs option \<Rightarrow> rule_applier \<Rightarrow> bool res" where
  "matches resource attributes ap =
     (let http_request_method =
            Option.bind attributes (\<lambda>as. get_or as ''http.request.method'' ''http.method'');
          server_address = Option.bind attributes (\<lambda>as. get_or as ''server.address'' ''http.host'');
          service_name =
            map_option (\<lambda>r. or_default (map_of r ''service.name'') (AStr [])) resource;
          sr = rule ap
      in bindr (request_path attributes) (\<lambda>url_path.
           and_res (attribute_match attributes (Some (Attributes sr)))
          (and_res (wild_card_match url_path (Some (URLPath sr)))
          (and_res (wild_card_match http_request_method (Some (HTTPMethod sr)))
          (and_res (wild_card_match server_address (Some (Host sr)))
          (and_res (wild_card_match service_name (Some (ServiceName sr)))
          (and_res (wild_card_match (Some (AStr (get_service_type resource)))
                     (Some (ServiceType sr)))
                   (bindr (get_arn resource attributes) (\<lambda>arn.
                     wild_card_match (Some arn) (Some (ResourceARN sr)))))))))))"

section \<open>Lemmas\<close>

text \<open>The counters of one applier: borrowed requests are sampled, sampled ones are requests.\<close>

definition stats_ok :: "statistics \<Rightarrow> bool" where
  "stats_ok st \<longleftrightarrow>
     0 \<le> BorrowCount st \<and> BorrowCount st \<le> SampleCount st \<and> SampleCount st \<le> RequestCount st"

lemma stats_ok_new [simp]: "stats_ok (new_statistics c n)"
  by (simp add: stats_ok_def new_statistics_def)

lemma applier_should_sample_counts:
  defines "out lib t1 t2 req ap \<equiv> applier_should_sample lib t1 t2 req ap"
  shows "RequestCount (stats (snd (out lib t1 t2 req ap))) = RequestCount (stats ap) + 1"
    and "SampleCount (stats (snd (out lib t1 t2 req ap)))
      = SampleCount (stats ap) + (if decision (fst (out lib t1 t2 req ap)) = DROP then 0 else 1)"
  by (auto simp: out_def applier_should_sample_def Let_def split_beta)

lemma applier_should_sample_frame [simp]:
  "rule (snd (applier_should_sample lib t1 t2 req ap)) = rule ap"
  "applier_client_id (snd (applier_should_sample lib t1 t2 req ap)) = applier_client_id ap"
  "borrowing (snd (applier_should_sample lib t1 t2 req ap)) = borrowing ap"
  "reservoir_expiry (snd (applier_should_sample lib t1 t2 req ap)) = reservoir_expiry ap"
  by (simp_all add: applier_should_sample_def Let_def split_beta)

lemma applier_should_sample_ok:
  "stats_ok (stats ap) \<Longrightarrow> stats_ok (stats (snd (applier_should_sample lib t1 t2 req ap)))"
  by (auto simp: stats_ok_def applier_should_sample_def Let_def split_beta)

lemma with_target_frame:
  "with_target lib t1 t2 tg ap = Inr ap' \<Longrightarrow>
     stats ap' = stats ap \<and> rule ap' = rule ap \<and> applier_client_id ap' = applier_client_id ap
     \<and> \<not> borrowing ap'"
  by (auto simp: with_target_def new_rule_applier_def bindr_eq_Inr)

lemma new_rule_applier_frame:
  "new_rule_applier lib r c t1 t2 None tg = Inr ap \<Longrightarrow>
     stats ap = new_statistics c (RuleName r) \<and> rule ap = r \<and> applier_client_id ap = c"
  by (auto simp: new_rule_applier_def bindr_eq_Inr Let_def split: option.splits)

section \<open>Properties\<close>

text \<open>What one sampling decision of a rule does. Before the reservoir expires, a request that
  the reservoir grants is recorded and sampled without asking the fixed rate sampler, and counts
  as borrowed exactly while no target has arrived; every other request gets the fixed rate
  sampler's answer. The request counter rises by one, the sample counter exactly when the answer
  is not DROP, and the order borrowed, sampled, requested of the counters is kept.\<close>

theorem applier_decision:
  assumes "stats_ok (stats ap)"
    and "(res, ap') = applier_should_sample lib t1 t2 req ap"
    and "from_reservoir = (datetime_us t1 < reservoir_expiry ap \<and> fst (try_spend 1 t2 (reservoir ap)))"
  shows "res = (if from_reservoir
           then \<lparr>decision = RECORD_AND_SAMPLE, res_attributes = req_attributes req,
                 res_trace_state = req_trace_state req\<rparr>
           else ratio_sample lib (fixed_rate ap) req)
    \<and> RequestCount (stats ap') = RequestCount (stats ap) + 1
    \<and> SampleCount (stats ap') = SampleCount (stats ap) + (if decision res = DROP then 0 else 1)
    \<and> BorrowCount (stats ap')
        = BorrowCount (stats ap) + (if from_reservoir \<and> borrowing ap then 1 else 0)
    \<and> stats_ok (stats ap')"
proof -
  have out: "applier_should_sample lib t1 t2 req ap = (res, ap')" using assms(2) by simp
  have "stats_ok (stats ap')"
    using applier_should_sample_ok [OF assms(1), of lib t1 t2 req] by (simp add: out)
  moreover have "RequestCount (stats ap') = RequestCount (stats ap) + 1"
      "SampleCount (stats ap') = SampleCount (stats ap) + (if decision res = DROP then 0 else 1)"
    using applier_should_sample_counts [of lib t1 t2 req ap] by (simp_all add: out)
  ultimately show ?thesis
    using out assms(3)
    by (auto simp: applier_should_sample_def rate_limiting_should_sample_def sampling_result_def
      Let_def split_beta split: if_splits)
qed

definition demo_rule :: sampling_rule where
  "demo_rule =
     \<lparr>Attributes = [], FixedRate = 0, HTTPMethod = ''*'', Host = ''*'', Priority = 1,
      ReservoirSize = 1, ResourceARN = ''*'', RuleARN = ''arn'', RuleName = ''r'',
      ServiceName = ''*'', ServiceType = ''*'', URLPath = ''*'', Version = 1\<rparr>"

theorem applier_decision_witness:
  "\<exists>(res :: aval sampling_result) (ap' :: rule_applier).
     RequestCount (stats ap') = 1 \<and> decision res = RECORD_AND_SAMPLE \<and> BorrowCount (stats ap') = 1"
proof -
  define ap where "ap =
    \<lparr>applier_client_id = ''c'', rule = demo_rule, stats = new_statistics ''c'' ''r'',
     borrowing = True, fixed_rate = 0,
     reservoir = new_rate_limiter 1 1 \<lparr>datetime_us = 0, millis = 0\<rparr>, reservoir_expiry = clock_max\<rparr>"
  define t where "t = \<lparr>datetime_us = 0, millis = 3000\<rparr>"
  define req :: "aval request" where
    "req = \<lparr>trace_id = 7, req_attributes = None, req_trace_state = None\<rparr>"
  define lib :: "aval sdk" where
    "lib = \<lparr>ratio_error = (\<lambda>r. None), ratio_sample = (\<lambda>r. sampling_result DROP)\<rparr>"
  obtain res ap' where out: "(res, ap') = applier_should_sample lib t t req ap"
    by (metis surj_pair)
  have "fst (try_spend 1 t (reservoir ap))"
    unfolding t_def ap_def by code_simp
  then have "True = (datetime_us t < reservoir_expiry ap \<and> fst (try_spend 1 t (reservoir ap)))"
    by (simp add: t_def ap_def clock_max_def)
  from applier_decision [OF _ out this]
  have "RequestCount (stats ap') = 1 \<and> decision res = RECORD_AND_SAMPLE
      \<and> BorrowCount (stats ap') = 1"
    by (simp add: ap_def new_statistics_def stats_ok_def)
  then show ?thesis by blast
qed

text \<open>The default rule (stars for every field, no attributes) matches every span, so the
  fallback sampler behind it is never reached, except where \<open>matches\<close> raises: a span without a
  path whose URL is no string (\<open>AttributeError\<close>) or has a malformed host (\<open>ValueError\<close>), and a span
  without attributes on a Lambda resource that has no id of its own (\<open>AttributeError\<close>).\<close>

theorem default_rule_matches:
  assumes "Attributes (rule ap) = []" and "URLPath (rule ap) = ''*''"
    and "HTTPMethod (rule ap) = ''*''" and "Host (rule ap) = ''*''"
    and "ServiceName (rule ap) = ''*''" and "ServiceType (rule ap) = ''*''"
    and "ResourceARN (rule ap) = ''*''"
  shows "matches resource attributes ap =
    (case request_path attributes of
       Inl e \<Rightarrow> Inl e
     | Inr _ \<Rightarrow> (case get_arn resource attributes of Inl e \<Rightarrow> Inl e | Inr _ \<Rightarrow> Inr True))
   \<and> (\<forall>e. request_path attributes = Inl e \<longrightarrow>
        (\<exists>as u. attributes = Some as \<and> get_or as ''url.path'' ''http.target'' = None
          \<and> get_or as ''url.full'' ''http.url'' = Some u
          \<and> (e = AttributeError \<and> (\<forall>s. u \<noteq> AStr s)
             \<or> e = ValueError \<and> (\<exists>s. u = AStr s \<and> urlparse s = Inl e))))
   \<and> (\<forall>e. get_arn resource attributes = Inl e \<longrightarrow>
        e = AttributeError \<and> attributes = None
        \<and> (\<exists>r. resource = Some r \<and> map_of r ''cloud.platform'' = Some (AStr ''aws_lambda'')))"
proof (intro conjI allI impI)
  have star: "wild_card_match t (Some ''*'') = Inr True" for t
    by (simp add: wild_card_match_def)
  show "matches resource attributes ap =
    (case request_path attributes of
       Inl e \<Rightarrow> Inl e
     | Inr _ \<Rightarrow> (case get_arn resource attributes of Inl e \<Rightarrow> Inl e | Inr _ \<Rightarrow> Inr True))"
    using assms
    by (auto simp: matches_def attribute_match_def star Let_def split: sum.splits)
next
  fix e assume "request_path attributes = Inl e"
  then show "\<exists>as u. attributes = Some as \<and> get_or as ''url.path'' ''http.target'' = None
          \<and> get_or as ''url.full'' ''http.url'' = Some u
          \<and> (e = AttributeError \<and> (\<forall>s. u \<noteq> AStr s)
             \<or> e = ValueError \<and> (\<exists>s. u = AStr s \<and> urlparse s = Inl e))"
    by (cases attributes)
      (auto simp: request_path_def Let_def bindr_eq_Inl as_str_def urlparse_Inl
        split: option.splits aval.splits if_splits dest: urlparse_Inl)
next
  fix e assume "get_arn resource attributes = Inl e"
  then show "e = AttributeError" "attributes = None"
      "\<exists>r. resource = Some r \<and> map_of r ''cloud.platform'' = Some (AStr ''aws_lambda'')"
    by (auto simp: get_arn_def get_lambda_arn_def split: option.splits if_splits)
qed

theorem default_rule_matches_witness:
  "matches (Some []) (Some [(''http.method'', AStr ''GET'')])
     \<lparr>applier_client_id = ''c'', rule = demo_rule, stats = new_statistics ''c'' ''r'',
      borrowing = False, fixed_rate = 0,
      reservoir = new_rate_limiter 1 1 \<lparr>datetime_us = 0, millis = 0\<rparr>, reservoir_expiry = 0\<rparr>
   = Inr True"
  by (subst default_rule_matches [THEN conjunct1])
    (simp_all add: demo_rule_def request_path_def get_or_def get_arn_def)

end
