(* ===== verification/RuleCache.thy ===== *)
theory RuleCache
  imports RuleApplier
begin

text \<open>
  \<open>sampler/_rule_cache.py\<close>: the sampling rules in force, in the order in which they are tried.

  \<open>clk\<close> gives the readings of the clock one operation makes, numbered in the order in which it
  makes them. Rule appliers are values: two entries of the cache share one object only when two
  rules of a response have the same name, which X-Ray does not allow (rule names are unique); the
  theorems that depend on it have the distinct names as a hypothesis. The fallback sampler is the
  object the remote sampler uses as well, and part of this state.
\<close>

section \<open>State\<close>

definition cache_ttl_seconds :: int where
  "cache_ttl_seconds = 3600"

definition default_target_polling_interval_seconds :: int where
  "default_target_polling_interval_seconds = 10"

record rule_cache =
  cache_client_id :: string
  rule_appliers :: "rule_applier list"
  cache_resource :: "attrs option"
  fallback :: rate_limiter
  last_modified :: int

definition new_rule_cache ::
    "attrs option \<Rightarrow> rate_limiter \<Rightarrow> string \<Rightarrow> instant \<Rightarrow> rule_cache" where
  "new_rule_cache resource fb client_id now =
     \<lparr>cache_client_id = client_id, rule_appliers = [], cache_resource = resource,
      fallback = fb, last_modified = datetime_us now\<rparr>"

section \<open>Sampling\<close>

text \<open>The loop over the appliers; \<open>None\<close> when no rule matches.\<close>

fun first_match ::
    "aval sdk \<Rightarrow> attrs option \<Rightarrow> instant \<Rightarrow> instant \<Rightarrow> aval request \<Rightarrow> rule_applier list
      \<Rightarrow> (aval sampling_result \<times> rule_applier list) option res" where
  "first_match lib resource t1 t2 req [] = Inr None"
| "first_match lib resource t1 t2 req (ap # aps) =
     bindr (matches resource (req_attributes req) ap) (\<lambda>m.
       if m
       then let (res, ap') = applier_should_sample lib t1 t2 req ap in Inr (Some (res, ap' # aps))
       else bindr (first_match lib resource t1 t2 req aps) (\<lambda>r.
              Inr (map_option (\<lambda>(res, aps'). (res, ap # aps')) r)))"

text \<open>A flag of the result tells whether a rule took the decision.\<close>

definition rule_cache_should_sample ::
    "aval sdk \<Rightarrow> instant \<Rightarrow> instant \<Rightarrow> aval request \<Rightarrow> rule_cache
      \<Rightarrow> (bool \<times> aval sampling_result \<times> rule_cache) res" where
  "rule_cache_should_sample lib t1 t2 req c =
     bindr (first_match lib (cache_resource c) t1 t2 req (rule_appliers c)) (\<lambda>r.
       case r of
         Some (res, aps) \<Rightarrow> Inr (True, res, c\<lparr>rule_appliers := aps\<rparr>)
       | None \<Rightarrow>
           let (res, fb) = fallback_should_sample (ratio_sample lib) t1 req (fallback c)
           in Inr (False, res, c\<lparr>fallback := fb\<rparr>))"

section \<open>Updates\<close>

definition supported :: "sampling_rule \<Rightarrow> bool" where
  "supported r \<longleftrightarrow> RuleName r \<noteq> [] \<and> Version r = 1"

definition keep_unchanged :: "rule_applier list \<Rightarrow> rule_applier \<Rightarrow> rule_applier" where
  "keep_unchanged old new =
     (case map_of (dict_of (map (\<lambda>a. (RuleName (rule a), a)) old)) (RuleName (rule new)) of
        None \<Rightarrow> new
      | Some old_applier \<Rightarrow> if rule_eq (rule new) (rule old_applier) then old_applier else new)"

definition update_sampling_rules ::
    "aval sdk \<Rightarrow> (nat \<Rightarrow> instant) \<Rightarrow> sampling_rule list \<Rightarrow> rule_cache \<Rightarrow> rule_cache res" where
  "update_sampling_rules lib clk new_sampling_rules c =
     (let rules = filter supported (sort_rules new_sampling_rules)
      in bindr (map_res (\<lambda>(i, r). new_rule_applier lib r (cache_client_id c) (clk i) (clk i) None None)
                  (enumerate 0 rules)) (\<lambda>temp_rule_appliers.
           Inr (c\<lparr>rule_appliers := map (keep_unchanged (rule_appliers c)) temp_rule_appliers,
                  last_modified := datetime_us (clk (length rules))\<rparr>)))"

definition min_interval :: "int option \<Rightarrow> int option \<Rightarrow> int option" where
  "min_interval acc interval =
     (case interval of
        None \<Rightarrow> acc
      | Some i \<Rightarrow> (case acc of None \<Rightarrow> Some i | Some m \<Rightarrow> Some (if m > i then i else m)))"

text \<open>The loop over the appliers, with the number of the next reading of the clock.\<close>

fun apply_targets ::
    "aval sdk \<Rightarrow> (nat \<Rightarrow> instant) \<Rightarrow> (string \<times> sampling_target) list \<Rightarrow> nat \<Rightarrow> int option
      \<Rightarrow> rule_applier list \<Rightarrow> (rule_applier list \<times> int option) res" where
  "apply_targets lib clk target_map k acc [] = Inr ([], acc)"
| "apply_targets lib clk target_map k acc (ap # aps) =
     (case map_of target_map (RuleName (rule ap)) of
        Some target \<Rightarrow>
          bindr (with_target lib (clk k) (clk (k + 1)) target ap) (\<lambda>ap'.
          bindr (apply_targets lib clk target_map (k + 2)
                   (min_interval acc (target_Interval target)) aps) (\<lambda>(aps', acc').
            Inr (ap' # aps', acc')))
      | None \<Rightarrow>
          bindr (apply_targets lib clk target_map k acc aps) (\<lambda>(aps', acc').
            Inr (ap # aps', acc')))"

text \<open>
  The result pair, or the exception, with the state it leaves: the appliers are assigned before the
  time stamp of the response is converted, so an exception there finds the cache updated already.
\<close>

definition update_sampling_targets ::
    "aval sdk \<Rightarrow> (nat \<Rightarrow> instant) \<Rightarrow> target_response \<Rightarrow> rule_cache
      \<Rightarrow> (bool \<times> int) res \<times> rule_cache" where
  "update_sampling_targets lib clk response c =
     (let target_map = dict_of (map (\<lambda>t. (target_RuleName t, t)) (SamplingTargetDocuments response))
      in case apply_targets lib clk target_map 0 None (rule_appliers c) of
           Inl e \<Rightarrow> (Inl e, c)
         | Inr (new_appliers, min_polling_interval) \<Rightarrow>
             (let c' = c\<lparr>rule_appliers := new_appliers\<rparr>
              in (bindr (from_timestamp (LastRuleModification response)) (\<lambda>modification.
                    Inr (modification > last_modified c',
                         or_default min_polling_interval default_target_polling_interval_seconds)),
                  c')))"

definition get_all_statistics ::
    "(nat \<Rightarrow> instant) \<Rightarrow> rule_cache \<Rightarrow> statistics_document list \<times> rule_cache" where
  "get_all_statistics clk c =
     (let outs = map (\<lambda>(i, ap). get_then_reset_statistics (clk i) ap)
                   (enumerate 0 (rule_appliers c))
      in (map fst outs, c\<lparr>rule_appliers := map snd outs\<rparr>))"

definition cache_expired :: "instant \<Rightarrow> rule_cache \<Rightarrow> bool" where
  "cache_expired now c \<longleftrightarrow> datetime_us now > last_modified c + time_delta cache_ttl_seconds"

section \<open>Lemmas\<close>

lemma first_match_split:
  "first_match lib resource t1 t2 req aps = Inr (Some (res, aps')) \<longleftrightarrow>
     (\<exists>pre ap post.
        aps = pre @ ap # post
        \<and> (\<forall>a \<in> set pre. matches resource (req_attributes req) a = Inr False)
        \<and> matches resource (req_attributes req) ap = Inr True
        \<and> res = fst (applier_should_sample lib t1 t2 req ap)
        \<and> aps' = pre @ snd (applier_should_sample lib t1 t2 req ap) # post)"
proof (induction aps arbitrary: aps')
  case Nil
  then show ?case by simp
next
  case (Cons a aps)
  show ?case
  proof (cases "matches resource (req_attributes req) a")
    case (Inl e)
    then show ?thesis by (auto simp: Cons_eq_append_conv)
  next
    case (Inr m)
    show ?thesis
    proof (cases m)
      case True
      have "first_match lib resource t1 t2 req (a # aps) = Inr (Some (res, aps')) \<longleftrightarrow>
          res = fst (applier_should_sample lib t1 t2 req a)
          \<and> aps' = snd (applier_should_sample lib t1 t2 req a) # aps"
        using Inr True by (auto simp: split_beta Let_def)
      also have "\<dots> \<longleftrightarrow> (\<exists>pre ap post. a # aps = pre @ ap # post
          \<and> (\<forall>x \<in> set pre. matches resource (req_attributes req) x = Inr False)
          \<and> matches resource (req_attributes req) ap = Inr True
          \<and> res = fst (applier_should_sample lib t1 t2 req ap)
          \<and> aps' = pre @ snd (applier_should_sample lib t1 t2 req ap) # post)" (is "?L \<longleftrightarrow> ?R")
      proof
        assume ?L
        with Inr True show ?R
          by (intro exI [of _ "[]"] exI [of _ a] exI [of _ aps]) simp
      next
        assume ?R
        with Inr True show ?L by (auto simp: Cons_eq_append_conv)
      qed
      finally show ?thesis .
    next
      case False
      have "first_match lib resource t1 t2 req (a # aps) = Inr (Some (res, aps')) \<longleftrightarrow>
          (\<exists>as. aps' = a # as \<and> first_match lib resource t1 t2 req aps = Inr (Some (res, as)))"
        using Inr False by (auto simp: bindr_eq_Inr)
      also have "\<dots> \<longleftrightarrow> (\<exists>as pre ap post. aps' = a # as \<and> aps = pre @ ap # post
          \<and> (\<forall>x \<in> set pre. matches resource (req_attributes req) x = Inr False)
          \<and> matches resource (req_attributes req) ap = Inr True
          \<and> res = fst (applier_should_sample lib t1 t2 req ap)
          \<and> as = pre @ snd (applier_should_sample lib t1 t2 req ap) # post)"
        using Cons.IH by auto
      also have "\<dots> \<longleftrightarrow> (\<exists>pre ap post. a # aps = pre @ ap # post
          \<and> (\<forall>x \<in> set pre. matches resource (req_attributes req) x = Inr False)
          \<and> matches resource (req_attributes req) ap = Inr True
          \<and> res = fst (applier_should_sample lib t1 t2 req ap)
          \<and> aps' = pre @ snd (applier_should_sample lib t1 t2 req ap) # post)" (is "?L \<longleftrightarrow> ?R")
      proof
        assume ?L
        then obtain as pre ap post where p: "aps' = a # as" "aps = pre @ ap # post"
            "\<forall>x \<in> set pre. matches resource (req_attributes req) x = Inr False"
            "matches resource (req_attributes req) ap = Inr True"
            "res = fst (applier_should_sample lib t1 t2 req ap)"
            "as = pre @ snd (applier_should_sample lib t1 t2 req ap) # post" by blast
        with Inr False show ?R
          by (intro exI [of _ "a # pre"] exI [of _ ap] exI [of _ post]) simp
      next
        assume ?R
        then obtain pre ap post where p: "a # aps = pre @ ap # post"
            "\<forall>x \<in> set pre. matches resource (req_attributes req) x = Inr False"
            "matches resource (req_attributes req) ap = Inr True"
            "res = fst (applier_should_sample lib t1 t2 req ap)"
            "aps' = pre @ snd (applier_should_sample lib t1 t2 req ap) # post" by blast
        then obtain pre' where "pre = a # pre'"
          using Inr False by (cases pre) auto
        with p show ?L
          by (intro exI [of _ "pre' @ snd (applier_should_sample lib t1 t2 req ap) # post"]
            exI [of _ pre'] exI [of _ ap] exI [of _ post]) simp
      qed
      finally show ?thesis .
    qed
  qed
qed

lemma first_match_None:
  "first_match lib resource t1 t2 req aps = Inr None \<longleftrightarrow>
     (\<forall>a \<in> set aps. matches resource (req_attributes req) a = Inr False)"
proof (induction aps)
  case Nil
  then show ?case by simp
next
  case (Cons a aps)
  then show ?case
    by (cases "matches resource (req_attributes req) a")
      (auto simp: bindr_eq_Inr split_beta Let_def)
qed

text \<open>The name of a rule, and the total of a counter over the rules.\<close>

abbreviation applier_name :: "rule_applier \<Rightarrow> string" where
  "applier_name ap \<equiv> RuleName (rule ap)"

definition pending :: "(statistics \<Rightarrow> int) \<Rightarrow> rule_applier list \<Rightarrow> int" where
  "pending f aps = sum_list (map (\<lambda>ap. f (stats ap)) aps)"

lemma pending_simps [simp]:
  "pending f [] = 0"
  "pending f (ap # aps) = f (stats ap) + pending f aps"
  "pending f (aps @ bps) = pending f aps + pending f bps"
  by (simp_all add: pending_def)

definition cache_ok :: "rule_cache \<Rightarrow> bool" where
  "cache_ok c \<longleftrightarrow>
     distinct (map applier_name (rule_appliers c))
     \<and> (\<forall>ap \<in> set (rule_appliers c). stats_ok (stats ap) \<and> supported (rule ap))"

lemma map_of_names:
  assumes "distinct (map applier_name old)"
  shows "map_of (dict_of (map (\<lambda>a. (applier_name a, a)) old)) n = Some a
    \<longleftrightarrow> a \<in> set old \<and> applier_name a = n"
proof -
  let ?d = "map (\<lambda>a. (applier_name a, a)) old"
  have d: "distinct (map fst ?d)" using assms by (simp add: comp_def)
  then have "map_of (rev ?d) = map_of ?d" by (rule map_of_rev_distinct)
  then have "map_of (dict_of ?d) n = Some a \<longleftrightarrow> (n, a) \<in> set ?d" using d by simp
  then show ?thesis by auto
qed

lemma keep_unchanged_old:
  assumes "distinct (map applier_name old)" and "a \<in> set old"
    and "applier_name a = applier_name new" and "rule_eq (rule new) (rule a)"
  shows "keep_unchanged old new = a"
proof -
  have "map_of (dict_of (map (\<lambda>a. (applier_name a, a)) old)) (applier_name new) = Some a"
    using assms by (simp only: map_of_names)
  then show ?thesis using assms(4) by (simp add: keep_unchanged_def del: map_of_dict_of)
qed

lemma keep_unchanged_new:
  assumes "distinct (map applier_name old)"
    and "\<forall>a \<in> set old. applier_name a = applier_name new \<longrightarrow> \<not> rule_eq (rule new) (rule a)"
  shows "keep_unchanged old new = new"
proof (cases "map_of (dict_of (map (\<lambda>a. (applier_name a, a)) old)) (applier_name new)")
  case None
  then show ?thesis by (simp add: keep_unchanged_def del: map_of_dict_of)
next
  case (Some a)
  then have "a \<in> set old" "applier_name a = applier_name new"
    using assms(1) by (simp_all only: map_of_names)
  then show ?thesis using assms(2) Some by (simp add: keep_unchanged_def del: map_of_dict_of)
qed

lemma keep_unchanged_from:
  "keep_unchanged old new = new \<or>
     keep_unchanged old new \<in> set old \<and> rule_eq (rule new) (rule (keep_unchanged old new))"
proof (cases "map_of (dict_of (map (\<lambda>a. (applier_name a, a)) old)) (applier_name new)")
  case None
  then show ?thesis by (simp add: keep_unchanged_def del: map_of_dict_of)
next
  case (Some a)
  then have "a \<in> set old" by (auto dest!: map_of_SomeD)
  with Some show ?thesis by (simp add: keep_unchanged_def del: map_of_dict_of)
qed

lemma rule_eq_names: "rule_eq r s \<Longrightarrow> RuleName r = RuleName s \<and> Version r = Version s"
  by (simp add: rule_eq_def)

lemma keep_unchanged_name: "applier_name (keep_unchanged old new) = applier_name new"
  using keep_unchanged_from [of old new] by (auto dest: rule_eq_names)

text \<open>What an update of the rules does to each of the supported rules, in their order.\<close>

lemma update_sampling_rules_eq:
  assumes "update_sampling_rules lib clk rules c = Inr c'"
  shows "list_all2 (\<lambda>r ap. \<exists>new t. new_rule_applier lib r (cache_client_id c) t t None None = Inr new
      \<and> ap = keep_unchanged (rule_appliers c) new)
    (filter supported (sort_rules rules)) (rule_appliers c')"
proof -
  define rs where "rs = filter supported (sort_rules rules)"
  obtain news where news: "map_res (\<lambda>(i, r). new_rule_applier lib r (cache_client_id c) (clk i) (clk i)
        None None) (enumerate 0 rs) = Inr news"
      and c': "rule_appliers c' = map (keep_unchanged (rule_appliers c)) news"
    using assms by (auto simp: update_sampling_rules_def Let_def bindr_eq_Inr rs_def)
  have "list_all2 (\<lambda>ir new. new_rule_applier lib (snd ir) (cache_client_id c)
      (clk (fst ir)) (clk (fst ir)) None None = Inr new) (enumerate 0 rs) news"
    using news by (simp add: map_res_list_all2 split_beta)
  then have "list_all2 (\<lambda>r new. \<exists>t. new_rule_applier lib r (cache_client_id c) t t None None = Inr new)
      (map snd (enumerate 0 rs)) news"
    unfolding list.rel_map by (rule list_all2_mono) auto
  then have "list_all2 (\<lambda>r new. \<exists>t. new_rule_applier lib r (cache_client_id c) t t None None = Inr new)
      rs news"
    by simp
  then show ?thesis
    unfolding rs_def [symmetric] c' list.rel_map by (rule list_all2_mono) auto
qed

lemma update_sampling_rules_names:
  assumes "update_sampling_rules lib clk rules c = Inr c'"
  shows "map applier_name (rule_appliers c') = map RuleName (filter supported (sort_rules rules))"
proof -
  have "list_all2 (\<lambda>r ap. RuleName r = applier_name ap)
      (filter supported (sort_rules rules)) (rule_appliers c')"
    using update_sampling_rules_eq [OF assms]
    by (rule list_all2_mono) (auto simp: keep_unchanged_name dest: new_rule_applier_frame)
  then show ?thesis
    by (simp add: list_all2_conv_all_nth list_eq_iff_nth_eq)
qed

lemma update_sampling_rules_appliers:
  assumes "update_sampling_rules lib clk rules c = Inr c'" and "ap \<in> set (rule_appliers c')"
  shows "ap \<in> set (rule_appliers c) \<or> stats ap = new_statistics (cache_client_id c) (applier_name ap)"
proof -
  obtain r new t where "new_rule_applier lib r (cache_client_id c) t t None None = Inr new"
      "ap = keep_unchanged (rule_appliers c) new"
    using list_all2_witness [OF update_sampling_rules_eq [OF assms(1)] assms(2)] by blast
  with keep_unchanged_from [of "rule_appliers c" new] show ?thesis
    by (auto dest: new_rule_applier_frame)
qed

text \<open>Sorting and filtering keep distinct names distinct.\<close>

lemma sort_rules_names:
  "distinct (map RuleName rules) \<Longrightarrow> distinct (map RuleName (filter supported (sort_rules rules)))"
proof -
  assume "distinct (map RuleName rules)"
  moreover have "mset (sort_rules rules) = mset rules" by (simp add: sort_rules_def)
  then have "mset (map RuleName (sort_rules rules)) = mset (map RuleName rules)" by simp
  ultimately have "distinct (map RuleName (sort_rules rules))"
    by (metis mset_eq_imp_distinct_iff)
  then show ?thesis by (rule distinct_map_filter)
qed

lemma supported_rule_eq: "rule_eq r s \<Longrightarrow> supported r \<longleftrightarrow> supported s"
  by (auto simp: supported_def dest: rule_eq_names)

lemma update_sampling_rules_ok:
  assumes up: "update_sampling_rules lib clk rules c = Inr c'"
    and ok: "cache_ok c" and names: "distinct (map RuleName rules)"
  shows "cache_ok c'"
proof -
  have "distinct (map applier_name (rule_appliers c'))"
    using update_sampling_rules_names [OF up] sort_rules_names [OF names] by simp
  moreover have "stats_ok (stats ap) \<and> supported (rule ap)" if ap: "ap \<in> set (rule_appliers c')" for ap
  proof -
    obtain r new t where r: "r \<in> set (filter supported (sort_rules rules))"
        and new: "new_rule_applier lib r (cache_client_id c) t t None None = Inr new"
        and ap': "ap = keep_unchanged (rule_appliers c) new"
      using list_all2_witness [OF update_sampling_rules_eq [OF up] ap] by blast
    have "rule new = r" "stats_ok (stats new)" using new_rule_applier_frame [OF new] by simp_all
    then show ?thesis
      using keep_unchanged_from [of "rule_appliers c" new] ok r ap' by (auto simp: cache_ok_def)
  qed
  ultimately show ?thesis by (simp add: cache_ok_def)
qed

text \<open>Appliers of a sublist of the names hold no more requests than all of them.\<close>

lemma pending_le:
  assumes "distinct (map applier_name aps)" and "distinct (map applier_name bps)"
    and "\<forall>ap \<in> set aps. ap \<in> set bps \<or> f (stats ap) = 0"
    and "\<forall>ap \<in> set bps. 0 \<le> f (stats ap)"
  shows "pending f aps \<le> pending f bps"
proof -
  have d: "distinct aps" "distinct bps" using assms(1,2) by (simp_all add: distinct_map)
  have "pending f aps = (\<Sum>ap \<in> set aps. f (stats ap))"
    using d(1) by (simp add: pending_def sum_list_distinct_conv_sum_set)
  also have "\<dots> = (\<Sum>ap \<in> set aps \<inter> set bps. f (stats ap))"
    using assms(3) by (intro sum.mono_neutral_right) auto
  also have "\<dots> \<le> (\<Sum>ap \<in> set bps. f (stats ap))"
    using assms(4) by (intro sum_mono2) auto
  also have "\<dots> = pending f bps"
    using d(2) by (simp add: pending_def sum_list_distinct_conv_sum_set)
  finally show ?thesis .
qed

section \<open>Targets\<close>

lemma apply_targets_appliers:
  "apply_targets lib clk tm k acc aps = Inr (aps', acc') \<Longrightarrow>
     list_all2 (\<lambda>ap ap'. case map_of tm (applier_name ap) of
         None \<Rightarrow> ap' = ap
       | Some tg \<Rightarrow> \<exists>t1 t2. with_target lib t1 t2 tg ap = Inr ap') aps aps'"
proof (induction aps arbitrary: k acc aps' acc')
  case Nil
  then show ?case by simp
next
  case (Cons ap aps)
  show ?case
  proof (cases "map_of tm (applier_name ap)")
    case None
    with Cons.prems obtain bps where "apply_targets lib clk tm k acc aps = Inr (bps, acc')"
        "aps' = ap # bps"
      by (auto simp: bindr_eq_Inr)
    with Cons.IH None show ?thesis by simp
  next
    case (Some tg)
    with Cons.prems obtain ap' bps where "with_target lib (clk k) (clk (k + 1)) tg ap = Inr ap'"
        "apply_targets lib clk tm (k + 2) (min_interval acc (target_Interval tg)) aps = Inr (bps, acc')"
        "aps' = ap' # bps"
      by (auto simp: bindr_eq_Inr)
    with Cons.IH Some show ?thesis by auto
  qed
qed

text \<open>The intervals of the targets that some rule takes.\<close>

definition target_intervals :: "(string \<times> sampling_target) list \<Rightarrow> rule_applier list \<Rightarrow> int set" where
  "target_intervals tm aps =
     {i. \<exists>ap \<in> set aps. \<exists>tg. map_of tm (applier_name ap) = Some tg \<and> target_Interval tg = Some i}"

definition lowest :: "int set \<Rightarrow> int option" where
  "lowest S = (if S = {} then None else Some (Min S))"

lemma finite_target_intervals [simp]: "finite (target_intervals tm aps)"
proof -
  have "target_intervals tm aps \<subseteq>
      (\<lambda>ap. the (target_Interval (the (map_of tm (applier_name ap))))) ` set aps"
    by (force simp: target_intervals_def)
  then show ?thesis by (rule finite_subset) simp
qed

lemma target_intervals_Cons:
  "target_intervals tm (ap # aps) =
     (case Option.bind (map_of tm (applier_name ap)) target_Interval of
        None \<Rightarrow> {} | Some i \<Rightarrow> {i}) \<union> target_intervals tm aps"
  by (auto simp: target_intervals_def split: option.splits)
    (auto split: Option.bind_splits)

lemma min_interval_lowest:
  assumes "finite S"
  shows "min_interval (lowest S) i = lowest ((case i of None \<Rightarrow> {} | Some v \<Rightarrow> {v}) \<union> S)"
  using assms
  by (cases i; cases "S = {}")
    (simp_all add: min_interval_def lowest_def min_def not_less del: Min_less_iff Min_gr_iff
      Min_ge_iff Min_le_iff)

lemma apply_targets_interval:
  assumes "finite S"
  shows "apply_targets lib clk tm k (lowest S) aps = Inr (aps', acc') \<Longrightarrow>
    acc' = lowest (target_intervals tm aps \<union> S)"
  using assms
proof (induction aps arbitrary: k S aps' acc')
  case Nil
  then show ?case by (simp add: target_intervals_def)
next
  case (Cons ap aps)
  show ?case
  proof (cases "map_of tm (applier_name ap)")
    case None
    with Cons.prems obtain bps where "apply_targets lib clk tm k (lowest S) aps = Inr (bps, acc')"
      by (auto simp: bindr_eq_Inr)
    from Cons.IH [OF this Cons.prems(2)] None show ?thesis by (simp add: target_intervals_Cons)
  next
    case (Some tg)
    let ?S = "(case target_Interval tg of None \<Rightarrow> {} | Some v \<Rightarrow> {v}) \<union> S"
    from Some Cons.prems obtain bps where
        "apply_targets lib clk tm (k + 2) (lowest ?S) aps = Inr (bps, acc')"
      by (auto simp: bindr_eq_Inr min_interval_lowest)
    from Cons.IH [OF this] Cons.prems(2)
    have "acc' = lowest (target_intervals tm aps \<union> ?S)" by (simp split: option.splits)
    moreover have "target_intervals tm aps \<union> ?S = target_intervals tm (ap # aps) \<union> S"
      using Some by (auto simp: target_intervals_Cons)
    ultimately show ?thesis by simp
  qed
qed

lemma apply_targets_same:
  assumes "apply_targets lib clk tm k acc aps = Inr (aps', acc')"
  shows "map stats aps' = map stats aps" and "map rule aps' = map rule aps"
proof -
  have "list_all2 (\<lambda>ap ap'. stats ap' = stats ap \<and> rule ap' = rule ap) aps aps'"
    using apply_targets_appliers [OF assms]
    by (rule list_all2_mono) (auto split: option.splits dest: with_target_frame)
  then have "list_all2 (=) (map stats aps') (map stats aps) \<and> list_all2 (=) (map rule aps') (map rule aps)"
    by (simp add: list_all2_conv_all_nth)
  then show "map stats aps' = map stats aps" and "map rule aps' = map rule aps"
    by (simp_all add: list.rel_eq)
qed

lemma update_sampling_targets_same:
  assumes "update_sampling_targets lib clk response c = (r, c')"
  shows "map stats (rule_appliers c') = map stats (rule_appliers c)"
    and "map rule (rule_appliers c') = map rule (rule_appliers c)"
    and "last_modified c' = last_modified c" and "fallback c' = fallback c"
    and "cache_client_id c' = cache_client_id c" and "cache_resource c' = cache_resource c"
  using assms apply_targets_same
  by (auto simp: update_sampling_targets_def Let_def split: sum.splits)

lemma cache_ok_alt:
  "cache_ok c \<longleftrightarrow>
     distinct (map RuleName (map rule (rule_appliers c)))
     \<and> list_all stats_ok (map stats (rule_appliers c))
     \<and> list_all supported (map rule (rule_appliers c))"
  by (auto simp: cache_ok_def comp_def list_all_iff)

lemma cache_ok_same:
  assumes "map stats (rule_appliers c') = map stats (rule_appliers c)"
    and "map rule (rule_appliers c') = map rule (rule_appliers c)" and "cache_ok c"
  shows "cache_ok c'"
  using assms by (simp only: cache_ok_alt)

lemma update_sampling_rules_keys:
  assumes "update_sampling_rules lib clk rules c = Inr c'"
  shows "map (\<lambda>ap. rule_key (rule ap)) (rule_appliers c')
    = map rule_key (filter supported (sort_rules rules))"
proof -
  have key: "rule_key (rule (keep_unchanged old new)) = rule_key (rule new)" for old new
    using keep_unchanged_from [of old new] by (auto simp: rule_eq_def rule_key_def)
  have "list_all2 (\<lambda>r ap. rule_key r = rule_key (rule ap))
      (filter supported (sort_rules rules)) (rule_appliers c')"
    using update_sampling_rules_eq [OF assms]
    by (rule list_all2_mono) (auto simp: key dest: new_rule_applier_frame)
  then show ?thesis by (simp add: list_all2_conv_all_nth list_eq_iff_nth_eq)
qed

lemma update_sampling_rules_ordered:
  assumes "update_sampling_rules lib clk rules c = Inr c'"
  shows "sorted_wrt (\<lambda>a b. \<not> rule_lt (rule b) (rule a)) (rule_appliers c')"
proof -
  have "sorted (map rule_key (filter supported (sort_rules rules)))"
    by (simp add: sort_rules_def sorted_filter)
  then have "sorted (map (\<lambda>ap. rule_key (rule ap)) (rule_appliers c'))"
    by (simp only: update_sampling_rules_keys [OF assms])
  then show ?thesis by (simp add: sorted_map rule_lt_iff not_less)
qed

lemma update_sampling_rules_exists:
  "(\<exists>c'. update_sampling_rules lib clk rules c = Inr c') \<longleftrightarrow>
     (\<forall>r \<in> set rules. supported r \<longrightarrow> ratio_error lib (FixedRate r) = None)"
proof -
  have new: "(\<exists>ap. new_rule_applier lib r cid t t None None = Inr ap) \<longleftrightarrow>
      ratio_error lib (FixedRate r) = None" for r cid t
    by (simp add: new_rule_applier_def Let_def new_ratio_def split: option.splits)
  have "(\<exists>c'. update_sampling_rules lib clk rules c = Inr c') \<longleftrightarrow>
      (\<exists>news. map_res (\<lambda>(i, r). new_rule_applier lib r (cache_client_id c) (clk i) (clk i) None None)
        (enumerate 0 (filter supported (sort_rules rules))) = Inr news)"
    by (auto simp: update_sampling_rules_def Let_def bindr_eq_Inr)
  also have "\<dots> \<longleftrightarrow> (\<forall>r \<in> snd ` set (enumerate 0 (filter supported (sort_rules rules))).
      ratio_error lib (FixedRate r) = None)"
    unfolding map_res_ok by (auto simp: new split_beta)
  also have "snd ` set (enumerate 0 (filter supported (sort_rules rules))) = {r \<in> set rules. supported r}"
    by (subst list.set_map [symmetric]) (simp add: Collect_conj_eq Int_commute)
  also have "(\<forall>r \<in> {r \<in> set rules. supported r}. ratio_error lib (FixedRate r) = None) \<longleftrightarrow>
      (\<forall>r \<in> set rules. supported r \<longrightarrow> ratio_error lib (FixedRate r) = None)"
    by blast
  finally show ?thesis .
qed

lemma update_sampling_rules_kept:
  assumes up: "update_sampling_rules lib clk rules c = Inr c'"
    and d: "distinct (map applier_name (rule_appliers c))"
    and r: "r \<in> set rules" "supported r"
  shows "if \<exists>a \<in> set (rule_appliers c). rule_eq r (rule a)
    then \<exists>a \<in> set (rule_appliers c). rule_eq r (rule a) \<and> a \<in> set (rule_appliers c')
    else \<exists>ap \<in> set (rule_appliers c').
      rule ap = r \<and> stats ap = new_statistics (cache_client_id c) (RuleName r)"
proof -
  have "r \<in> set (filter supported (sort_rules rules))" using r by simp
  then obtain ap new t where ap: "ap \<in> set (rule_appliers c')"
      and new: "new_rule_applier lib r (cache_client_id c) t t None None = Inr new"
      and ap': "ap = keep_unchanged (rule_appliers c) new"
    using list_all2_image [OF update_sampling_rules_eq [OF up]] by blast
  have frame: "rule new = r" "stats new = new_statistics (cache_client_id c) (RuleName r)"
    using new_rule_applier_frame [OF new] by simp_all
  show ?thesis
  proof (cases "\<exists>a \<in> set (rule_appliers c). rule_eq r (rule a)")
    case True
    then obtain a where a: "a \<in> set (rule_appliers c)" "rule_eq r (rule a)" by blast
    have "ap = a"
      using keep_unchanged_old [OF d a(1), of new] a(2) frame ap' by (auto dest: rule_eq_names)
    with a ap show ?thesis by auto
  next
    case False
    then have "ap = new" using keep_unchanged_new [OF d, of new] frame ap' by auto
    with False ap frame show ?thesis by auto
  qed
qed

section \<open>Properties\<close>

text \<open>C19: sampling follows the rules in their order. A rule takes the decision exactly when it is the
  first one that matches, and then only its own state changes; the fallback sampler decides
  exactly when no rule matches, and then the rules are untouched.\<close>

theorem first_matching_rule_decides:
  "(rule_cache_should_sample lib t1 t2 req c = Inr (True, res, c') \<longleftrightarrow>
      (\<exists>pre ap post. rule_appliers c = pre @ ap # post
        \<and> (\<forall>a \<in> set pre. matches (cache_resource c) (req_attributes req) a = Inr False)
        \<and> matches (cache_resource c) (req_attributes req) ap = Inr True
        \<and> res = fst (applier_should_sample lib t1 t2 req ap)
        \<and> c' = c\<lparr>rule_appliers := pre @ snd (applier_should_sample lib t1 t2 req ap) # post\<rparr>))
   \<and> (rule_cache_should_sample lib t1 t2 req c = Inr (False, res, c') \<longleftrightarrow>
      (\<forall>a \<in> set (rule_appliers c). matches (cache_resource c) (req_attributes req) a = Inr False)
      \<and> res = fst (fallback_should_sample (ratio_sample lib) t1 req (fallback c))
      \<and> c' = c\<lparr>fallback := snd (fallback_should_sample (ratio_sample lib) t1 req (fallback c))\<rparr>)"
proof (rule conjI)
  have "rule_cache_should_sample lib t1 t2 req c = Inr (True, res, c') \<longleftrightarrow>
      (\<exists>aps. first_match lib (cache_resource c) t1 t2 req (rule_appliers c) = Inr (Some (res, aps))
        \<and> c' = c\<lparr>rule_appliers := aps\<rparr>)"
    by (auto simp: rule_cache_should_sample_def bindr_eq_Inr split_beta Let_def split: option.splits)
  then show "rule_cache_should_sample lib t1 t2 req c = Inr (True, res, c') \<longleftrightarrow>
      (\<exists>pre ap post. rule_appliers c = pre @ ap # post
        \<and> (\<forall>a \<in> set pre. matches (cache_resource c) (req_attributes req) a = Inr False)
        \<and> matches (cache_resource c) (req_attributes req) ap = Inr True
        \<and> res = fst (applier_should_sample lib t1 t2 req ap)
        \<and> c' = c\<lparr>rule_appliers := pre @ snd (applier_should_sample lib t1 t2 req ap) # post\<rparr>)"
    unfolding first_match_split by blast
  have "rule_cache_should_sample lib t1 t2 req c = Inr (False, res, c') \<longleftrightarrow>
      first_match lib (cache_resource c) t1 t2 req (rule_appliers c) = Inr None
      \<and> res = fst (fallback_should_sample (ratio_sample lib) t1 req (fallback c))
      \<and> c' = c\<lparr>fallback := snd (fallback_should_sample (ratio_sample lib) t1 req (fallback c))\<rparr>"
    by (auto simp: rule_cache_should_sample_def bindr_eq_Inr split_beta Let_def split: option.splits)
  then show "rule_cache_should_sample lib t1 t2 req c = Inr (False, res, c') \<longleftrightarrow>
      (\<forall>a \<in> set (rule_appliers c). matches (cache_resource c) (req_attributes req) a = Inr False)
      \<and> res = fst (fallback_should_sample (ratio_sample lib) t1 req (fallback c))
      \<and> c' = c\<lparr>fallback := snd (fallback_should_sample (ratio_sample lib) t1 req (fallback c))\<rparr>"
    unfolding first_match_None .
qed

definition demo_cache :: rule_cache where
  "demo_cache =
     \<lparr>cache_client_id = ''c'',
      rule_appliers =
        [\<lparr>applier_client_id = ''c'', rule = demo_rule, stats = new_statistics ''c'' ''r'',
          borrowing = True, fixed_rate = 0,
          reservoir = new_rate_limiter 1 1 \<lparr>datetime_us = 0, millis = 0\<rparr>,
          reservoir_expiry = clock_max\<rparr>],
      cache_resource = Some [],
      fallback = new_fallback_sampler \<lparr>datetime_us = 0, millis = 0\<rparr>, last_modified = 0\<rparr>"

theorem first_matching_rule_decides_witness:
  "\<exists>lib t req res c'. rule_cache_should_sample lib t t req demo_cache = Inr (True, res, c')"
proof -
  define lib :: "aval sdk" where
    "lib = \<lparr>ratio_error = (\<lambda>r. None), ratio_sample = (\<lambda>r. sampling_result DROP)\<rparr>"
  define t where "t = \<lparr>datetime_us = 0, millis = 3000\<rparr>"
  define req :: "aval request" where
    "req = \<lparr>trace_id = 7, req_attributes = Some [], req_trace_state = None\<rparr>"
  define ap where "ap = hd (rule_appliers demo_cache)"
  have "matches (cache_resource demo_cache) (req_attributes req) ap = Inr True"
    by (simp add: ap_def demo_cache_def req_def matches_def demo_rule_def request_path_def
      attribute_match_def wild_card_match_def get_arn_def get_or_def)
  moreover have "rule_appliers demo_cache = [] @ ap # []" by (simp add: ap_def demo_cache_def)
  ultimately have "\<exists>res c'. rule_cache_should_sample lib t t req demo_cache = Inr (True, res, c')"
    by (subst first_matching_rule_decides [THEN conjunct1]) fastforce
  then show ?thesis by blast
qed

text \<open>C12: an update of the rules. It raises exactly when the SDK refuses the rate of a supported
  rule, and then it changes nothing. Otherwise the cache holds one applier per rule that has a
  name and version 1, ordered by priority and then by name; a rule that has not changed keeps its
  applier, with its reservoir and its statistics, and every other one starts from zero.\<close>

theorem update_sampling_rules_spec:
  assumes "distinct (map applier_name (rule_appliers c))"
  shows "((\<exists>c'. update_sampling_rules lib clk rules c = Inr c') \<longleftrightarrow>
      (\<forall>r \<in> set rules. supported r \<longrightarrow> ratio_error lib (FixedRate r) = None))
    \<and> (\<forall>c'. update_sampling_rules lib clk rules c = Inr c' \<longrightarrow>
      mset (map applier_name (rule_appliers c')) = mset (map RuleName (filter supported rules))
      \<and> sorted_wrt (\<lambda>a b. \<not> rule_lt (rule b) (rule a)) (rule_appliers c')
      \<and> (\<forall>r \<in> set rules. supported r \<longrightarrow>
          (if \<exists>a \<in> set (rule_appliers c). rule_eq r (rule a)
           then \<exists>a \<in> set (rule_appliers c). rule_eq r (rule a) \<and> a \<in> set (rule_appliers c')
           else \<exists>ap \<in> set (rule_appliers c').
             rule ap = r \<and> stats ap = new_statistics (cache_client_id c) (RuleName r))))"
proof (intro conjI allI impI ballI)
  show "(\<exists>c'. update_sampling_rules lib clk rules c = Inr c') \<longleftrightarrow>
      (\<forall>r \<in> set rules. supported r \<longrightarrow> ratio_error lib (FixedRate r) = None)"
    by (rule update_sampling_rules_exists)
next
  fix c' assume up: "update_sampling_rules lib clk rules c = Inr c'"
  have "mset (filter supported (sort_rules rules)) = mset (filter supported rules)"
    by (simp add: sort_rules_def)
  then show "mset (map applier_name (rule_appliers c')) = mset (map RuleName (filter supported rules))"
    unfolding update_sampling_rules_names [OF up] by (simp only: mset_map)
  show "sorted_wrt (\<lambda>a b. \<not> rule_lt (rule b) (rule a)) (rule_appliers c')"
    using up by (rule update_sampling_rules_ordered)
next
  fix c' r assume "update_sampling_rules lib clk rules c = Inr c'" "r \<in> set rules" "supported r"
  then show "if \<exists>a \<in> set (rule_appliers c). rule_eq r (rule a)
      then \<exists>a \<in> set (rule_appliers c). rule_eq r (rule a) \<and> a \<in> set (rule_appliers c')
      else \<exists>ap \<in> set (rule_appliers c').
        rule ap = r \<and> stats ap = new_statistics (cache_client_id c) (RuleName r)"
    using assms by (intro update_sampling_rules_kept)
qed

definition accepting_sdk :: "aval sdk" where
  "accepting_sdk = \<lparr>ratio_error = (\<lambda>r. if 0 \<le> r \<and> r \<le> 1 then None else Some ValueError),
     ratio_sample = (\<lambda>r. sampling_result DROP)\<rparr>"

theorem update_sampling_rules_spec_witness:
  "\<exists>c'. update_sampling_rules accepting_sdk (\<lambda>_. \<lparr>datetime_us = 0, millis = 0\<rparr>) [demo_rule] demo_cache
     = Inr c'"
  by (subst update_sampling_rules_spec [THEN conjunct1])
    (simp_all add: demo_cache_def demo_rule_def accepting_sdk_def)

text \<open>C20: an update of the targets. The statistics and the rules survive it, whatever it raises. When
  it returns, a rule with a target is rebuilt from that target and every other one is untouched,
  the next poll is due after the smallest interval of the targets that were taken (10 seconds
  when there is none), and the rules are to be refreshed exactly when the response says they were
  modified after the last update of the cache.\<close>

theorem update_sampling_targets_spec:
  assumes "update_sampling_targets lib clk response c = (r, c')"
    and "tm = dict_of (map (\<lambda>t. (target_RuleName t, t)) (SamplingTargetDocuments response))"
  shows "map stats (rule_appliers c') = map stats (rule_appliers c)
    \<and> map rule (rule_appliers c') = map rule (rule_appliers c)
    \<and> (\<forall>refresh interval. r = Inr (refresh, interval) \<longrightarrow>
      list_all2 (\<lambda>ap ap'. case map_of tm (applier_name ap) of
          None \<Rightarrow> ap' = ap
        | Some tg \<Rightarrow> \<exists>t1 t2. with_target lib t1 t2 tg ap = Inr ap')
        (rule_appliers c) (rule_appliers c')
      \<and> interval = (let S = target_intervals tm (rule_appliers c) in if S = {} then 10 else Min S)
      \<and> (\<exists>modified. from_timestamp (LastRuleModification response) = Inr modified
          \<and> refresh = (last_modified c < modified)))"
proof (intro conjI allI impI)
  show "map stats (rule_appliers c') = map stats (rule_appliers c)"
      "map rule (rule_appliers c') = map rule (rule_appliers c)"
    using update_sampling_targets_same [OF assms(1)] by simp_all
next
  fix refresh interval assume r: "r = Inr (refresh, interval)"
  then obtain aps acc modified where aps:
      "apply_targets lib clk tm 0 None (rule_appliers c) = Inr (aps, acc)"
      and c': "c' = c\<lparr>rule_appliers := aps\<rparr>"
      and m: "from_timestamp (LastRuleModification response) = Inr modified"
        "refresh = (last_modified c < modified)"
      and interval: "interval = or_default acc default_target_polling_interval_seconds"
    using assms by (auto simp: update_sampling_targets_def Let_def bindr_eq_Inr split: sum.splits)
  show "list_all2 (\<lambda>ap ap'. case map_of tm (applier_name ap) of
          None \<Rightarrow> ap' = ap
        | Some tg \<Rightarrow> \<exists>t1 t2. with_target lib t1 t2 tg ap = Inr ap')
        (rule_appliers c) (rule_appliers c')"
    using apply_targets_appliers [OF aps] c' by simp
  have "acc = lowest (target_intervals tm (rule_appliers c))"
    using apply_targets_interval [of "{}" lib clk tm 0 "rule_appliers c" aps acc] aps
    by (simp add: lowest_def)
  then show "interval = (let S = target_intervals tm (rule_appliers c) in if S = {} then 10 else Min S)"
    using interval by (simp add: lowest_def Let_def default_target_polling_interval_seconds_def)
  show "\<exists>modified. from_timestamp (LastRuleModification response) = Inr modified
      \<and> refresh = (last_modified c < modified)"
    using m by blast
qed

theorem update_sampling_targets_spec_witness:
  "\<exists>c'. snd (update_sampling_targets accepting_sdk (\<lambda>_. \<lparr>datetime_us = 0, millis = 0\<rparr>)
        \<lparr>LastRuleModification = 1, SamplingTargetDocuments =
           [\<lparr>target_FixedRate = 1, target_Interval = Some 15, target_ReservoirQuota = Some 2,
             target_ReservoirQuotaTTL = None, target_RuleName = ''r''\<rparr>],
         UnprocessedStatistics = []\<rparr> demo_cache) = c'
     \<and> map rule (rule_appliers c') = [demo_rule]"
proof -
  define response where "response =
        \<lparr>LastRuleModification = 1, SamplingTargetDocuments =
           [\<lparr>target_FixedRate = 1, target_Interval = Some 15, target_ReservoirQuota = Some 2,
             target_ReservoirQuotaTTL = None, target_RuleName = ''r''\<rparr>],
         UnprocessedStatistics = []\<rparr>"
  obtain r c' where out: "update_sampling_targets accepting_sdk
      (\<lambda>_. \<lparr>datetime_us = 0, millis = 0\<rparr>) response demo_cache = (r, c')"
    by (metis surj_pair)
  have "map rule (rule_appliers c') = map rule (rule_appliers demo_cache)"
    using update_sampling_targets_spec [OF out refl] by blast
  then show ?thesis
    using out by (simp add: response_def demo_cache_def)
qed


end
