(* ===== verification/RemoteSampler.thy ===== *)
theory RemoteSampler
  imports RuleCache
begin

text \<open>
  \<open>sampler/aws_xray_remote_sampler.py\<close> and \<open>always_record_sampler.py\<close>: the sampler that fetches
  rules and targets from X-Ray on two timers, and the wrapper that records what is not sampled.

  The two timers and the application's threads are interleaved in any order: \<open>remote_step\<close> is one
  such step and \<open>remote_run\<close> a sequence of them. A timer that is not set again never fires, which
  is what an exception in a poll leads to.
\<close>

section \<open>The sampler\<close>

record remote_sampler =
  client_id :: string
  cache :: rule_cache
  polling_interval :: int
  target_polling_interval :: int
  rule_polling_jitter :: rat
  target_polling_jitter :: rat
  rules_timer :: "rat option"
  targets_timer :: "rat option"

definition default_rules_polling_interval_seconds :: int where
  "default_rules_polling_interval_seconds = 300"

definition hex_chars :: string where
  "hex_chars = ''0123456789abcdef''"

text \<open>\<open>random.choice\<close> is a parameter: the index it picks in each of the 24 rounds.\<close>

definition generate_client_id :: "(nat \<Rightarrow> nat) \<Rightarrow> string" where
  "generate_client_id choice = map (\<lambda>i. hex_chars ! (choice i mod length hex_chars)) [0..<24]"

text \<open>\<open>t1\<close> and \<open>t2\<close> are the readings of the fallback sampler and of the cache.\<close>

definition new_remote_sampler ::
    "attrs option \<Rightarrow> int option \<Rightarrow> (nat \<Rightarrow> nat) \<Rightarrow> rat \<Rightarrow> rat \<Rightarrow> instant \<Rightarrow> instant \<Rightarrow> remote_sampler" where
  "new_remote_sampler resource interval choice jitter1 jitter2 t1 t2 =
     (let polling = (case interval of
            None \<Rightarrow> default_rules_polling_interval_seconds
          | Some i \<Rightarrow> if i < 10 then default_rules_polling_interval_seconds else i);
          cid = generate_client_id choice
      in \<lparr>client_id = cid,
          cache = new_rule_cache (Some (or_default resource [])) (new_fallback_sampler t1) cid t2,
          polling_interval = polling,
          target_polling_interval = default_target_polling_interval_seconds,
          rule_polling_jitter = jitter1, target_polling_jitter = jitter2,
          rules_timer = Some 0,
          targets_timer = Some (of_int default_target_polling_interval_seconds + jitter2)\<rparr>)"

text \<open>The flag of the result tells whether a rule took the decision.\<close>

definition remote_should_sample ::
    "aval sdk \<Rightarrow> instant \<times> instant \<times> instant \<Rightarrow> aval request \<Rightarrow> remote_sampler
      \<Rightarrow> (bool \<times> aval sampling_result \<times> remote_sampler) res" where
  "remote_should_sample lib clock req s =
     (let (t0, t1, t2) = clock in
      if cache_expired t0 (cache s)
      then let (res, fb) = fallback_should_sample (ratio_sample lib) t1 req (fallback (cache s))
           in Inr (False, res, s\<lparr>cache := (cache s)\<lparr>fallback := fb\<rparr>\<rparr>)
      else bindr (rule_cache_should_sample lib t1 t2 req (cache s)) (\<lambda>(by_rule, res, c).
             Inr (by_rule, res, s\<lparr>cache := c\<rparr>)))"

section \<open>The pollers\<close>

definition get_and_update_sampling_rules ::
    "aval sdk \<Rightarrow> (nat \<Rightarrow> instant) \<Rightarrow> rules_body reply \<Rightarrow> remote_sampler \<Rightarrow> remote_sampler res" where
  "get_and_update_sampling_rules lib clk reply s =
     bindr (update_sampling_rules lib clk (get_sampling_rules reply) (cache s)) (\<lambda>c.
       Inr (s\<lparr>cache := c\<rparr>))"

text \<open>The timer has fired; an exception ends its thread before the next one is set.\<close>

definition start_sampling_rule_poller ::
    "aval sdk \<Rightarrow> (nat \<Rightarrow> instant) \<Rightarrow> rules_body reply \<Rightarrow> remote_sampler \<Rightarrow> remote_sampler" where
  "start_sampling_rule_poller lib clk reply s =
     (case get_and_update_sampling_rules lib clk reply s of
        Inl e \<Rightarrow> s\<lparr>rules_timer := None\<rparr>
      | Inr s' \<Rightarrow> s'\<lparr>rules_timer := Some (of_int (polling_interval s') + rule_polling_jitter s')\<rparr>)"

text \<open>
  The statistics sent, the exception if there is one, and the state left. \<open>clk0\<close>, \<open>clk1\<close> and
  \<open>clk2\<close> are the readings of the three operations of the cache; \<open>rules\<close> is the answer to the
  refresh, when there is one.
\<close>

definition get_and_update_sampling_targets ::
    "aval sdk \<Rightarrow> (nat \<Rightarrow> instant) \<Rightarrow> (nat \<Rightarrow> instant) \<Rightarrow> (nat \<Rightarrow> instant) \<Rightarrow> targets_body reply
      \<Rightarrow> rules_body reply \<Rightarrow> remote_sampler
      \<Rightarrow> statistics_document list \<times> bool \<times> exn option \<times> remote_sampler" where
  "get_and_update_sampling_targets lib clk0 clk1 clk2 reply rules s =
     (let (all_statistics, c1) = get_all_statistics clk0 (cache s);
          response = get_sampling_targets reply;
          (out, c2) = update_sampling_targets lib clk1 response c1;
          s2 = s\<lparr>cache := c2\<rparr>
      in case out of
           Inl e \<Rightarrow> (all_statistics, False, Some e, s2)
         | Inr (refresh_rules, min_polling_interval) \<Rightarrow>
             (case (if refresh_rules then get_and_update_sampling_rules lib clk2 rules s2 else Inr s2) of
                Inl e \<Rightarrow> (all_statistics, True, Some e, s2)
              | Inr s3 \<Rightarrow>
                  (all_statistics, refresh_rules, None,
                   s3\<lparr>target_polling_interval := min_polling_interval\<rparr>)))"

definition start_sampling_target_poller ::
    "aval sdk \<Rightarrow> (nat \<Rightarrow> instant) \<Rightarrow> (nat \<Rightarrow> instant) \<Rightarrow> (nat \<Rightarrow> instant) \<Rightarrow> targets_body reply
      \<Rightarrow> rules_body reply \<Rightarrow> remote_sampler \<Rightarrow> statistics_document list \<times> bool \<times> remote_sampler" where
  "start_sampling_target_poller lib clk0 clk1 clk2 reply rules s =
     (let (sent, refreshed, failure, s') =
            get_and_update_sampling_targets lib clk0 clk1 clk2 reply rules s
      in case failure of
           Some e \<Rightarrow> (sent, refreshed, s'\<lparr>targets_timer := None\<rparr>)
         | None \<Rightarrow>
             (sent, refreshed,
              s'\<lparr>targets_timer :=
                  Some (of_int (target_polling_interval s') + target_polling_jitter s')\<rparr>))"

section \<open>Runs\<close>

datatype remote_event =
    Sampled bool "aval sampling_result"
  | SampleRaised exn
  | RulesPolled
  | TargetsPolled "statistics_document list" bool

text \<open>Rule names are unique in a response of X-Ray.\<close>

definition unique_names :: "rules_body reply \<Rightarrow> bool" where
  "unique_names reply \<longleftrightarrow> distinct (map RuleName (get_sampling_rules reply))"

inductive remote_step :: "aval sdk \<Rightarrow> remote_sampler \<Rightarrow> remote_event \<Rightarrow> remote_sampler \<Rightarrow> bool"
  for lib where
  step_sample: "remote_should_sample lib clock req s = Inr (by_rule, res, s')
    \<Longrightarrow> remote_step lib s (Sampled by_rule res) s'"
| step_raise: "remote_should_sample lib clock req s = Inl e
    \<Longrightarrow> remote_step lib s (SampleRaised e) s"
| step_rules: "rules_timer s \<noteq> None \<Longrightarrow> unique_names reply
    \<Longrightarrow> s' = start_sampling_rule_poller lib clk reply s \<Longrightarrow> remote_step lib s RulesPolled s'"
| step_targets: "targets_timer s \<noteq> None \<Longrightarrow> unique_names rules
    \<Longrightarrow> start_sampling_target_poller lib clk0 clk1 clk2 reply rules s = (sent, refreshed, s')
    \<Longrightarrow> remote_step lib s (TargetsPolled sent refreshed) s'"

inductive_cases sample_stepE: "remote_step lib s (Sampled by_rule res) s'"
inductive_cases raise_stepE: "remote_step lib s (SampleRaised e) s'"
inductive_cases rules_stepE: "remote_step lib s RulesPolled s'"
inductive_cases targets_stepE: "remote_step lib s (TargetsPolled sent refreshed) s'"

inductive remote_run :: "aval sdk \<Rightarrow> remote_sampler \<Rightarrow> remote_event list \<Rightarrow> remote_sampler \<Rightarrow> bool"
  for lib where
  run_Nil: "remote_run lib s [] s"
| run_Cons: "remote_step lib s ev s' \<Longrightarrow> remote_run lib s' evs s'' \<Longrightarrow> remote_run lib s (ev # evs) s''"

inductive_simps remote_run_Nil [simp]: "remote_run lib s [] s'"
inductive_simps remote_run_Cons: "remote_run lib s (ev # evs) s'"

section \<open>The books of the statistics\<close>

datatype counter = Requests | Samples

definition count_of :: "counter \<Rightarrow> 'z statistics_scheme \<Rightarrow> int" where
  "count_of w st = (case w of Requests \<Rightarrow> RequestCount st | Samples \<Rightarrow> SampleCount st)"

text \<open>What an event adds to a counter, and what it reports of it.\<close>

fun counted :: "counter \<Rightarrow> remote_event \<Rightarrow> int" where
  "counted Requests (Sampled by_rule res) = (if by_rule then 1 else 0)"
| "counted Samples (Sampled by_rule res) = (if by_rule \<and> decision res \<noteq> DROP then 1 else 0)"
| "counted _ _ = 0"

fun reported :: "counter \<Rightarrow> remote_event \<Rightarrow> int" where
  "reported w (TargetsPolled sent refreshed) = sum_list (map (count_of w) sent)"
| "reported w _ = 0"

fun changes_rules :: "remote_event \<Rightarrow> bool" where
  "changes_rules RulesPolled = True"
| "changes_rules (TargetsPolled sent refreshed) = refreshed"
| "changes_rules _ = False"

abbreviation pending_count :: "counter \<Rightarrow> remote_sampler \<Rightarrow> int" where
  "pending_count w s \<equiv> pending (count_of w) (rule_appliers (cache s))"

lemma count_of_new [simp]: "count_of w (new_statistics c n) = 0"
  by (cases w) (simp_all add: count_of_def new_statistics_def)

lemma count_of_snapshot [simp]: "count_of w (snapshot t st) = count_of w st"
  by (cases w) (simp_all add: count_of_def snapshot_def)

lemma count_of_nonneg: "stats_ok st \<Longrightarrow> 0 \<le> count_of w st"
  by (cases w) (auto simp: count_of_def stats_ok_def)

lemma get_all_statistics_sent:
  "sum_list (map (count_of w) (fst (get_all_statistics clk c))) = pending (count_of w) (rule_appliers c)"
proof -
  have "map (count_of w) (fst (get_all_statistics clk c))
      = map (\<lambda>ap. count_of w (stats ap)) (map snd (enumerate 0 (rule_appliers c)))"
    by (simp add: get_all_statistics_def get_then_reset_statistics_def Let_def split_beta
      del: map_snd_enumerate)
  then show ?thesis by (simp add: pending_def)
qed

lemma get_all_statistics_frame:
  "map rule (rule_appliers (snd (get_all_statistics clk c))) = map rule (rule_appliers c)"
  "\<forall>ap \<in> set (rule_appliers (snd (get_all_statistics clk c))).
     stats ap = new_statistics (applier_client_id ap) (applier_name ap)"
proof -
  have "map rule (rule_appliers (snd (get_all_statistics clk c)))
      = map rule (map snd (enumerate 0 (rule_appliers c)))"
    by (simp add: get_all_statistics_def get_then_reset_statistics_def Let_def split_beta
      del: map_snd_enumerate)
  then show "map rule (rule_appliers (snd (get_all_statistics clk c))) = map rule (rule_appliers c)"
    by simp
  show "\<forall>ap \<in> set (rule_appliers (snd (get_all_statistics clk c))).
     stats ap = new_statistics (applier_client_id ap) (applier_name ap)"
    by (auto simp: get_all_statistics_def get_then_reset_statistics_def Let_def split_beta)
qed

lemma get_all_statistics_pending:
  "pending (count_of w) (rule_appliers (snd (get_all_statistics clk c))) = 0"
proof -
  have "map (\<lambda>ap. count_of w (stats ap)) (rule_appliers (snd (get_all_statistics clk c)))
      = map (\<lambda>_. 0) (rule_appliers (snd (get_all_statistics clk c)))"
    using get_all_statistics_frame(2) [of clk c] by simp
  then show ?thesis unfolding pending_def by (simp only: sum_list_0)
qed

lemma get_all_statistics_ok: "cache_ok c \<Longrightarrow> cache_ok (snd (get_all_statistics clk c))"
proof -
  assume ok: "cache_ok c"
  have "list_all stats_ok (map stats (rule_appliers (snd (get_all_statistics clk c))))"
    using get_all_statistics_frame(2) [of clk c] by (auto simp: list_all_iff)
  then show ?thesis
    using ok unfolding cache_ok_alt get_all_statistics_frame(1) by blast
qed


lemma applier_counts:
  "count_of w (stats (snd (applier_should_sample lib t1 t2 req ap)))
     = count_of w (stats ap) + counted w (Sampled True (fst (applier_should_sample lib t1 t2 req ap)))"
  using applier_should_sample_counts [of lib t1 t2 req ap]
  by (cases w) (simp_all add: count_of_def)

lemma cache_sample_books:
  assumes "rule_cache_should_sample lib t1 t2 req c = Inr (by_rule, res, c')" and "cache_ok c"
  shows "cache_ok c' \<and> pending (count_of w) (rule_appliers c')
    = pending (count_of w) (rule_appliers c) + counted w (Sampled by_rule res)"
proof -
  obtain r where r: "first_match lib (cache_resource c) t1 t2 req (rule_appliers c) = Inr r"
    using assms(1) by (auto simp: rule_cache_should_sample_def bindr_eq_Inr)
  show ?thesis
  proof (cases r)
    case None
    with assms r show ?thesis
      by (cases w) (auto simp: rule_cache_should_sample_def cache_ok_def split_beta Let_def)
  next
    case (Some ra)
    then obtain aps where ra: "r = Some (res, aps)" and out: "by_rule" "c' = c\<lparr>rule_appliers := aps\<rparr>"
      using assms(1) r by (auto simp: rule_cache_should_sample_def split: prod.splits)
    then obtain pre ap post where "rule_appliers c = pre @ ap # post"
        "res = fst (applier_should_sample lib t1 t2 req ap)"
        "aps = pre @ snd (applier_should_sample lib t1 t2 req ap) # post"
      using r unfolding ra first_match_split by blast
    then show ?thesis
      using assms(2) out
      by (auto simp: cache_ok_def applier_counts applier_should_sample_ok)
  qed
qed

lemma update_rules_books:
  assumes "update_sampling_rules lib clk rules c = Inr c'" and "cache_ok c"
    and "distinct (map RuleName rules)"
  shows "pending (count_of w) (rule_appliers c') \<le> pending (count_of w) (rule_appliers c)"
proof (rule pending_le)
  show "distinct (map applier_name (rule_appliers c'))"
    using update_sampling_rules_ok [OF assms] by (simp add: cache_ok_def)
  show "distinct (map applier_name (rule_appliers c))" using assms(2) by (simp add: cache_ok_def)
  show "\<forall>ap \<in> set (rule_appliers c'). ap \<in> set (rule_appliers c) \<or> count_of w (stats ap) = 0"
    using update_sampling_rules_appliers [OF assms(1)] by fastforce
  show "\<forall>ap \<in> set (rule_appliers c). 0 \<le> count_of w (stats ap)"
    using assms(2) by (simp add: cache_ok_def count_of_nonneg)
qed

lemma update_targets_pending:
  assumes "update_sampling_targets lib clk response c = (r, c')"
  shows "pending (count_of w) (rule_appliers c') = pending (count_of w) (rule_appliers c)"
proof -
  have "map (\<lambda>st. count_of w st) (map stats (rule_appliers c'))
      = map (\<lambda>st. count_of w st) (map stats (rule_appliers c))"
    by (simp only: update_sampling_targets_same(1) [OF assms])
  then show ?thesis by (simp add: pending_def comp_def)
qed

lemma get_and_update_rules_books:
  assumes "get_and_update_sampling_rules lib clk reply s = Inr s'" and "cache_ok (cache s)"
    and "unique_names reply"
  shows "cache_ok (cache s')" and "pending_count w s' \<le> pending_count w s"
proof -
  obtain c where c: "update_sampling_rules lib clk (get_sampling_rules reply) (cache s) = Inr c"
      "s' = s\<lparr>cache := c\<rparr>"
    using assms(1) by (auto simp: get_and_update_sampling_rules_def bindr_eq_Inr)
  have d: "distinct (map RuleName (get_sampling_rules reply))"
    using assms(3) by (simp add: unique_names_def)
  show "cache_ok (cache s')" using update_sampling_rules_ok [OF c(1) assms(2) d] c(2) by simp
  show "pending_count w s' \<le> pending_count w s"
    using update_rules_books [OF c(1) assms(2) d] c(2) by simp
qed

lemma target_poll_books:
  assumes poll: "start_sampling_target_poller lib clk0 clk1 clk2 reply rules s = (sent, refreshed, s')"
    and ok: "cache_ok (cache s)" and names: "unique_names rules"
  shows "cache_ok (cache s')"
    and "sum_list (map (count_of w) sent) = pending_count w s"
    and "pending_count w s' = 0"
proof -
  define c1 where "c1 = snd (get_all_statistics clk0 (cache s))"
  obtain out c2 where up: "update_sampling_targets lib clk1 (get_sampling_targets reply) c1 = (out, c2)"
    by (metis surj_pair)
  have ok1: "cache_ok c1" unfolding c1_def using ok by (rule get_all_statistics_ok)
  have ok2: "cache_ok c2" using cache_ok_same [OF update_sampling_targets_same(1,2) [OF up] ok1] .
  have zero: "pending (count_of w) (rule_appliers c2) = 0" for w
    using update_targets_pending [OF up] get_all_statistics_pending by (simp add: c1_def)
  have "sent = fst (get_all_statistics clk0 (cache s))"
    using poll by (auto simp: start_sampling_target_poller_def get_and_update_sampling_targets_def
        Let_def split: prod.splits option.splits sum.splits)
  then show "sum_list (map (count_of w) sent) = pending_count w s"
    by (simp add: get_all_statistics_sent)
  have end_state: "cache s' = c2 \<or> (\<exists>s3. get_and_update_sampling_rules lib clk2 rules (s\<lparr>cache := c2\<rparr>)
      = Inr s3 \<and> cache s' = cache s3)"
    using poll up unfolding c1_def
    by (auto simp: start_sampling_target_poller_def get_and_update_sampling_targets_def
        Let_def split: prod.splits option.splits sum.splits if_splits)
  then show "cache_ok (cache s')"
    using ok2 get_and_update_rules_books(1) names by fastforce
  have le: "pending_count w s' \<le> 0"
    using end_state zero get_and_update_rules_books(2) [of lib clk2 rules "s\<lparr>cache := c2\<rparr>"] ok2 names
    by fastforce
  have "0 \<le> pending_count w s'"
    unfolding pending_def using \<open>cache_ok (cache s')\<close>
    by (intro sum_list_nonneg) (auto simp: cache_ok_def count_of_nonneg)
  with le show "pending_count w s' = 0" by simp
qed

lemma remote_step_books:
  assumes "remote_step lib s ev s'" and "cache_ok (cache s)"
  shows "cache_ok (cache s')
    \<and> pending_count w s' + reported w ev \<le> pending_count w s + counted w ev
    \<and> (changes_rules ev \<or> pending_count w s' + reported w ev = pending_count w s + counted w ev)"
  using assms
proof (cases rule: remote_step.cases)
  case (step_sample clock req by_rule res)
  obtain t0 t1 t2 where clock: "clock = (t0, t1, t2)" by (metis surj_pair)
  show ?thesis
  proof (cases "cache_expired t0 (cache s)")
    case True
    with step_sample clock assms(2) show ?thesis
      by (cases w) (auto simp: remote_should_sample_def split_beta Let_def cache_ok_def)
  next
    case False
    then obtain c where "rule_cache_should_sample lib t1 t2 req (cache s) = Inr (by_rule, res, c)"
        "s' = s\<lparr>cache := c\<rparr>"
      using step_sample clock by (auto simp: remote_should_sample_def bindr_eq_Inr)
    with cache_sample_books [OF this(1) assms(2)] step_sample show ?thesis by simp
  qed
next
  case (step_raise clock req e)
  with assms(2) show ?thesis by (cases w) simp_all
next
  case (step_rules reply clk)
  with assms(2) show ?thesis
    using get_and_update_rules_books [of lib clk reply s]
    by (cases w) (auto simp: start_sampling_rule_poller_def split: sum.splits)
next
  case (step_targets rules clk0 clk1 clk2 reply sent refreshed)
  note books = target_poll_books [OF step_targets(4) assms(2) step_targets(3)]
  show ?thesis using books step_targets(1) by (cases w) auto
qed

lemma remote_run_books:
  "remote_run lib s evs s' \<Longrightarrow> cache_ok (cache s) \<Longrightarrow>
     cache_ok (cache s')
     \<and> pending_count w s' + sum_list (map (reported w) evs)
         \<le> pending_count w s + sum_list (map (counted w) evs)
     \<and> (list_ex changes_rules evs \<or> pending_count w s' + sum_list (map (reported w) evs)
         = pending_count w s + sum_list (map (counted w) evs))"
proof (induction rule: remote_run.induct)
  case (run_Nil s)
  then show ?case by simp
next
  case (run_Cons s ev s' evs s'')
  from remote_step_books [OF run_Cons.hyps(1) run_Cons.prems, of w] run_Cons.IH
  show ?case by auto
qed

lemma target_poll_rules_timer:
  assumes "start_sampling_target_poller lib clk0 clk1 clk2 reply rules s = (sent, refreshed, s')"
  shows "rules_timer s' = rules_timer s"
  using assms
  by (auto simp: start_sampling_target_poller_def get_and_update_sampling_targets_def Let_def
      get_and_update_sampling_rules_def bindr_eq_Inr
      split: prod.splits option.splits sum.splits if_splits)

section \<open>The wrapper that always records\<close>

text \<open>
  A sampler, as its callers see it: it answers a request, or raises, and every answer leaves it in
  a good state. \<open>'i\<close> stands for what it reads from its environment, the clock.
\<close>

locale sampler =
  fixes ask :: "'i \<Rightarrow> 'a request \<Rightarrow> 's \<Rightarrow> ('a sampling_result \<times> 's) res"
    and good :: "'s \<Rightarrow> bool"
  assumes ask_good: "good s \<Longrightarrow> ask i req s = Inr (res, s') \<Longrightarrow> good s'"

definition wrap_result_with_record_only_result ::
    "'a sampling_result \<Rightarrow> (string \<times> 'a) list option \<Rightarrow> 'a sampling_result" where
  "wrap_result_with_record_only_result result attributes =
     \<lparr>decision = RECORD_ONLY, res_attributes = attributes, res_trace_state = res_trace_state result\<rparr>"

definition always_record_should_sample ::
    "('i \<Rightarrow> 'a request \<Rightarrow> 's \<Rightarrow> ('a sampling_result \<times> 's) res)
      \<Rightarrow> 'i \<Rightarrow> 'a request \<Rightarrow> 's \<Rightarrow> ('a sampling_result \<times> 's) res" where
  "always_record_should_sample root_sampler i req s =
     bindr (root_sampler i req s) (\<lambda>(result, s').
       if decision result = DROP
       then Inr (wrap_result_with_record_only_result result (req_attributes req), s')
       else Inr (result, s'))"

definition always_record_description :: "string \<Rightarrow> string" where
  "always_record_description description = ''AlwaysRecordSampler{'' @ description @ ''}''"

context sampler begin

text \<open>Wrapping changes the decision DROP only, and nothing about the state of the root sampler.\<close>

lemma wrapped_cases:
  "always_record_should_sample ask i req s = Inr (res, s') \<longleftrightarrow>
     (\<exists>root. ask i req s = Inr (root, s')
       \<and> res = (if decision root = DROP
                then \<lparr>decision = RECORD_ONLY, res_attributes = req_attributes req,
                      res_trace_state = res_trace_state root\<rparr>
                else root))"
  by (cases "ask i req s")
    (auto simp: always_record_should_sample_def wrap_result_with_record_only_result_def)

lemma wrapped_raises:
  "always_record_should_sample ask i req s = Inl e \<longleftrightarrow> ask i req s = Inl e"
  by (cases "ask i req s") (auto simp: always_record_should_sample_def split: if_splits)

lemma wrapped_sampler: "sampler (always_record_should_sample ask) good"
  by unfold_locales (auto simp: wrapped_cases intro: ask_good)

lemma wrapped_books:
  assumes "good s" and "always_record_should_sample ask i req s = Inr (res, s')"
  shows "decision res \<noteq> DROP" and "good s'"
    and "\<exists>root. ask i req s = Inr (root, s')
      \<and> (decision res = RECORD_AND_SAMPLE \<longleftrightarrow> decision root = RECORD_AND_SAMPLE)
      \<and> res_trace_state res = res_trace_state root"
proof -
  obtain r where r: "ask i req s = Inr (r, s')"
      and res: "res = (if decision r = DROP then \<lparr>decision = RECORD_ONLY,
        res_attributes = req_attributes req, res_trace_state = res_trace_state r\<rparr> else r)"
    using assms(2) unfolding wrapped_cases by blast
  show "decision res \<noteq> DROP" using res by simp
  show "good s'" using assms(1) r by (rule ask_good)
  show "\<exists>root. ask i req s = Inr (root, s')
      \<and> (decision res = RECORD_AND_SAMPLE \<longleftrightarrow> decision root = RECORD_AND_SAMPLE)
      \<and> res_trace_state res = res_trace_state root"
    using r res by auto
qed

end

text \<open>The X-Ray sampler provides the interface, without the flag of the model.\<close>

definition remote_ask ::
    "aval sdk \<Rightarrow> instant \<times> instant \<times> instant \<Rightarrow> aval request \<Rightarrow> remote_sampler
      \<Rightarrow> (aval sampling_result \<times> remote_sampler) res" where
  "remote_ask lib clock req s =
     bindr (remote_should_sample lib clock req s) (\<lambda>(by_rule, res, s'). Inr (res, s'))"

interpretation xray: sampler "remote_ask lib" "\<lambda>s. cache_ok (cache s)" for lib
proof unfold_locales
  fix s i req res s'
  assume ok: "cache_ok (cache s)" and ask: "remote_ask lib i req s = Inr (res, s')"
  then obtain by_rule where "remote_should_sample lib i req s = Inr (by_rule, res, s')"
    by (auto simp: remote_ask_def bindr_eq_Inr)
  then have "remote_step lib s (Sampled by_rule res) s'" by (rule step_sample)
  from remote_step_books [OF this ok] show "cache_ok (cache s')" by blast
qed

interpretation always_xray: sampler "always_record_should_sample (remote_ask lib)"
    "\<lambda>s. cache_ok (cache s)" for lib
  by (rule xray.wrapped_sampler)

section \<open>Properties\<close>


definition demo_sampler :: remote_sampler where
  "demo_sampler = (new_remote_sampler None None (\<lambda>i. i) 1 0
     \<lparr>datetime_us = 0, millis = 0\<rparr> \<lparr>datetime_us = 0, millis = 0\<rparr>)
     \<lparr>cache := demo_cache\<rparr>"

lemma demo_sampler_ok: "cache_ok (cache demo_sampler)"
  by (simp add: demo_sampler_def demo_cache_def cache_ok_def supported_def demo_rule_def)


text \<open>C26: the poll of the rules sets its timer again exactly when the SDK accepts the rate of every
  supported rule of the response. After an exception the timer stays dead for good: in no
  continuation of the run are the rules polled on it again.\<close>

theorem rules_timer_survives:
  "(rules_timer (start_sampling_rule_poller lib clk reply s) \<noteq> None \<longleftrightarrow>
      (\<forall>r \<in> set (get_sampling_rules reply). supported r \<longrightarrow> ratio_error lib (FixedRate r) = None))
   \<and> (remote_run lib s evs s' \<longrightarrow> rules_timer s = None \<longrightarrow>
      rules_timer s' = None \<and> RulesPolled \<notin> set evs)"
proof (intro conjI impI)
  have "(\<exists>c'. update_sampling_rules lib clk (get_sampling_rules reply) (cache s) = Inr c') \<longleftrightarrow>
      rules_timer (start_sampling_rule_poller lib clk reply s) \<noteq> None"
    by (auto simp: start_sampling_rule_poller_def get_and_update_sampling_rules_def bindr_def
        split: sum.splits)
  then show "rules_timer (start_sampling_rule_poller lib clk reply s) \<noteq> None \<longleftrightarrow>
      (\<forall>r \<in> set (get_sampling_rules reply). supported r \<longrightarrow> ratio_error lib (FixedRate r) = None)"
    using update_sampling_rules_exists by blast
next
  assume run: "remote_run lib s evs s'" and none: "rules_timer s = None"
  have step: "rules_timer t' = None \<and> ev \<noteq> RulesPolled"
    if "remote_step lib t ev t'" "rules_timer t = None" for t ev t'
    using that(1)
  proof (cases rule: remote_step.cases)
    case (step_sample clock req by_rule res)
    then show ?thesis
      using that(2)
      by (auto simp: remote_should_sample_def bindr_eq_Inr split_beta Let_def split: if_splits)
  next
    case (step_targets rules clk0 clk1 clk2 reply sent refreshed)
    then show ?thesis using that(2) target_poll_rules_timer by auto
  qed (use that(2) in simp_all)
  have "rules_timer s' = None \<and> RulesPolled \<notin> set evs"
    using run none by (induction rule: remote_run.induct) (use step in auto)
  then show "rules_timer s' = None" and "RulesPolled \<notin> set evs" by simp_all
qed

theorem rules_timer_survives_witness:
  "rules_timer (start_sampling_rule_poller accepting_sdk (\<lambda>_. \<lparr>datetime_us = 0, millis = 0\<rparr>)
     NoResponse demo_sampler) \<noteq> None"
  by (subst rules_timer_survives [THEN conjunct1]) (simp add: get_sampling_rules_def)

text \<open>C27: the wrapper records everything and changes no sampling decision. Around the X-Ray sampler it
  never answers DROP, it samples exactly the requests the X-Ray sampler samples, it passes on that
  sampler's trace state and raises exactly when it raises, and a DROP becomes RECORD_ONLY with the
  attributes of the request.\<close>

theorem always_record_never_drops:
  assumes "cache_ok (cache s)"
  shows "(always_record_should_sample (remote_ask lib) clock req s = Inl e \<longleftrightarrow>
      remote_ask lib clock req s = Inl e)
    \<and> (always_record_should_sample (remote_ask lib) clock req s = Inr (res, s') \<longrightarrow>
      decision res \<noteq> DROP \<and> cache_ok (cache s')
      \<and> (\<exists>root. remote_ask lib clock req s = Inr (root, s')
        \<and> (decision res = RECORD_AND_SAMPLE \<longleftrightarrow> decision root = RECORD_AND_SAMPLE)
        \<and> (decision root = DROP \<longrightarrow> decision res = RECORD_ONLY
             \<and> res_attributes res = req_attributes req)
        \<and> res_trace_state res = res_trace_state root))"
proof (intro conjI impI)
  show "always_record_should_sample (remote_ask lib) clock req s = Inl e \<longleftrightarrow>
      remote_ask lib clock req s = Inl e"
    by (rule xray.wrapped_raises)
next
  assume out: "always_record_should_sample (remote_ask lib) clock req s = Inr (res, s')"
  show "decision res \<noteq> DROP" "cache_ok (cache s')"
    using xray.wrapped_books [of s lib clock req, OF assms out] by simp_all
  show "\<exists>root. remote_ask lib clock req s = Inr (root, s')
        \<and> (decision res = RECORD_AND_SAMPLE \<longleftrightarrow> decision root = RECORD_AND_SAMPLE)
        \<and> (decision root = DROP \<longrightarrow> decision res = RECORD_ONLY
             \<and> res_attributes res = req_attributes req)
        \<and> res_trace_state res = res_trace_state root"
    using out unfolding xray.wrapped_cases by auto
qed

theorem always_record_never_drops_witness:
  "\<exists>res s'. always_record_should_sample (remote_ask accepting_sdk)
       (\<lparr>datetime_us = 0, millis = 0\<rparr>, \<lparr>datetime_us = 0, millis = 0\<rparr>, \<lparr>datetime_us = 0, millis = 0\<rparr>)
       \<lparr>trace_id = 7, req_attributes = Some [], req_trace_state = None\<rparr> demo_sampler = Inr (res, s')
     \<and> decision res \<noteq> DROP"
proof -
  define t where "t = \<lparr>datetime_us = 0, millis = 0\<rparr>"
  define req :: "aval request" where
    "req = \<lparr>trace_id = 7, req_attributes = Some [], req_trace_state = None\<rparr>"
  have "matches (Some []) (Some []) (hd (rule_appliers demo_cache)) = Inr True"
    by (simp add: demo_cache_def matches_def demo_rule_def request_path_def
      attribute_match_def wild_card_match_def get_arn_def get_or_def)
  then have "\<exists>out. remote_ask accepting_sdk (t, t, t) req demo_sampler = Inr out"
    by (simp add: remote_ask_def remote_should_sample_def demo_sampler_def cache_expired_def t_def
      demo_cache_def time_delta_def cache_ttl_seconds_def rule_cache_should_sample_def req_def
      split_beta Let_def)
  then have "\<exists>res s'. always_record_should_sample (remote_ask accepting_sdk) (t, t, t) req demo_sampler
      = Inr (res, s')"
    unfolding always_record_should_sample_def by (auto simp: split_beta)
  then obtain res s' where out: "always_record_should_sample (remote_ask accepting_sdk) (t, t, t) req
      demo_sampler = Inr (res, s')" by blast
  have "decision res \<noteq> DROP"
    using always_record_never_drops [OF demo_sampler_ok] out by blast
  with out show ?thesis unfolding t_def req_def by blast
qed

end
