(* ===== verification/Spans.thy ===== *)
theory Spans
  imports Attributes PyUrl
begin

text \<open>
  Spans as the SDK hands them to the processors, and the predicates and derived values of
  \<open>_aws_span_processing_util.py\<close> and \<open>_aws_resource_attribute_configurator.py\<close>.

  A value of an attribute may have any type. Where the code calls a method of \<open>str\<close> on it, or adds
  it to a string, a value of another type raises as in Python; where it compares, it just differs.
  In particular a member of an enumeration (\<open>SpanKind\<close>, \<open>MessagingOperationValues\<close>) is equal to
  itself only, never to its name.
\<close>

section \<open>Spans\<close>

datatype span_kind = INTERNAL | SERVER | CLIENT | PRODUCER | CONSUMER

definition kind_name :: "span_kind \<Rightarrow> string" where
  "kind_name k =
     (case k of INTERNAL \<Rightarrow> ''INTERNAL'' | SERVER \<Rightarrow> ''SERVER'' | CLIENT \<Rightarrow> ''CLIENT''
      | PRODUCER \<Rightarrow> ''PRODUCER'' | CONSUMER \<Rightarrow> ''CONSUMER'')"

datatype status_code = UNSET | OK | ERROR

record span_context =
  ctx_trace_id :: int
  ctx_span_id :: int
  is_valid :: bool
  is_remote :: bool
  sampled :: bool

record span =
  span_name :: "string option"
  kind :: span_kind
  parent :: "span_context option"
  span_ctx :: span_context
  attributes :: attrs
  instrumentation_scope :: "string option option"
  status :: status_code
  start_time :: int
  end_time :: int
  resource :: attrs

text \<open>
  What the code reads from outside: the environment variables, and \<open>str()\<close> of a value that is a
  float, a sequence or an enumeration member, which is Python's formatting.
\<close>

record runtime =
  environ :: "(string \<times> string) list"
  str_of :: "aval \<Rightarrow> string"

definition py_str :: "runtime \<Rightarrow> aval \<Rightarrow> string" where
  "py_str rt v =
     (case v of AStr s \<Rightarrow> s | ABool b \<Rightarrow> (if b then ''True'' else ''False'') | AInt i \<Rightarrow> int_str i
      | _ \<Rightarrow> str_of rt v)"

text \<open>\<open>a + b\<close> where \<open>b\<close> is a string.\<close>

definition add_str :: "aval \<Rightarrow> string \<Rightarrow> string res" where
  "add_str a b = (case a of AStr s \<Rightarrow> Inr (s @ b) | _ \<Rightarrow> Inl TypeError)"

definition get :: "span \<Rightarrow> string \<Rightarrow> aval option" where
  "get sp key = map_of (attributes sp) key"

definition set_attribute :: "string \<Rightarrow> aval \<Rightarrow> span \<Rightarrow> span" where
  "set_attribute key v sp = sp\<lparr>attributes := AList.update key v (attributes sp)\<rparr>"

lemma get_set_attribute [simp]:
  "get (set_attribute k v sp) k' = (if k' = k then Some v else get sp k')"
  by (simp add: get_def set_attribute_def)

section \<open>Constants\<close>

definition unknown_service :: string where "unknown_service = ''UnknownService''"
definition unknown_operation :: string where "unknown_operation = ''UnknownOperation''"
definition unknown_remote_service :: string where "unknown_remote_service = ''UnknownRemoteService''"
definition unknown_remote_operation :: string where
  "unknown_remote_operation = ''UnknownRemoteOperation''"
definition internal_operation :: string where "internal_operation = ''InternalOperation''"
definition local_root :: string where "local_root = ''LOCAL_ROOT''"
definition boto3sqs_instrumentation_scope :: string where
  "boto3sqs_instrumentation_scope = ''opentelemetry.instrumentation.boto3sqs''"

section \<open>Predicates on spans\<close>

definition is_key_present :: "span \<Rightarrow> string \<Rightarrow> bool" where
  "is_key_present sp key \<longleftrightarrow> get sp key \<noteq> None"

definition is_aws_sdk_span :: "span \<Rightarrow> bool" where
  "is_aws_sdk_span sp \<longleftrightarrow> get sp ''rpc.system'' = Some (AStr ''aws-api'')"

definition is_db_span :: "span \<Rightarrow> bool" where
  "is_db_span sp \<longleftrightarrow>
     is_key_present sp ''db.system''
     \<or> is_key_present sp ''db.operation''
     \<or> is_key_present sp ''db.statement''"

definition is_local_root :: "span \<Rightarrow> bool" where
  "is_local_root sp \<longleftrightarrow>
     (case parent sp of None \<Rightarrow> True | Some p \<Rightarrow> \<not> is_valid p \<or> is_remote p)"

definition should_use_internal_operation :: "span \<Rightarrow> bool" where
  "should_use_internal_operation sp \<longleftrightarrow> is_local_root sp \<and> \<not> SERVER = kind sp"

definition is_boto3sqs_span :: "span \<Rightarrow> bool" where
  "is_boto3sqs_span sp \<longleftrightarrow>
     (case instrumentation_scope sp of
        Some (Some scope) \<Rightarrow> py_casefold boto3sqs_instrumentation_scope = py_casefold scope
      | _ \<Rightarrow> False)"

text \<open>The enumeration members that the code compares attribute values with.\<close>

definition process_operation :: aval where
  "process_operation = AEnum ''MessagingOperationValues.PROCESS''"

definition consumer_kind :: aval where
  "consumer_kind = AEnum ''SpanKind.CONSUMER''"

definition is_consumer_process_span :: "span \<Rightarrow> bool" where
  "is_consumer_process_span sp \<longleftrightarrow>
     CONSUMER = kind sp \<and> get sp ''messaging.operation'' = Some process_operation"

definition is_dependency_consumer_span :: "span \<Rightarrow> bool" where
  "is_dependency_consumer_span sp \<longleftrightarrow>
     (if CONSUMER \<noteq> kind sp then False
      else if is_consumer_process_span sp then
        (if is_local_root sp then True
         else get sp ''aws.consumer.parent.span.kind'' \<noteq> Some consumer_kind)
      else True)"

definition should_generate_service_metric_attributes :: "span \<Rightarrow> bool" where
  "should_generate_service_metric_attributes sp \<longleftrightarrow>
     (is_local_root sp \<and> \<not> is_boto3sqs_span sp) \<or> SERVER = kind sp"

definition should_generate_dependency_metric_attributes :: "span \<Rightarrow> bool" where
  "should_generate_dependency_metric_attributes sp \<longleftrightarrow>
     CLIENT = kind sp
     \<or> (PRODUCER = kind sp \<and> \<not> is_boto3sqs_span sp)
     \<or> (is_dependency_consumer_span sp \<and> \<not> is_boto3sqs_span sp)"

section \<open>Operations\<close>

definition extract_api_path_value :: "string option \<Rightarrow> string" where
  "extract_api_path_value http_target =
     (case http_target of
        None \<Rightarrow> ''/''
      | Some target \<Rightarrow>
          if length target = 0 then ''/''
          else let paths = py_split (CHR ''/'') target
               in if length paths > 1 then ''/'' @ (paths ! 1) else ''/'')"

text \<open>
  The same function on an attribute value: \<open>len\<close> refuses a number, \<open>split\<close> everything but a
  string.
\<close>

definition api_path_of :: "aval \<Rightarrow> string res" where
  "api_path_of v =
     (case v of
        AStr s \<Rightarrow> Inr (extract_api_path_value (Some s))
      | _ \<Rightarrow> bindr (py_len v) (\<lambda>n. if n = 0 then Inr ''/'' else Inl AttributeError))"

text \<open>
  \<open>urlparse\<close> on an attribute value: what is no string is decoded, when it is not empty or zero,
  and has no such method.
\<close>

definition urlparse_value :: "aval \<Rightarrow> parse_result res" where
  "urlparse_value v =
     (case v of AStr s \<Rightarrow> urlparse s
      | _ \<Rightarrow> if truthy v then Inl AttributeError else urlparse [])"

definition is_valid_operation :: "span \<Rightarrow> string option \<Rightarrow> bool" where
  "is_valid_operation sp operation \<longleftrightarrow>
     (if operation = None \<or> operation = Some unknown_operation then False
      else if is_key_present sp ''http.method''
      then map_option AStr operation \<noteq> get sp ''http.method''
      else True)"

definition generate_ingress_operation :: "span \<Rightarrow> string res" where
  "generate_ingress_operation sp =
     bindr (case get sp ''http.target'' of
              Some target \<Rightarrow> Inr (Some target)
            | None \<Rightarrow>
                (case get sp ''http.url'' of
                   Some url \<Rightarrow> bindr (urlparse_value url) (\<lambda>r. Inr (Some (AStr (path r))))
                 | None \<Rightarrow> Inr None)) (\<lambda>http_path.
       case http_path of
         None \<Rightarrow> Inr unknown_operation
       | Some p \<Rightarrow>
           bindr (api_path_of p) (\<lambda>operation.
             case get sp ''http.method'' of
               Some http_method \<Rightarrow> bindr (add_str http_method '' '') (\<lambda>m. Inr (m @ operation))
             | None \<Rightarrow> Inr operation))"

definition get_ingress_operation :: "runtime \<Rightarrow> span \<Rightarrow> string res" where
  "get_ingress_operation rt sp =
     bindr (case map_of (environ rt) ''AWS_LAMBDA_FUNCTION_NAME'' of
              None \<Rightarrow> Inr None
            | Some function_name \<Rightarrow>
                (case instrumentation_scope sp of
                   None \<Rightarrow> Inl AttributeError
                 | Some scope_name \<Rightarrow>
                     Inr (if scope_name \<noteq> Some ''opentelemetry.instrumentation.flask''
                          then Some function_name else None))) (\<lambda>lambda.
       case lambda of
         Some function_name \<Rightarrow> Inr (function_name @ ''/FunctionHandler'')
       | None \<Rightarrow>
           if should_use_internal_operation sp then Inr internal_operation
           else if \<not> is_valid_operation sp (span_name sp) then generate_ingress_operation sp
           else Inr (the (span_name sp)))"

definition get_egress_operation :: "span \<Rightarrow> aval option" where
  "get_egress_operation sp =
     (if should_use_internal_operation sp then Some (AStr internal_operation)
      else get sp ''aws.local.operation'')"

section \<open>The service of a resource\<close>

definition get_service_attribute :: "attrs \<Rightarrow> (string \<times> bool) res" where
  "get_service_attribute res =
     (case map_of res ''service.name'' of
        None \<Rightarrow> Inr (unknown_service, True)
      | Some v \<Rightarrow>
          bindr (as_str v) (\<lambda>service.
            if py_startswith ''unknown_service'' service then Inr (unknown_service, True)
            else Inr (service, False)))"

section \<open>Lemmas\<close>

lemma kind_name_inj: "kind_name a = kind_name b \<Longrightarrow> a = b"
  by (cases a; cases b) (simp_all add: kind_name_def)

lemma server_span_kinds:
  "kind sp = SERVER \<Longrightarrow> should_generate_service_metric_attributes sp
     \<and> \<not> should_generate_dependency_metric_attributes sp"
  by (simp add: should_generate_service_metric_attributes_def
    should_generate_dependency_metric_attributes_def is_dependency_consumer_span_def)

lemma client_span_dependency:
  "kind sp = CLIENT \<Longrightarrow> should_generate_dependency_metric_attributes sp"
  by (simp add: should_generate_dependency_metric_attributes_def)

lemma internal_span_dependency:
  "kind sp = INTERNAL \<Longrightarrow> \<not> should_generate_dependency_metric_attributes sp"
  by (simp add: should_generate_dependency_metric_attributes_def is_dependency_consumer_span_def)

text \<open>The path of a target is a slash and one segment without a slash.\<close>

lemma extract_api_path_value_segment:
  "\<exists>seg. extract_api_path_value t = CHR ''/'' # seg \<and> CHR ''/'' \<notin> set seg"
proof -
  have "CHR ''/'' \<notin> set (py_split (CHR ''/'') s ! 1)" if "1 < length (py_split (CHR ''/'') s)" for s
    using that by (intro py_split_parts) (rule nth_mem)
  then show ?thesis
    by (auto simp: extract_api_path_value_def Let_def split: option.splits)
qed

lemma extract_api_path_value_target:
  "CHR ''/'' \<notin> set seg \<Longrightarrow> extract_api_path_value (Some (CHR ''/'' # seg @ CHR ''/'' # rest)) = CHR ''/'' # seg"
  by (simp add: extract_api_path_value_def py_split_append)

lemma extract_api_path_value_slash:
  "extract_api_path_value (Some (CHR ''/'' # rest)) = CHR ''/'' # takeWhile (\<lambda>c. c \<noteq> CHR ''/'') rest"
proof -
  have "py_split (CHR ''/'') rest \<noteq> []" by simp
  then have "py_split (CHR ''/'') rest ! 0 = takeWhile (\<lambda>c. c \<noteq> CHR ''/'') rest"
    by (simp add: hd_conv_nth [symmetric] py_split_first)
  then show ?thesis by (simp add: extract_api_path_value_def)
qed

section \<open>Properties\<close>

text \<open>The operation of an incoming request outside Lambda. A local root that is no server gets the
  internal operation and a usable span name is kept; otherwise the operation is the method, a
  blank and the first segment of the target only, so that the rest of the path (identifiers,
  query) never gets into a metric.\<close>

theorem ingress_operation_spec:
  assumes "map_of (environ rt) ''AWS_LAMBDA_FUNCTION_NAME'' = None"
    and "get sp ''http.target'' = Some (AStr (CHR ''/'' # rest))"
    and "get sp ''http.method'' = Some (AStr http_method)"
  shows "get_ingress_operation rt sp = Inr
    (if is_local_root sp \<and> kind sp \<noteq> SERVER then ''InternalOperation''
     else if span_name sp \<notin> {None, Some ''UnknownOperation'', Some http_method}
     then the (span_name sp)
     else http_method @ '' /'' @ takeWhile (\<lambda>c. c \<noteq> CHR ''/'') rest)"
  using assms
  by (auto simp: get_ingress_operation_def should_use_internal_operation_def is_valid_operation_def
    internal_operation_def unknown_operation_def is_key_present_def generate_ingress_operation_def
    api_path_of_def extract_api_path_value_slash add_str_def)

definition demo_span :: span where
  "demo_span =
     \<lparr>span_name = Some ''GET'', kind = SERVER, parent = None,
      span_ctx = \<lparr>ctx_trace_id = 1, ctx_span_id = 2, is_valid = True, is_remote = False, sampled = True\<rparr>,
      attributes = [(''http.method'', AStr ''GET''), (''http.target'', AStr ''/payment/1234'')],
      instrumentation_scope = Some (Some ''flask''), status = UNSET, start_time = 1, end_time = 2,
      resource = []\<rparr>"

theorem ingress_operation_spec_witness:
  "get_ingress_operation \<lparr>environ = [], str_of = (\<lambda>_. [])\<rparr> demo_span = Inr ''GET /payment''"
  by (subst ingress_operation_spec [where rest = "''payment/1234''" and http_method = "''GET''"])
    (simp_all add: get_def demo_span_def is_local_root_def)

text \<open>The suppression of consumer spans whose parent is a consumer never happens. The values of
  span attributes are never enumeration members, and the two comparisons of
  \<open>_is_dependency_consumer_span\<close> are with members, so every CONSUMER sp yields dependency
  metrics (unless it comes from the boto3sqs instrumentation), whatever its parent was.\<close>

theorem consumer_suppression_never_applies:
  assumes "\<forall>v \<in> ran (map_of (attributes sp)). \<forall>member. v \<noteq> AEnum member"
  shows "\<not> is_consumer_process_span sp
    \<and> is_dependency_consumer_span sp = (kind sp = CONSUMER)
    \<and> (kind sp = CONSUMER \<longrightarrow>
        should_generate_dependency_metric_attributes sp = (\<not> is_boto3sqs_span sp))"
proof -
  have "get sp k \<noteq> Some (AEnum m)" for k m
    using assms by (auto simp: get_def ran_def)
  then have "\<not> is_consumer_process_span sp"
    by (simp add: is_consumer_process_span_def process_operation_def)
  then show ?thesis
    by (auto simp: is_dependency_consumer_span_def should_generate_dependency_metric_attributes_def)
qed

theorem consumer_suppression_never_applies_witness:
  "should_generate_dependency_metric_attributes
     (demo_span\<lparr>kind := CONSUMER, attributes := [(''messaging.operation'', AStr ''process''),
        (''aws.consumer.parent.span.kind'', AStr ''CONSUMER'')]\<rparr>)"
  by (subst consumer_suppression_never_applies [THEN conjunct2, THEN conjunct2, rule_format])
    (auto simp: demo_span_def is_boto3sqs_span_def boto3sqs_instrumentation_scope_def py_casefold_def
      lower_char_def ran_def split: if_splits)

end
