(* ===== verification/AwsParsers.thy ===== *)
theory AwsParsers
  imports Prelude
begin

text \<open>
  \<open>sqs_url_parser.py\<close>, \<open>regional_resource_arn_parser.py\<close> and \<open>is_account_id\<close> of \<open>_utils.py\<close>: the
  parts of queue URLs and ARNs. The functions take texts; a caller with an attribute value of
  another type raises before it gets here.
\<close>

section \<open>Definitions\<close>

definition is_account_id :: "string \<Rightarrow> bool" where
  "is_account_id input_str = py_isdigit input_str"

definition is_valid_queue_name :: "string \<Rightarrow> bool" where
  "is_valid_queue_name input_str \<longleftrightarrow>
     \<not> (length input_str = 0 \<or> length input_str > 80)
     \<and> list_all (\<lambda>c. \<not> (c \<noteq> CHR ''_'' \<and> c \<noteq> CHR ''-'' \<and> \<not> char_isalpha c \<and> \<not> char_isdigit c)) input_str"

definition http_schema :: string where "http_schema = ''http://''"
definition https_schema :: string where "https_schema = ''https://''"

definition url_without_protocol :: "string \<Rightarrow> string" where
  "url_without_protocol url = py_replace https_schema [] (py_replace http_schema [] url)"

definition get_queue_name :: "string \<Rightarrow> string option" where
  "get_queue_name url =
     (let split_url = py_split (CHR ''/'') (url_without_protocol url)
      in if length split_url = 3 \<and> is_account_id (split_url ! 1) \<and> is_valid_queue_name (split_url ! 2)
         then Some (split_url ! 2) else None)"

definition parse_url :: "string \<Rightarrow> string option \<times> string option \<times> string option" where
  "parse_url url =
     (let split_url = py_split (CHR ''/'') (url_without_protocol url)
      in if length split_url \<noteq> 3
            \<or> \<not> is_account_id (split_url ! 1)
            \<or> \<not> is_valid_queue_name (split_url ! 2)
            \<or> \<not> py_startswith ''sqs'' (py_lower (split_url ! 0))
         then (None, None, None)
         else let domain_parts = py_split (CHR ''.'') (split_url ! 0)
              in (Some (split_url ! 2), Some (split_url ! 1),
                  if length domain_parts = 4 then Some (domain_parts ! 1) else None))"

definition sqs_account_id :: "string \<Rightarrow> string option" where
  "sqs_account_id url = fst (snd (parse_url url))"

definition sqs_region :: "string \<Rightarrow> string option" where
  "sqs_region url = snd (snd (parse_url url))"

definition get_arn_parts :: "string \<Rightarrow> string list option" where
  "get_arn_parts arn =
     (if arn = [] \<or> \<not> py_startswith ''arn'' arn then None
      else let parts = py_split (CHR '':'') arn
           in if length parts \<ge> 6 \<and> is_account_id (parts ! 4) then Some parts else None)"

definition arn_account_id :: "string \<Rightarrow> string option" where
  "arn_account_id arn = map_option (\<lambda>parts. parts ! 4) (get_arn_parts arn)"

definition arn_region :: "string \<Rightarrow> string option" where
  "arn_region arn = map_option (\<lambda>parts. parts ! 3) (get_arn_parts arn)"

definition extract_dynamodb_table_name_from_arn :: "string \<Rightarrow> string option" where
  "extract_dynamodb_table_name_from_arn arn =
     map_option (\<lambda>parts. py_replace ''table/'' [] (last parts)) (get_arn_parts arn)"

definition extract_kinesis_stream_name_from_arn :: "string \<Rightarrow> string option" where
  "extract_kinesis_stream_name_from_arn arn =
     map_option (\<lambda>parts. py_replace ''stream/'' [] (last parts)) (get_arn_parts arn)"

definition extract_resource_name_from_arn :: "string \<Rightarrow> string option" where
  "extract_resource_name_from_arn arn = map_option last (get_arn_parts arn)"

definition extract_bedrock_agentcore_resource_id_from_arn :: "string \<Rightarrow> string option" where
  "extract_bedrock_agentcore_resource_id_from_arn arn =
     map_option (\<lambda>resource_part. last (py_split (CHR ''/'') resource_part))
       (extract_resource_name_from_arn arn)"

section \<open>Lemmas\<close>

lemma is_account_id_chars: "is_account_id s \<Longrightarrow> c \<in> set s \<Longrightarrow> char_isdigit c"
  by (auto simp: is_account_id_def py_isdigit_def list_all_iff)

lemma digit_not_sep: "char_isdigit c \<Longrightarrow> c \<noteq> CHR ''/'' \<and> c \<noteq> CHR '':''"
  by (intro conjI notI) (simp_all add: char_isdigit_def is_dec_def)

lemma is_account_id_no_sep:
  "is_account_id s \<Longrightarrow> CHR ''/'' \<notin> set s \<and> CHR '':'' \<notin> set s \<and> s \<noteq> []"
proof -
  assume a: "is_account_id s"
  have "\<And>c. c \<in> set s \<Longrightarrow> c \<noteq> CHR ''/'' \<and> c \<noteq> CHR '':''"
    using is_account_id_chars [OF a] digit_not_sep by blast
  moreover have "s \<noteq> []" using a by (simp add: is_account_id_def py_isdigit_def)
  ultimately show ?thesis by blast
qed

lemma is_valid_queue_name_no_slash: "is_valid_queue_name s \<Longrightarrow> CHR ''/'' \<notin> set s \<and> s \<noteq> []"
proof -
  assume s: "is_valid_queue_name s"
  have "\<not> char_isalpha (CHR ''/'')" "\<not> char_isdigit (CHR ''/'')"
    by (simp_all add: char_isalpha_def char_isdigit_def is_dec_def)
  moreover have "list_all (\<lambda>c. c = CHR ''_'' \<or> c = CHR ''-'' \<or> char_isalpha c \<or> char_isdigit c) s"
    using s by (simp add: is_valid_queue_name_def)
  moreover have "s \<noteq> []" using s by (simp add: is_valid_queue_name_def)
  ultimately show ?thesis unfolding list_all_iff by fastforce
qed

text \<open>A doubled separator leaves an empty part after the first.\<close>

lemma empty_part: "[] \<in> set (tl (py_split c (u @ c # c # v)))"
proof (induction u)
  case Nil
  then show ?case by simp
next
  case (Cons x u)
  obtain w ws where ws: "py_split c (u @ c # c # v) = w # ws"
    by (cases "py_split c (u @ c # c # v)") auto
  with Cons show ?case by simp
qed

lemma no_doubled_slash:
  assumes "CHR ''/'' \<notin> set a" and "CHR ''/'' \<notin> set b" and "CHR ''/'' \<notin> set d"
    and "b \<noteq> []" and "d \<noteq> []"
  shows "\<not> py_in ''//'' (a @ ''/'' @ b @ ''/'' @ d)"
proof
  assume "py_in ''//'' (a @ ''/'' @ b @ ''/'' @ d)"
  then obtain u v where uv: "a @ ''/'' @ b @ ''/'' @ d = u @ ''//'' @ v" by (auto simp: py_in_iff)
  have "py_split (CHR ''/'') (a @ ''/'' @ b @ ''/'' @ d) = [a, b, d]"
    using assms by (simp add: py_split_append py_split_no_sep)
  moreover have "[] \<in> set (tl (py_split (CHR ''/'') (u @ ''//'' @ v)))"
    using empty_part [of "CHR ''/''" u v] by simp
  ultimately have "[] \<in> set (tl [a, b, d])" by (simp only: uv)
  then show False using assms(4,5) by simp
qed

lemma py_in_mono: "py_in (p @ q) s \<Longrightarrow> py_in q s"
  by (auto simp: py_in_iff) (metis append.assoc)

lemma url_without_protocol_https:
  assumes "\<not> py_in ''//'' s"
  shows "url_without_protocol (https_schema @ s) = s" and "url_without_protocol s = s"
proof -
  have http: "\<not> py_in ''http://'' s" using py_in_mono [of "''http:''" "''//''" s] assms by auto
  have https: "\<not> py_in ''https://'' s" using py_in_mono [of "''https:''" "''//''" s] assms by auto
  have "py_replace ''http://'' [] (''https://'' @ s) = ''https://'' @ py_replace ''http://'' [] s"
    by simp
  also have "py_replace ''http://'' [] s = s" using http by (rule py_replace_absent)
  finally have "url_without_protocol (https_schema @ s) = py_replace ''https://'' [] (''https://'' @ s)"
    by (simp add: url_without_protocol_def http_schema_def https_schema_def del: py_replace.simps)
  also have "\<dots> = py_replace ''https://'' [] s"
    using py_replace_prefix [of "''https://''" "[]" s] by simp
  also have "\<dots> = s" using https by (rule py_replace_absent)
  finally show "url_without_protocol (https_schema @ s) = s" .
  show "url_without_protocol s = s"
    unfolding url_without_protocol_def http_schema_def https_schema_def
    by (simp only: py_replace_absent [OF http] py_replace_absent [OF https])
qed

section \<open>Properties\<close>

text \<open>C29: a queue URL is taken apart into the parts it was made of: for every region without dots and
  slashes, every account of digits and every valid queue name, with and without the scheme, the
  parser returns exactly that name, account and region.\<close>

theorem sqs_url_roundtrip:
  assumes "CHR ''.'' \<notin> set region" and "CHR ''/'' \<notin> set region"
    and "is_account_id account" and "is_valid_queue_name queue"
    and "url = ''sqs.'' @ region @ ''.amazonaws.com/'' @ account @ ''/'' @ queue"
  shows "parse_url (''https://'' @ url) = (Some queue, Some account, Some region)
    \<and> parse_url url = (Some queue, Some account, Some region)
    \<and> get_queue_name url = Some queue \<and> sqs_account_id url = Some account
    \<and> sqs_region url = Some region"
proof -
  define domain where "domain = ''sqs.'' @ region @ ''.amazonaws.com''"
  have acc: "CHR ''/'' \<notin> set account" "account \<noteq> []"
    using is_account_id_no_sep [OF assms(3)] by auto
  have q: "CHR ''/'' \<notin> set queue" "queue \<noteq> []"
    using is_valid_queue_name_no_slash [OF assms(4)] by auto
  have dom: "CHR ''/'' \<notin> set domain" using assms(2) by (simp add: domain_def)
  have url: "url = domain @ ''/'' @ account @ ''/'' @ queue" by (simp add: domain_def assms(5))
  have no: "\<not> py_in ''//'' url" unfolding url using dom acc q by (intro no_doubled_slash)
  have plain: "url_without_protocol url = url" "url_without_protocol (''https://'' @ url) = url"
    using url_without_protocol_https [OF no] by (simp_all only: https_schema_def)
  have parts: "py_split (CHR ''/'') url = [domain, account, queue]"
    unfolding url using dom acc q by (simp add: py_split_append py_split_no_sep)
  have dots: "py_split (CHR ''.'') domain = [''sqs'', region, ''amazonaws'', ''com'']"
    using assms(1) py_split_append [of "CHR ''.''" region] by (simp add: domain_def)
  have low: "prefix ''sqs'' (py_lower domain)"
    by (simp add: domain_def py_lower_def lower_char_def)
  show ?thesis
    using assms(3,4) low
    by (simp add: parse_url_def get_queue_name_def sqs_account_id_def sqs_region_def plain(1)
      plain(2) [simplified] parts dots)
qed

theorem sqs_url_roundtrip_witness:
  "parse_url ''https://sqs.us-east-1.amazonaws.com/123456789012/Orders''
     = (Some ''Orders'', Some ''123456789012'', Some ''us-east-1'')"
  using sqs_url_roundtrip [of "''us-east-1''" "''123456789012''" "''Orders''" _, OF _ _ _ _ refl]
  by (simp add: is_account_id_def py_isdigit_def char_isdigit_def is_dec_def is_valid_queue_name_def
    char_isalpha_def)

text \<open>An ARN gives back its parts: for parts without colons, an account of digits and any resource
  name, the account, the region and the resource are those of the ARN, and a table, stream or
  path prefix of the resource is removed. A text whose fifth part is no account gives nothing.\<close>

theorem arn_roundtrip:
  assumes "\<forall>part \<in> {aws, service, region, account, res}. CHR '':'' \<notin> set part"
    and "arn = py_join '':'' [''arn'', aws, service, region, account, res]"
  shows "(is_account_id account \<longrightarrow>
      arn_account_id arn = Some account \<and> arn_region arn = Some region
      \<and> extract_resource_name_from_arn arn = Some res
      \<and> (\<forall>name. \<not> py_in ''table/'' name \<longrightarrow> res = ''table/'' @ name \<longrightarrow>
           extract_dynamodb_table_name_from_arn arn = Some name)
      \<and> (\<forall>name. \<not> py_in ''stream/'' name \<longrightarrow> res = ''stream/'' @ name \<longrightarrow>
           extract_kinesis_stream_name_from_arn arn = Some name)
      \<and> (\<forall>prefix name. CHR ''/'' \<notin> set prefix \<union> set name \<longrightarrow> res = prefix @ ''/'' @ name \<longrightarrow>
           extract_bedrock_agentcore_resource_id_from_arn arn = Some name))
    \<and> (\<not> is_account_id account \<longrightarrow> arn_account_id arn = None \<and> extract_resource_name_from_arn arn = None)"
proof -
  have parts: "py_split (CHR '':'') arn = [''arn'', aws, service, region, account, res]"
    unfolding assms(2) using assms(1) by (intro py_split_join) auto
  have arn: "get_arn_parts arn =
      (if is_account_id account then Some [''arn'', aws, service, region, account, res] else None)"
    by (simp add: get_arn_parts_def parts) (simp add: assms(2))
  have table: "extract_dynamodb_table_name_from_arn arn = Some name"
    if "is_account_id account" "\<not> py_in ''table/'' name" "res = ''table/'' @ name" for name
    using that py_replace_prefix [of "''table/''" "[]" name]
    by (simp add: extract_dynamodb_table_name_from_arn_def arn py_replace_absent del: py_replace.simps)
  have stream: "extract_kinesis_stream_name_from_arn arn = Some name"
    if "is_account_id account" "\<not> py_in ''stream/'' name" "res = ''stream/'' @ name" for name
    using that py_replace_prefix [of "''stream/''" "[]" name]
    by (simp add: extract_kinesis_stream_name_from_arn_def arn py_replace_absent del: py_replace.simps)
  have core: "extract_bedrock_agentcore_resource_id_from_arn arn = Some name"
    if "is_account_id account" "CHR ''/'' \<notin> set prefix \<union> set name" "res = prefix @ ''/'' @ name"
    for prefix name
    using that by (simp add: extract_bedrock_agentcore_resource_id_from_arn_def
      extract_resource_name_from_arn_def arn py_split_append py_split_no_sep)
  show ?thesis
    using table stream core
    by (simp add: arn arn_account_id_def arn_region_def extract_resource_name_from_arn_def)
qed

theorem arn_roundtrip_witness:
  "extract_dynamodb_table_name_from_arn ''arn:aws:dynamodb:us-west-2:123456789012:table/orders''
     = Some ''orders''"
proof -
  have "is_account_id ''123456789012''"
    by (simp add: is_account_id_def py_isdigit_def char_isdigit_def is_dec_def)
  then show ?thesis
    using arn_roundtrip [of "''aws''" "''dynamodb''" "''us-west-2''" "''123456789012''"
        "''table/orders''", OF _ refl]
    by simp
qed

end
