(* ===== verification/SqlKeywords.thy ===== *)
theory SqlKeywords
  imports Prelude
begin

text \<open>
  The keywords of \<open>configuration/sql_dialect_keywords.json\<close>, in the order of the file, which is the
  order of the alternatives in \<open>SQL_KEYWORD_PATTERN\<close>, and the matching of that pattern: the
  keywords hold no character with a meaning in a regular expression outside a class, so an
  alternative is the keyword itself.
\<close>

definition dialect_keywords :: "string list" where
  "dialect_keywords =
    [''DATETIME_INTERVAL_PRECISION'', ''PARAMETER_SPECIFIC_CATALOG'',
     ''PARAMETER_ORDINAL_POSITION'', ''USER_DEFINED_TYPE_CATALOG'',
     ''PARAMETER_SPECIFIC_SCHEMA'', ''TRANSACTIONS_ROLLED_BACK'', ''USER_DEFINED_TYPE_SCHEMA'',
     ''PARAMETER_SPECIFIC_NAME'', ''USER_DEFINED_TYPE_NAME'', ''TRANSACTIONS_COMMITTED'',
     ''DATETIME_INTERVAL_CODE'', ''RETURNED_OCTET_LENGTH'', ''COMMAND_FUNCTION_CODE'',
     ''CHARACTER_SET_CATALOG'', ''DYNAMIC_FUNCTION_CODE'', ''MESSAGE_OCTET_LENGTH'',
     ''CHARACTER_SET_SCHEMA'', ''INSERT INTO SELECT'', ''CHARACTER_SET_NAME'',
     ''CONSTRAINT_CATALOG'', ''CHARACTER VARYING'', ''RETURNED_SQLSTATE'', ''TRANSATION_ACTIVE'',
     ''CURRENT_TIMESTAMP'', ''CONSTRAINT_SCHEMA'', ''COLLATION_CATALOG'', ''DOUBLE PRECISION'',
     ''DYNAMIC_FUNCTION'', ''CONDITION_NUMBER'', ''COMMAND_FUNCTION'', ''CHARACTER_LENGTH'',
     ''COLLATION_SCHEMA'', ''FULL OUTER JOIN'', ''DROP CONSTRAINT'', ''BACKUP DATABASE'',
     ''CREATE DATABASE'', ''SELECT DISTINCT'', ''TIMEZONE_MINUTE'', ''ROUTINE_CATALOG'',
     ''TRIGGER_CATALOG'', ''SUBCLASS_ORIGIN'', ''MIN_PART_STRING'', ''CONNECTION_NAME'',
     ''PARSE_URL_TUPLE'', ''MAX_PART_STRING'', ''RETURNED_LENGTH'', ''CHARACTERISTICS'',
     ''CONSTRAINT_NAME'', ''TRUNCATE TABLE'', ''PARAMETER_NAME'', ''UNIX_TIMESTAMP'',
     ''ARRAY_CONTAINS'', ''MESSAGE_LENGTH'', ''LOCALTIMESTAMP'', ''TRIGGER_SCHEMA'',
     ''ROUTINE_SCHEMA'', ''IMPLEMENTATION'', ''AUTO_INCREMENT'', ''SIMPLE_INTEGER'',
     ''COLLATION_NAME'', ''PARAMETER_MODE'', ''REGEXP_REPLACE'', ''DROP DATABASE'',
     ''STRAIGHT_JOIN'', ''SYS_REFCURSOR'', ''UTC_TIMESTAMP'', ''MIN_PART_DATE'',
     ''DETERMINISTIC'', ''TBLPROPERTIES'', ''PART_COUNT_BY'', ''TIMEZONE_HOUR'',
     ''SIMPLE_DOUBLE'', ''MAX_PART_DATE'', ''FROM_UNIXTIME'', ''SPECIFIC_NAME'',
     ''MAXLOGMEMBERS'', ''ON_ERROR_STOP'', ''TXID_SNAPSHOT'', ''MAXLOGHISTORY'',
     ''CORRESPONDING'', ''AUTHORIZATION'', ''TIMESTAMP_ISO'', ''CREATE INDEX'', ''DROP DEFAULT'',
     ''CREATE TABLE'', ''ALTER COLUMN'', ''CURRENT_ROLE'', ''MAXINSTANCES'', ''CONCURRENTLY'',
     ''ROUTINE_NAME'', ''MIN_PART_INT'', ''SESSION_USER'', ''MESSAGE_TEXT'', ''INSTANTIABLE'',
     ''MAX_PART_INT'', ''STATEMENT_ID'', ''OCTET_LENGTH'', ''CURRENT_DATE'', ''NOARCHIVELOG'',
     ''TO_TIMESTAMP'', ''COLLECT_LIST'', ''CATALOG_NAME'', ''TRIGGER_NAME'', ''SIMPLE_FLOAT'',
     ''NOCREATEUSER'', ''CURRENT_PATH'', ''CLASS_ORIGIN'', ''MAXDATAFILES'', ''CURRENT_TIME'',
     ''SQLEXCEPTION'', ''SERIALIZABLE'', ''SPECIFICTYPE'', ''CURRENT_USER'', ''IS NOT NULL'',
     ''SELECT INTO'', ''DROP COLUMN'', ''PRIMARY KEY'', ''FOREIGN KEY'', ''ALTER TABLE'',
     ''BIT VARYING'', ''INSERT INTO'', ''CREATE VIEW'', ''CONTROLFILE'', ''SERVER_NAME'',
     ''REFERENCING'', ''TRANSLATION'', ''DBMS_OUTPUT'', ''CARDINALITY'', ''UNCOMMITTED'',
     ''CHAR_LENGTH'', ''PLS_INTEGER'', ''SYSTEM_USER'', ''SMALLSERIAL'', ''UNENCRYPTED'',
     ''MAXLOGFILES'', ''DISTINCTROW'', ''CONSTRAINTS'', ''PCTINCREASE'', ''CURSOR_NAME'',
     ''LANCOMPILER'', ''NORESETLOGS'', ''COLUMN_NAME'', ''INSENSITIVE'', ''DIAGNOSTICS'',
     ''SCHEMA_NAME'', ''CONSTRUCTOR'', ''TRANSACTION'', ''OUTER JOIN'', ''INNER JOIN'',
     ''DROP TABLE'', ''RIGHT JOIN'', ''SELECT TOP'', ''DROP INDEX'', ''POSEXPLODE'',
     ''CONNECTION'', ''NOCOMPRESS'', ''MINEXTENTS'', ''ARCHIVELOG'', ''SAVE_POINT'',
     ''MAXEXTENTS'', ''SQLWARNING'', ''COMPLETION'', ''ORDINALITY'', ''CHECKPOINT'',
     ''PRIVILEGES'', ''ASSIGNMENT'', ''ASYMMETRIC'', ''TRANSFORMS'', ''DELIMITERS'',
     ''PROCEDURAL'', ''EXTERNALLY'', ''CREATEUSER'', ''REFERENCES'', ''DESCRIPTOR'',
     ''CONSTRAINT'', ''SUCCESSFUL'', ''MAXELEMENT'', ''CONVERSION'', ''TABLE_NAME'',
     ''UNIQUEJOIN'', ''DEFERRABLE'', ''PARAMETERS'', ''NOCREATEDB'', ''IDENTIFIED'',
     ''EXCEPTIONS'', ''OVERRIDING'', ''DEALLOCATE'', ''NOMAXVALUE'', ''PART_COUNT'',
     ''KEY_MEMBER'', ''NOMINVALUE'', ''STATISTICS'', ''BIT_LENGTH'', ''RESTRICTED'',
     ''DICTIONARY'', ''INITIALIZE'', ''REPEATABLE'', ''DISTRIBUTE'', ''ASENSITIVE'',
     ''TABLESPACE'', ''TRANSATION'', ''DESTRUCTOR'', ''DISCONNECT'', ''MINELEMENT'',
     ''DROP VIEW'', ''LEFT JOIN'', ''UNION ALL'', ''UNBOUNDED'', ''PRECISION'', ''FILE_TYPE'',
     ''TIMESTAMP'', ''CONDITION'', ''OPERATION'', ''SUBSTRING'', ''CHARACTER'', ''INCLUDING'',
     ''TRANSFORM'', ''SAVEPOINT'', ''FOLLOWING'', ''UNLIMITED'', ''EXCLUDING'', ''STRUCTURE'',
     ''PROCEDURE'', ''POSITIVEN'', ''SYMMETRIC'', ''OVERWRITE'', ''ISOLATION'', ''DELIMITER'',
     ''EXCLUSIVE'', ''RETURNING'', ''COLLATION'', ''FREELISTS'', ''VALIDATOR'', ''DIRECTORY'',
     ''AGGREGATE'', ''LOCALTIME'', ''HIERARCHY'', ''TEMPORARY'', ''EXCEPTION'', ''ENCRYPTED'',
     ''ASSERTION'', ''COMMITTED'', ''STATEMENT'', ''INITIALLY'', ''PARTITION'', ''TERMINATE'',
     ''BIGSERIAL'', ''IMMEDIATE'', ''RESETLOGS'', ''PARAMETER'', ''INDICATOR'', ''GENERATED'',
     ''RECURSIVE'', ''SENSITIVE'', ''TRANSLATE'', ''INCREMENT'', ''IMMUTABLE'', ''INTERSECT'',
     ''ROW_COUNT'', ''ORDER BY'', ''NOT NULL'', ''GROUP BY'', ''LOCATION'', ''TRUNCATE'',
     ''PREORDER'', ''TRAILING'', ''BACKWARD'', ''NVARCHAR'', ''OVERLAPS'', ''SQLSTATE'',
     ''CREATEDB'', ''EXISTING'', ''ABSOLUTE'', ''GROUPING'', ''MAXTRANS'', ''FREELIST'',
     ''POSITION'', ''DATE_SUB'', ''INTERVAL'', ''UNSIGNED'', ''MAXINDEX'', ''DATAFILE'',
     ''DEFERRED'', ''TSVECTOR'', ''ROWLABEL'', ''MININDEX'', ''CONFLICT'', ''ROLLBACK'',
     ''DISPATCH'', ''OPERATOR'', ''PARALLEL'', ''PUT_LINE'', ''VARIABLE'', ''CASCADED'',
     ''ENCODING'', ''FUNCTION'', ''SECURITY'', ''EXCHANGE'', ''NOTFOUND'', ''TEMPLATE'',
     ''CONTAINS'', ''IDENTITY'', ''NATURALN'', ''TRIGGERS'', ''SPECIFIC'', ''RESIGNAL'',
     ''INITRANS'', ''EXTENDED'', ''SQLERROR'', ''PART_LOC'', ''VARCHAR2'', ''SIGNTYPE'',
     ''SMALLINT'', ''COMPRESS'', ''DATABASE'', ''ALLOCATE'', ''PRESERVE'', ''NULLABLE'',
     ''CONTINUE'', ''INSTANCE'', ''WHENEVER'', ''RESTRICT'', ''CONTENTS'', ''POSITIVE'',
     ''SEQUENCE'', ''MAXVALUE'', ''ARRAYLEN'', ''MODIFIES'', ''UNLISTEN'', ''RELATIVE'',
     ''LANGUAGE'', ''NATIONAL'', ''VOLATILE'', ''VALIDATE'', ''DISMOUNT'', ''IMPLICIT'',
     ''DISTINCT'', ''COALESCE'', ''UTL_FILE'', ''ELEMENTS'', ''RESOURCE'', ''KEY_TYPE'',
     ''EXTERNAL'', ''DESCRIBE'', ''MINVALUE'', ''END-EXEC'', ''DATE_ADD'', ''INHERITS'',
     ''DEFAULTS'', ''SNAPSHOT'', ''IS NULL'', ''PERFORM'', ''LOGFILE'', ''DEFAULT'', ''FORWARD'',
     ''INTEGER'', ''DESTROY'', ''FOREACH'', ''POSTFIX'', ''SYSDATE'', ''RECOVER'', ''SECTION'',
     ''INDEXES'', ''TO_CHAR'', ''INITIAL'', ''ITERATE'', ''OPTIONS'', ''PRIVATE'', ''ARCHIVE'',
     ''OPTIMAL'', ''ROUTINE'', ''CHECKED'', ''SYNONYM'', ''TSQUERY'', ''INCLUDE'', ''NOORDER'',
     ''INHERIT'', ''STORAGE'', ''SESSION'', ''BREADTH'', ''PREPARE'', ''PRIMARY'', ''GENERAL'',
     ''CLUSTER'', ''CONNECT'', ''PCTUSED'', ''PLACING'', ''CURRENT'', ''REINDEX'', ''EXPLODE'',
     ''TINYINT'', ''CATALOG'', ''SUBLIST'', ''OVERLAY'', ''EXECUTE'', ''DECIMAL'', ''LATERAL'',
     ''UNNAMED'', ''PACKAGE'', ''DECLARE'', ''COMPILE'', ''CHARSET'', ''PLPGSQL'', ''NOTNULL'',
     ''COMMENT'', ''POLYGON'', ''BETWEEN'', ''FOREIGN'', ''RESTART'', ''TRIGGER'', ''MACADDR'',
     ''ANALYSE'', ''VERBOSE'', ''COLLATE'', ''EXPLAIN'', ''SIMILAR'', ''GRANTED'', ''VARCHAR'',
     ''PENDANT'', ''TRACING'', ''INVOKER'', ''COLLECT'', ''CONVERT'', ''NATURAL'', ''TRUSTED'',
     ''INSTEAD'', ''NOCACHE'', ''NOCYCLE'', ''NOTHING'', ''FORTRAN'', ''SERIAL8'', ''SEGMENT'',
     ''PARTIAL'', ''UNKNOWN'', ''RETURNS'', ''PCTFREE'', ''LEADING'', ''QUARTER'', ''CASCADE'',
     ''REPLACE'', ''VARYING'', ''SUMMARY'', ''ANALYZE'', ''RECHECK'', ''NUMERIC'', ''LOCATOR'',
     ''VERSION'', ''OFFLINE'', ''EXTRACT'', ''PROFILE'', ''BOOLEAN'', ''SQLCODE'', ''WITHOUT'',
     ''DEFINER'', ''DISABLE'', ''TO_DATE'', ''NOAUDIT'', ''DEFINED'', ''DYNAMIC'', ''SIGNED'',
     ''NOTICE'', ''SOURCE'', ''VACUUM'', ''STABLE'', ''ENGINE'', ''STRICT'', ''REDUCE'',
     ''SECOND'', ''ISNULL'', ''SIMPLE'', ''MANUAL'', ''BEFORE'', ''METHOD'', ''PG_LSN'',
     ''EXISTS'', ''CIRCLE'', ''EQUALS'', ''NULLIF'', ''UNIQUE'', ''DOUBLE'', ''CANCEL'',
     ''STRING'', ''OBJECT'', ''FREEZE'', ''EVENTS'', ''SUBSTR'', ''THREAD'', ''ATOMIC'',
     ''VALUES'', ''MODIFY'', ''PREFIX'', ''ROWNUM'', ''BECOME'', ''UPDATE'', ''UNLOCK'',
     ''UNNEST'', ''SEARCH'', ''RENAME'', ''PASCAL'', ''BACKUP'', ''BITVAR'', ''DECODE'',
     ''SWITCH'', ''EXTENT'', ''OUTPUT'', ''TABLES'', ''RESULT'', ''PUBLIC'', ''SQLBUF'',
     ''ONLINE'', ''ENABLE'', ''NOTIFY'', ''SELECT'', ''BINARY'', ''GLOBAL'', ''CREATE'',
     ''STATIC'', ''INLINE'', ''NOWAIT'', ''STDOUT'', ''REVOKE'', ''ESCAPE'', ''MINUTE'',
     ''SCROLL'', ''MODULE'', ''NOSORT'', ''UROWID'', ''SCHEMA'', ''DOMAIN'', ''WINDOW'',
     ''ROLLUP'', ''OPTION'', ''CURSOR'', ''OFFSET'', ''CONCAT'', ''COMMIT'', ''UPSERT'',
     ''NUMBER'', ''INSERT'', ''CALLED'', ''LENGTH'', ''BIGINT'', ''SIGNAL'', ''LISTEN'',
     ''RETURN'', ''CHANGE'', ''NORMAL'', ''SERIAL'', ''COLUMN'', ''SHARED'', ''IGNORE'',
     ''MANAGE'', ''SYSTEM'', ''STRUCT'', ''ACCESS'', ''HAVING'', ''EXCEPT'', ''LOCATE'',
     ''DELETE'', ''FOUND'', ''LEAVE'', ''OWNER'', ''RTRIM'', ''INDEX'', ''VIEWS'', ''CHAIN'',
     ''ELSIF'', ''WHILE'', ''RIGHT'', ''UNION'', ''CHECK'', ''ALIAS'', ''WHERE'', ''ROLES'',
     ''OUTER'', ''RAISE'', ''SCOPE'', ''INFIX'', ''FIRST'', ''COBOL'', ''NCHAR'', ''DEREF'',
     ''LOCAL'', ''FLOOR'', ''GRANT'', ''TOAST'', ''INNER'', ''STACK'', ''RANGE'', ''SPLIT'',
     ''TREAT'', ''PRIOR'', ''USAGE'', ''BYTEA'', ''SPACE'', ''QUOTA'', ''ORDER'', ''NCLOB'',
     ''ARRAY'', ''LIMIT'', ''ALTER'', ''TABLE'', ''JSONB'', ''PRINT'', ''UPPER'', ''COUNT'',
     ''STYPE'', ''ABORT'', ''POINT'', ''LISTS'', ''USING'', ''INPUT'', ''MOUNT'', ''FORCE'',
     ''INOUT'', ''MATCH'', ''CLASS'', ''LOWER'', ''FINAL'', ''MERGE'', ''BLOCK'', ''READS'',
     ''EVERY'', ''VALID'', ''RESET'', ''FALSE'', ''INSTR'', ''NAMES'', ''WRITE'', ''START'',
     ''TRUNC'', ''ROWID'', ''GROUP'', ''MINUS'', ''UNDER'', ''BEGIN'', ''CYCLE'', ''MONTH'',
     ''SHARE'', ''CLOSE'', ''FETCH'', ''SETOF'', ''REUSE'', ''STDIN'', ''FLUSH'', ''ILIKE'',
     ''SCALE'', ''UNTIL'', ''AUDIT'', ''LARGE'', ''ADMIN'', ''LEVEL'', ''SYSID'', ''LAYER'',
     ''MONEY'', ''BREAK'', ''CROSS'', ''MUMPS'', ''AFTER'', ''CACHE'', ''FLOAT'', ''DUMP'',
     ''INT8'', ''SETS'', ''MODE'', ''LESS'', ''WEEK'', ''CUBE'', ''NONE'', ''NULL'', ''DATE'',
     ''THEN'', ''NEXT'', ''YEAR'', ''REAL'', ''ONLY'', ''LINK'', ''WHEN'', ''BLOB'', ''SQRT'',
     ''ELSE'', ''DROP'', ''PATH'', ''CASE'', ''PLAN'', ''SOME'', ''LIKE'', ''DESC'', ''SIZE'',
     ''LEFT'', ''FROM'', ''HOST'', ''ZONE'', ''CIDR'', ''RULE'', ''HOLD'', ''THAN'', ''CHAR'',
     ''EXEC'', ''TEXT'', ''HOUR'', ''LSEG'', ''ROLE'', ''JOIN'', ''STOP'', ''READ'', ''LAST'',
     ''LOAD'', ''FILE'', ''DATA'', ''EACH'', ''BOTH'', ''USER'', ''OIDS'', ''SHOW'', ''GOTO'',
     ''LONG'', ''JSON'', ''ROWS'', ''LOCK'', ''SORT'', ''INTO'', ''LOOP'', ''BODY'', ''TIME'',
     ''CAST'', ''TRUE'', ''NVL2'', ''OPEN'', ''TRIM'', ''INET'', ''UUID'', ''EXIT'', ''FULL'',
     ''CALL'', ''FREE'', ''MOVE'', ''WITH'', ''TEMP'', ''OVER'', ''SIGN'', ''SELF'', ''VIEW'',
     ''CLOB'', ''MORE'', ''COPY'', ''TYPE'', ''WORK'', ''LINE'', ''UID'', ''END'', ''TOP'',
     ''FOR'', ''GET'', ''MAP'', ''REF'', ''NOT'', ''MOD'', ''SQL'', ''ROW'', ''PLI'', ''SET'',
     ''LEN'', ''OFF'', ''DBA'', ''MAX'', ''ALL'', ''DAY'', ''RAW'', ''STR'', ''ADD'', ''USE'',
     ''MIN'', ''OUT'', ''DIV'', ''FTP'', ''ADA'', ''SIN'', ''XML'', ''CMP'', ''ASC'', ''NVL'',
     ''ANY'', ''PAD'', ''ABS'', ''OLD'', ''SUM'', ''BOX'', ''AND'', ''INT'', ''OWN'', ''ARE'',
     ''KEY'', ''BIT'', ''AVG'', ''NEW'', ''SCN'', ''DEC'', ''NOW'', ''ON'', ''OF'', ''OR'',
     ''AS'', ''NO'', ''IN'', ''IF'', ''TO'', ''BY'', ''AT'', ''GO'', ''IS'', ''DO'']"

definition max_keyword_length :: nat where
  "max_keyword_length = 27"

text \<open>The characters of \<open>\w\<close>, among the modelled ones, and the word boundary after a prefix.\<close>

definition word_char :: "char \<Rightarrow> bool" where
  "word_char c \<longleftrightarrow> char_isalpha c \<or> char_isdigit c \<or> ord c \<in> {188, 189, 190} \<or> c = CHR ''_''"

definition boundary_after :: "string \<Rightarrow> string \<Rightarrow> bool" where
  "boundary_after k s \<longleftrightarrow>
     (k \<noteq> [] \<and> word_char (last k)) \<noteq>
     (length k < length s \<and> word_char (s ! length k))"

text \<open>\<open>re.match(SQL_KEYWORD_PATTERN, s)\<close>: the first alternative that fits.\<close>

definition match_keyword :: "string list \<Rightarrow> string \<Rightarrow> string option" where
  "match_keyword keywords s = find (\<lambda>k. prefix k s \<and> boundary_after k s) keywords"

lemma match_keyword_Some:
  "match_keyword keywords s = Some k \<Longrightarrow> k \<in> set keywords \<and> prefix k s \<and> boundary_after k s"
  by (auto simp: match_keyword_def find_Some_iff)

lemma match_keyword_None:
  "match_keyword keywords s = None \<longleftrightarrow> (\<forall>k \<in> set keywords. \<not> (prefix k s \<and> boundary_after k s))"
  by (auto simp: match_keyword_def find_None_iff)

end
