(* ===== verification/AttributeGenerator.thy ===== *)
theory AttributeGenerator
  imports Spans AwsParsers SqlKeywords
begin

text \<open>
  \<open>_aws_metric_attribute_generator.py\<close>: the attributes of the service and the dependency metric of
  a span.

  A \<open>BoundedAttributes\<close> object is a mapping; the functions that fill one take it and return it.
  Every function that can raise is in the sum type, and evaluates its parts in the order of the
  source, so the exception is the one Python raises.
\<close>

section \<open>Attribute keys and names\<close>

definition aws_local_service :: string where "aws_local_service = ''aws.local.service''"
definition aws_local_operation :: string where "aws_local_operation = ''aws.local.operation''"
definition aws_remote_service :: string where "aws_remote_service = ''aws.remote.service''"
definition aws_remote_operation :: string where "aws_remote_operation = ''aws.remote.operation''"
definition aws_remote_environment :: string where
  "aws_remote_environment = ''aws.remote.environment''"
definition aws_remote_resource_type :: string where
  "aws_remote_resource_type = ''aws.remote.resource.type''"
definition aws_remote_resource_identifier :: string where
  "aws_remote_resource_identifier = ''aws.remote.resource.identifier''"
definition aws_cloudformation_primary_identifier :: string where
  "aws_cloudformation_primary_identifier = ''aws.remote.resource.cfn.primary.identifier''"
definition aws_remote_resource_account_id :: string where
  "aws_remote_resource_account_id = ''aws.remote.resource.account.id''"
definition aws_remote_resource_region :: string where
  "aws_remote_resource_region = ''aws.remote.resource.region''"
definition aws_remote_resource_access_key :: string where
  "aws_remote_resource_access_key = ''aws.remote.resource.account.access_key''"
definition aws_remote_db_user :: string where "aws_remote_db_user = ''aws.remote.db.user''"
definition aws_span_kind :: string where "aws_span_kind = ''aws.span.kind''"

lemmas key_defs = aws_local_service_def aws_local_operation_def aws_remote_service_def
  aws_remote_operation_def aws_remote_environment_def aws_remote_resource_type_def
  aws_remote_resource_identifier_def aws_cloudformation_primary_identifier_def
  aws_remote_resource_account_id_def aws_remote_resource_region_def
  aws_remote_resource_access_key_def aws_remote_db_user_def aws_span_kind_def

definition aws_sdk_service_mapping :: "(string \<times> string) list" where
  "aws_sdk_service_mapping =
     [(''Bedrock Agent'', ''AWS::Bedrock''),
      (''Bedrock Agent Runtime'', ''AWS::Bedrock''),
      (''Bedrock Runtime'', ''AWS::BedrockRuntime''),
      (''Bedrock AgentCore Control'', ''AWS::BedrockAgentCore''),
      (''Bedrock AgentCore'', ''AWS::BedrockAgentCore''),
      (''Secrets Manager'', ''AWS::SecretsManager''),
      (''SNS'', ''AWS::SNS''),
      (''SFN'', ''AWS::StepFunctions''),
      (''Lambda'', ''AWS::Lambda'')]"

section \<open>Service and operation\<close>

definition set_service :: "attrs \<Rightarrow> attrs \<Rightarrow> attrs res" where
  "set_service res d =
     bindr (get_service_attribute res) (\<lambda>(service_name, is_unknown).
       Inr (AList.update aws_local_service (AStr service_name) d))"

definition set_ingress_operation :: "runtime \<Rightarrow> span \<Rightarrow> attrs \<Rightarrow> attrs res" where
  "set_ingress_operation rt sp d =
     bindr (get_ingress_operation rt sp) (\<lambda>operation.
       Inr (AList.update aws_local_operation (AStr operation) d))"

definition set_span_kind_for_service :: "span \<Rightarrow> attrs \<Rightarrow> attrs" where
  "set_span_kind_for_service sp d =
     AList.update aws_span_kind
       (AStr (if is_local_root sp then local_root else kind_name (kind sp))) d"

definition set_egress_operation :: "span \<Rightarrow> attrs \<Rightarrow> attrs" where
  "set_egress_operation sp d =
     AList.update aws_local_operation
       (case get_egress_operation sp of None \<Rightarrow> AStr unknown_operation | Some operation \<Rightarrow> operation) d"

definition set_span_kind_for_dependency :: "span \<Rightarrow> attrs \<Rightarrow> attrs" where
  "set_span_kind_for_dependency sp d = AList.update aws_span_kind (AStr (kind_name (kind sp))) d"

section \<open>Remote service and operation\<close>

definition get_remote_service :: "span \<Rightarrow> string \<Rightarrow> aval" where
  "get_remote_service sp key =
     (case get sp key of None \<Rightarrow> AStr unknown_remote_service | Some v \<Rightarrow> v)"

definition get_remote_operation :: "span \<Rightarrow> string \<Rightarrow> aval" where
  "get_remote_operation sp key =
     (case get sp key of None \<Rightarrow> AStr unknown_remote_operation | Some v \<Rightarrow> v)"

definition get_db_statement_remote_operation :: "span \<Rightarrow> string \<Rightarrow> aval res" where
  "get_db_statement_remote_operation sp key =
     (case get sp key of
        None \<Rightarrow> Inr (AStr unknown_remote_operation)
      | Some statement \<Rightarrow>
          bindr (as_str statement) (\<lambda>s.
            let candidate = py_upper (take max_keyword_length (py_lstrip s))
            in Inr (AStr (case match_keyword dialect_keywords candidate of
                            Some k \<Rightarrow> k | None \<Rightarrow> unknown_remote_operation))))"

definition is_lambda_invoke_operation :: "span \<Rightarrow> bool" where
  "is_lambda_invoke_operation sp \<longleftrightarrow>
     is_aws_sdk_span sp
     \<and> get_remote_service sp ''rpc.service'' = AStr ''Lambda''
     \<and> get sp ''rpc.method'' = Some (AStr ''Invoke'')"

definition normalize_remote_service_name :: "span \<Rightarrow> aval \<Rightarrow> aval res" where
  "normalize_remote_service_name sp service_name =
     (if is_aws_sdk_span sp then
        if is_lambda_invoke_operation sp then
          Inr (case get sp ''aws.lambda.function.name'' of
                 Some v \<Rightarrow> if truthy v then v else AStr unknown_remote_service
               | None \<Rightarrow> AStr unknown_remote_service)
        else
          (case service_name of
             AStr s \<Rightarrow>
               Inr (AStr (case map_of aws_sdk_service_mapping s of
                            Some normalized \<Rightarrow> normalized | None \<Rightarrow> ''AWS::'' @ s))
           | _ \<Rightarrow> Inl TypeError)
      else Inr service_name)"

text \<open>The address, and \<open>:\<close> with the port when there is one.\<close>

definition address_and_port :: "runtime \<Rightarrow> span \<Rightarrow> string \<Rightarrow> string \<Rightarrow> aval res" where
  "address_and_port rt sp address_key port_key =
     (let address = get_remote_service sp address_key
      in case get sp port_key of
           None \<Rightarrow> Inr address
         | Some port \<Rightarrow> bindr (add_str address ('':'' @ py_str rt port)) (\<lambda>s. Inr (AStr s)))"

definition generate_remote_service :: "runtime \<Rightarrow> span \<Rightarrow> aval res" where
  "generate_remote_service rt sp =
     (if is_key_present sp ''net.peer.name''
      then address_and_port rt sp ''net.peer.name'' ''net.peer.port''
      else if is_key_present sp ''net.sock.peer.addr''
      then address_and_port rt sp ''net.sock.peer.addr'' ''net.sock.peer.port''
      else
        (case get sp ''http.url'' of
           None \<Rightarrow> Inr (AStr unknown_remote_service)
         | Some http_url \<Rightarrow>
             if truthy http_url
             then bindr (urlparse_value http_url) (\<lambda>url.
                    Inr (AStr (if netloc url \<noteq> [] then netloc url else unknown_remote_service)))
             else Inr (AStr unknown_remote_service)))"

definition generate_remote_operation :: "span \<Rightarrow> string res" where
  "generate_remote_operation sp =
     bindr (case get sp ''http.url'' of
              None \<Rightarrow> Inr unknown_remote_operation
            | Some http_url \<Rightarrow>
                bindr (urlparse_value http_url) (\<lambda>url.
                  Inr (extract_api_path_value (Some (path url))))) (\<lambda>remote_operation.
       case get sp ''http.method'' of
         None \<Rightarrow> Inr remote_operation
       | Some http_method \<Rightarrow>
           bindr (add_str http_method '' '') (\<lambda>m. Inr (m @ remote_operation)))"

text \<open>The first step: the attributes that name a remote service and operation, in priority order.\<close>

definition named_remote :: "span \<Rightarrow> (aval \<times> aval) res" where
  "named_remote sp =
     (if is_key_present sp ''aws.remote.service'' \<or> is_key_present sp ''aws.remote.operation'' then
        Inr (get_remote_service sp ''aws.remote.service'',
             get_remote_operation sp ''aws.remote.operation'')
      else if is_key_present sp ''rpc.service'' \<or> is_key_present sp ''rpc.method'' then
        bindr (normalize_remote_service_name sp (get_remote_service sp ''rpc.service'')) (\<lambda>service.
          Inr (service, get_remote_operation sp ''rpc.method''))
      else if is_db_span sp then
        bindr (if is_key_present sp ''db.operation''
               then Inr (get_remote_operation sp ''db.operation'')
               else get_db_statement_remote_operation sp ''db.statement'') (\<lambda>operation.
          Inr (get_remote_service sp ''db.system'', operation))
      else if is_key_present sp ''faas.invoked_name'' \<or> is_key_present sp ''faas.trigger'' then
        Inr (get_remote_service sp ''faas.invoked_name'', get_remote_operation sp ''faas.trigger'')
      else if is_key_present sp ''messaging.system'' \<or> is_key_present sp ''messaging.operation'' then
        Inr (get_remote_service sp ''messaging.system'', get_remote_operation sp ''messaging.operation'')
      else if is_key_present sp ''graphql.operation.type'' then
        Inr (AStr ''graphql'', get_remote_operation sp ''graphql.operation.type'')
      else Inr (AStr unknown_remote_service, AStr unknown_remote_operation))"

definition set_remote_service_and_operation :: "runtime \<Rightarrow> span \<Rightarrow> attrs \<Rightarrow> attrs res" where
  "set_remote_service_and_operation rt sp d =
     bindr (named_remote sp) (\<lambda>(service0, operation0).
       let service1 =
             (if is_key_present sp ''peer.service'' \<and> \<not> is_key_present sp ''aws.remote.service''
              then get_remote_service sp ''peer.service'' else service0)
       in bindr (if service1 = AStr unknown_remote_service
                 then generate_remote_service rt sp else Inr service1) (\<lambda>remote_service.
          bindr (if operation0 = AStr unknown_remote_operation
                 then bindr (generate_remote_operation sp) (\<lambda>s. Inr (AStr s))
                 else Inr operation0) (\<lambda>remote_operation.
            Inr (AList.update aws_remote_operation remote_operation
                  (AList.update aws_remote_service remote_service d)))))"

section \<open>Remote resource\<close>

definition escape_text :: "string \<Rightarrow> string" where
  "escape_text s = py_replace ''|'' ''^|'' (py_replace ''^'' ''^^'' s)"

definition escape_delimiters :: "aval option \<Rightarrow> string option res" where
  "escape_delimiters v =
     (case v of
        None \<Rightarrow> Inr None
      | Some x \<Rightarrow> bindr (as_str x) (\<lambda>s. Inr (Some (escape_text s))))"

definition build_db_connection :: "runtime \<Rightarrow> aval \<Rightarrow> aval option \<Rightarrow> string res" where
  "build_db_connection rt address port =
     bindr (escape_delimiters (Some address)) (\<lambda>a.
       Inr (the a @ (case port of
         Some p \<Rightarrow> if truthy p then ''|'' @ py_str rt p else []
       | None \<Rightarrow> [])))"

definition build_db_connection_string :: "aval \<Rightarrow> string option res" where
  "build_db_connection_string connection_string =
     bindr (urlparse_value connection_string) (\<lambda>uri.
       let port = (case url_port uri of Inl _ \<Rightarrow> None | Inr p \<Rightarrow> p)
       in Inr (case url_hostname uri of
            None \<Rightarrow> None
          | Some address \<Rightarrow>
              Some (escape_text address @
                (case port of
                   Some p \<Rightarrow> if p \<noteq> - 1 then ''|'' @ int_str p else []
                 | None \<Rightarrow> []))))"

definition get_db_connection :: "runtime \<Rightarrow> span \<Rightarrow> string option res" where
  "get_db_connection rt sp =
     bindr (case get sp ''server.address'' of
              Some address \<Rightarrow>
                bindr (build_db_connection rt address (get sp ''server.port'')) (\<lambda>c. Inr (Some c))
            | None \<Rightarrow>
                (case get sp ''net.peer.name'' of
                   Some address \<Rightarrow>
                     bindr (build_db_connection rt address (get sp ''net.peer.port'')) (\<lambda>c. Inr (Some c))
                 | None \<Rightarrow>
                     (case get sp ''server.socket.address'' of
                        Some address \<Rightarrow>
                          bindr (build_db_connection rt address (get sp ''server.socket.port''))
                            (\<lambda>c. Inr (Some c))
                      | None \<Rightarrow>
                          (case get sp ''db.connection_string'' of
                             Some cs \<Rightarrow> build_db_connection_string cs
                           | None \<Rightarrow> Inr None)))) (\<lambda>db_connection.
       case (db_connection, get sp ''db.name'') of
         (Some c, Some db_name) \<Rightarrow>
           if c \<noteq> [] \<and> truthy db_name
           then bindr (escape_delimiters (Some db_name)) (\<lambda>n. Inr (Some (the n @ ''|'' @ c)))
           else Inr (Some c)
       | (c, _) \<Rightarrow> Inr c)"

text \<open>The ARN parser and the queue URL parser on attribute values.\<close>

definition arn_of :: "(string \<Rightarrow> string option) \<Rightarrow> aval \<Rightarrow> string option res" where
  "arn_of parser v =
     (case v of AStr s \<Rightarrow> Inr (parser s) | _ \<Rightarrow> if truthy v then Inl AttributeError else Inr None)"

definition sqs_of :: "(string \<Rightarrow> string option) \<Rightarrow> aval \<Rightarrow> string option res" where
  "sqs_of parser v = bindr (as_str v) (\<lambda>s. Inr (parser s))"

text \<open>\<open>_escape_delimiters\<close> of the text a parser returns.\<close>

definition escaped :: "string option res \<Rightarrow> string option res" where
  "escaped r = bindr r (\<lambda>s. Inr (map_option escape_text s))"

subsection \<open>Bedrock AgentCore\<close>

type_synonym agentcore = "string option \<times> string option \<times> string option"

definition present :: "attrs \<Rightarrow> string \<Rightarrow> aval option" where
  "present ats key = (case map_of ats key of Some v \<Rightarrow> if truthy v then Some v else None | None \<Rightarrow> None)"

text \<open>The identifier from \<open>str(id)\<close>, or else from the ARN.\<close>

definition id_or_arn :: "runtime \<Rightarrow> aval option \<Rightarrow> aval option \<Rightarrow> string option" where
  "id_or_arn rt i arn =
     (case i of
        Some v \<Rightarrow> Some (py_str rt v)
      | None \<Rightarrow>
          (case arn of
             Some a \<Rightarrow> extract_bedrock_agentcore_resource_id_from_arn (py_str rt a)
           | None \<Rightarrow> None))"

definition handle_browser_attrs :: "runtime \<Rightarrow> attrs \<Rightarrow> agentcore" where
  "handle_browser_attrs rt ats =
     (let browser_id = present ats ''gen_ai.browser.id'';
          browser_arn = present ats ''aws.bedrock.agentcore.browser.arn''
      in if browser_id \<noteq> None \<or> browser_arn \<noteq> None
         then let cfn = id_or_arn rt browser_id browser_arn
              in (Some (if cfn = Some ''aws.browser.v1'' then ''Browser'' else ''BrowserCustom''), cfn, cfn)
         else (None, None, None))"

definition handle_gateway_attrs :: "runtime \<Rightarrow> attrs \<Rightarrow> agentcore" where
  "handle_gateway_attrs rt ats =
     (let gateway_id = present ats ''gen_ai.gateway.id'';
          gateway_arn = present ats ''aws.bedrock.agentcore.gateway.arn''
      in case present ats ''aws.gateway.target.id'' of
           Some target_id \<Rightarrow>
             (let cfn = (if gateway_id \<noteq> None \<or> gateway_arn \<noteq> None
                then id_or_arn rt gateway_id gateway_arn else Some (py_str rt target_id))
              in (Some ''GatewayTarget'', cfn, cfn))
         | None \<Rightarrow>
             if gateway_arn \<noteq> None \<or> gateway_id \<noteq> None
             then let cfn = id_or_arn rt gateway_id gateway_arn in (Some ''Gateway'', cfn, cfn)
             else (None, None, None))"

definition handle_runtime_attrs :: "runtime \<Rightarrow> attrs \<Rightarrow> agentcore" where
  "handle_runtime_attrs rt ats =
     (let runtime_id = present ats ''gen_ai.runtime.id'';
          runtime_arn = present ats ''aws.bedrock.agentcore.runtime.arn''
      in case present ats ''aws.bedrock.agentcore.runtime_endpoint.arn'' of
           Some endpoint_arn \<Rightarrow>
             (Some ''RuntimeEndpoint'',
              extract_bedrock_agentcore_resource_id_from_arn (py_str rt endpoint_arn),
              Some (py_str rt endpoint_arn))
         | None \<Rightarrow>
             if runtime_arn \<noteq> None \<or> runtime_id \<noteq> None
             then let cfn = id_or_arn rt runtime_id runtime_arn in (Some ''Runtime'', cfn, cfn)
             else (None, None, None))"

definition handle_code_interpreter_attrs :: "runtime \<Rightarrow> attrs \<Rightarrow> agentcore" where
  "handle_code_interpreter_attrs rt ats =
     (let interpreter_id = present ats ''gen_ai.code_interpreter.id'';
          interpreter_arn = present ats ''aws.bedrock.agentcore.code_interpreter.arn''
      in if interpreter_id \<noteq> None \<or> interpreter_arn \<noteq> None
         then let cfn = id_or_arn rt interpreter_id interpreter_arn
              in (Some (if cfn = Some ''aws.codeinterpreter.v1'' then ''CodeInterpreter''
                        else ''CodeInterpreterCustom''), cfn, cfn)
         else (None, None, None))"

text \<open>\<open>a or b\<close> of two optional texts, for a \<open>b\<close> that is a text.\<close>

definition handle_identity_attrs :: "runtime \<Rightarrow> attrs \<Rightarrow> agentcore" where
  "handle_identity_attrs rt ats =
     (case (present ats ''aws.auth.credential_provider'', present ats ''rpc.method'') of
        (Some provider, Some rpc_method) \<Rightarrow>
          (let p = py_str rt provider;
               m = py_lower (py_str rt rpc_method);
               resource_type =
                 (if py_in ''apikey'' m then Some ''APIKeyCredentialProvider''
                  else if py_in ''oauth2'' m then Some ''OAuth2CredentialProvider''
                  else None)
           in if resource_type \<noteq> None
              then let cfn = (case extract_bedrock_agentcore_resource_id_from_arn p of
                         Some n \<Rightarrow> if n \<noteq> [] then n else p | None \<Rightarrow> p)
                   in (resource_type, Some cfn, Some cfn)
              else (None, None, None))
      | _ \<Rightarrow> (None, None, None))"

definition handle_memory_attrs :: "runtime \<Rightarrow> attrs \<Rightarrow> agentcore" where
  "handle_memory_attrs rt ats =
     (let memory_id = present ats ''gen_ai.memory.id'';
          memory_arn = present ats ''aws.bedrock.agentcore.memory.arn''
      in if memory_id \<noteq> None \<or> memory_arn \<noteq> None
         then let by_id = map_option (py_str rt) memory_id;
                  identifier =
                    (case memory_arn of
                       None \<Rightarrow> by_id
                     | Some a \<Rightarrow>
                         if by_id \<noteq> None \<and> by_id \<noteq> Some [] then by_id
                         else extract_bedrock_agentcore_resource_id_from_arn (py_str rt a))
              in (Some ''Memory'', identifier, map_option (py_str rt) memory_arn)
         else (None, None, None))"

text \<open>The first handler that names a type.\<close>

definition get_bedrock_agentcore_resource_type_and_identifier :: "runtime \<Rightarrow> span \<Rightarrow> agentcore" where
  "get_bedrock_agentcore_resource_type_and_identifier rt sp =
     (case find (\<lambda>(t, _, _). t \<noteq> None \<and> t \<noteq> Some [])
             (map (\<lambda>handler. handler rt (attributes sp))
               [handle_browser_attrs, handle_gateway_attrs, handle_runtime_attrs,
                handle_code_interpreter_attrs, handle_identity_attrs, handle_memory_attrs]) of
        None \<Rightarrow> (None, None, None)
      | Some (t, i, c) \<Rightarrow> (map_option (\<lambda>n. ''AWS::BedrockAgentCore::'' @ n) t, i, c))"

subsection \<open>Type and identifier\<close>

text \<open>A type with an identifier and a CloudFormation identifier, evaluated in that order.\<close>

definition typed ::
    "string \<Rightarrow> string option res \<Rightarrow> string option res
      \<Rightarrow> (string option \<times> string option \<times> string option) res" where
  "typed t identifier cfn = bindr identifier (\<lambda>i. bindr cfn (\<lambda>c. Inr (Some t, i, c)))"

definition table_identifier :: "aval \<Rightarrow> string option res" where
  "table_identifier v =
     (case v of
        AStr (c # _) \<Rightarrow> escape_delimiters (Some (AStr [c]))
      | ASeq (x # _) \<Rightarrow> escape_delimiters (Some x)
      | _ \<Rightarrow> Inl IndexError)"

definition sdk_resource :: "runtime \<Rightarrow> span \<Rightarrow> (string option \<times> string option \<times> string option) res" where
  "sdk_resource rt sp =
     (let none = Inr None; esc = (\<lambda>key. escape_delimiters (get sp key))
      in bindr (case get sp ''aws.dynamodb.table_names'' of
                  None \<Rightarrow> Inr None
                | Some names \<Rightarrow> bindr (py_len names) (\<lambda>n. Inr (if n = 1 then Some names else None)))
          (\<lambda>single_table.
         case single_table of
           Some names \<Rightarrow> typed ''AWS::DynamoDB::Table'' (table_identifier names) none
         | None \<Rightarrow>
         if is_key_present sp ''aws.dynamodb.table.arn'' then
           typed ''AWS::DynamoDB::Table''
             (escaped (arn_of extract_dynamodb_table_name_from_arn (the (get sp ''aws.dynamodb.table.arn''))))
             none
         else if is_key_present sp ''aws.kinesis.stream.name'' then
           typed ''AWS::Kinesis::Stream'' (esc ''aws.kinesis.stream.name'') none
         else if is_key_present sp ''aws.kinesis.stream.arn'' then
           typed ''AWS::Kinesis::Stream''
             (escaped (arn_of extract_kinesis_stream_name_from_arn (the (get sp ''aws.kinesis.stream.arn''))))
             none
         else if is_key_present sp ''aws.s3.bucket'' then
           typed ''AWS::S3::Bucket'' (esc ''aws.s3.bucket'') none
         else if is_key_present sp ''aws.sqs.queue.name'' then
           typed ''AWS::SQS::Queue'' (esc ''aws.sqs.queue.name'') (esc ''aws.sqs.queue.url'')
         else if is_key_present sp ''aws.sqs.queue.url'' then
           typed ''AWS::SQS::Queue''
             (escaped (sqs_of get_queue_name (the (get sp ''aws.sqs.queue.url''))))
             (esc ''aws.sqs.queue.url'')
         else if is_key_present sp ''aws.bedrock.agent.id'' then
           typed ''AWS::Bedrock::Agent'' (esc ''aws.bedrock.agent.id'') none
         else if is_key_present sp ''aws.bedrock.data_source.id'' then
           bindr (esc ''aws.bedrock.data_source.id'') (\<lambda>i.
             typed ''AWS::Bedrock::DataSource'' (Inr i)
               (bindr (esc ''aws.bedrock.knowledge_base.id'') (\<lambda>kb.
                  case kb of
                    None \<Rightarrow> Inl TypeError
                  | Some k \<Rightarrow> Inr (Some (k @ ''|'' @ the i)))))
         else if is_key_present sp ''aws.bedrock.guardrail.id'' then
           typed ''AWS::Bedrock::Guardrail'' (esc ''aws.bedrock.guardrail.id'')
             (esc ''aws.bedrock.guardrail.arn'')
         else if is_key_present sp ''aws.bedrock.knowledge_base.id'' then
           typed ''AWS::Bedrock::KnowledgeBase'' (esc ''aws.bedrock.knowledge_base.id'') none
         else if is_key_present sp ''gen_ai.request.model'' then
           typed ''AWS::Bedrock::Model'' (esc ''gen_ai.request.model'') none
         else if map_of aws_sdk_service_mapping
                   (case get sp ''rpc.service'' of None \<Rightarrow> ''None'' | Some v \<Rightarrow> py_str rt v)
                 = Some ''AWS::BedrockAgentCore'' then
           (let (t, i, c) = get_bedrock_agentcore_resource_type_and_identifier rt sp;
                keep = (\<lambda>x. case x of None \<Rightarrow> None
                          | Some y \<Rightarrow> if y \<noteq> [] then Some (escape_text y) else None)
            in Inr (t, keep i, keep c))
         else if is_key_present sp ''aws.secretsmanager.secret.arn'' then
           typed ''AWS::SecretsManager::Secret''
             (escaped (arn_of extract_resource_name_from_arn (the (get sp ''aws.secretsmanager.secret.arn''))))
             (esc ''aws.secretsmanager.secret.arn'')
         else if is_key_present sp ''aws.sns.topic.arn'' then
           typed ''AWS::SNS::Topic''
             (escaped (arn_of extract_resource_name_from_arn (the (get sp ''aws.sns.topic.arn''))))
             (esc ''aws.sns.topic.arn'')
         else if is_key_present sp ''aws.stepfunctions.state_machine.arn'' then
           typed ''AWS::StepFunctions::StateMachine''
             (escaped (arn_of extract_resource_name_from_arn
               (the (get sp ''aws.stepfunctions.state_machine.arn''))))
             (esc ''aws.stepfunctions.state_machine.arn'')
         else if is_key_present sp ''aws.stepfunctions.activity.arn'' then
           typed ''AWS::StepFunctions::Activity''
             (escaped (arn_of extract_resource_name_from_arn
               (the (get sp ''aws.stepfunctions.activity.arn''))))
             (esc ''aws.stepfunctions.activity.arn'')
         else if is_key_present sp ''aws.lambda.function.name'' then
           (if \<not> is_lambda_invoke_operation sp
            then typed ''AWS::Lambda::Function'' (esc ''aws.lambda.function.name'')
                   (esc ''aws.lambda.function.arn'')
            else Inr (None, None, None))
         else if is_key_present sp ''aws.lambda.resource_mapping.id'' then
           typed ''AWS::Lambda::EventSourceMapping'' (esc ''aws.lambda.resource_mapping.id'') none
         else Inr (None, None, None)))"

definition remote_resource :: "runtime \<Rightarrow> span \<Rightarrow> (string option \<times> string option \<times> string option) res" where
  "remote_resource rt sp =
     (if is_aws_sdk_span sp then sdk_resource rt sp
      else if is_db_span sp
      then bindr (get_db_connection rt sp) (\<lambda>c. Inr (Some ''DB::Connection'', c, None))
      else Inr (None, None, None))"

definition set_remote_type_and_identifier :: "runtime \<Rightarrow> span \<Rightarrow> attrs \<Rightarrow> (bool \<times> attrs) res" where
  "set_remote_type_and_identifier rt sp d =
     bindr (remote_resource rt sp) (\<lambda>(t, i, c).
       case (t, i, if c = None then i else c) of
         (Some t', Some i', Some c') \<Rightarrow>
           Inr (True, AList.update aws_cloudformation_primary_identifier (AStr c')
                       (AList.update aws_remote_resource_identifier (AStr i')
                         (AList.update aws_remote_resource_type (AStr t') d)))
       | _ \<Rightarrow> Inr (False, d))"

section \<open>Account, region, environment and user\<close>

definition arn_attributes :: "string list" where
  "arn_attributes =
     [''aws.dynamodb.table.arn'', ''aws.kinesis.stream.arn'', ''aws.sns.topic.arn'',
      ''aws.secretsmanager.secret.arn'', ''aws.stepfunctions.state_machine.arn'',
      ''aws.stepfunctions.activity.arn'', ''aws.bedrock.guardrail.arn'', ''aws.lambda.function.arn'']"

definition set_remote_account_id_and_region :: "span \<Rightarrow> attrs \<Rightarrow> (bool \<times> attrs) res" where
  "set_remote_account_id_and_region sp d =
     bindr (case get sp ''aws.sqs.queue.url'' of
              Some url \<Rightarrow>
                bindr (escape_delimiters (Some url)) (\<lambda>queue_url.
                  Inr (Option.bind queue_url sqs_account_id, Option.bind queue_url sqs_region))
            | None \<Rightarrow>
                (case find (is_key_present sp) arn_attributes of
                   None \<Rightarrow> Inr (None, None)
                 | Some arn_attribute \<Rightarrow>
                     (let arn = the (get sp arn_attribute)
                      in bindr (arn_of arn_account_id arn) (\<lambda>account.
                         bindr (arn_of arn_region arn) (\<lambda>region. Inr (account, region))))))
       (\<lambda>(account, region).
          case (account, region) of
            (Some a, Some r) \<Rightarrow>
              Inr (True, AList.update aws_remote_resource_region (AStr r)
                          (AList.update aws_remote_resource_account_id (AStr a) d))
          | _ \<Rightarrow> Inr (False, d))"

definition set_remote_access_key_and_region :: "span \<Rightarrow> attrs \<Rightarrow> attrs" where
  "set_remote_access_key_and_region sp d =
     (let d1 = (case get sp ''aws.auth.account.access_key'' of
            None \<Rightarrow> d | Some v \<Rightarrow> AList.update aws_remote_resource_access_key v d)
      in case get sp ''aws.auth.region'' of
           None \<Rightarrow> d1 | Some v \<Rightarrow> AList.update aws_remote_resource_region v d1)"

definition set_remote_environment :: "runtime \<Rightarrow> span \<Rightarrow> attrs \<Rightarrow> attrs" where
  "set_remote_environment rt sp d =
     (if is_lambda_invoke_operation sp
      then let e = py_strip (case map_of (environ rt) ''LAMBDA_APPLICATION_SIGNALS_REMOTE_ENVIRONMENT'' of
                 Some v \<Rightarrow> v | None \<Rightarrow> [])
           in AList.update aws_remote_environment
                (AStr (''lambda:'' @ (if e = [] then ''default'' else e))) d
      else d)"

definition set_remote_db_user :: "span \<Rightarrow> attrs \<Rightarrow> attrs" where
  "set_remote_db_user sp d =
     (if is_db_span sp
      then (case get sp ''db.user'' of None \<Rightarrow> d | Some v \<Rightarrow> AList.update aws_remote_db_user v d)
      else d)"

section \<open>The generator\<close>

definition generate_service_metric_attributes :: "runtime \<Rightarrow> span \<Rightarrow> attrs \<Rightarrow> attrs res" where
  "generate_service_metric_attributes rt sp res =
     bindr (set_service res []) (\<lambda>d.
     bindr (set_ingress_operation rt sp d) (\<lambda>d.
       Inr (set_span_kind_for_service sp d)))"

definition generate_dependency_metric_attributes :: "runtime \<Rightarrow> span \<Rightarrow> attrs \<Rightarrow> attrs res" where
  "generate_dependency_metric_attributes rt sp res =
     bindr (set_service res []) (\<lambda>d0.
     let d1 = set_egress_operation sp d0 in
     bindr (set_remote_service_and_operation rt sp d1) (\<lambda>d2.
     bindr (set_remote_type_and_identifier rt sp d2) (\<lambda>(is_remote_identifier_present, d3).
     bindr (if is_remote_identifier_present
            then bindr (set_remote_account_id_and_region sp d3) (\<lambda>(is_remote_account_id_present, d4).
                   Inr (if is_remote_account_id_present then d4
                        else set_remote_access_key_and_region sp d4))
            else Inr d3) (\<lambda>d5.
     Inr (set_span_kind_for_dependency sp (set_remote_db_user sp (set_remote_environment rt sp d5)))))))"

definition service_metric :: string where "service_metric = ''Service''"
definition dependency_metric :: string where "dependency_metric = ''Dependency''"

definition generate_metric_attributes_dict_from_span ::
    "runtime \<Rightarrow> span \<Rightarrow> attrs \<Rightarrow> (string \<times> attrs) list res" where
  "generate_metric_attributes_dict_from_span rt sp res =
     bindr (if should_generate_service_metric_attributes sp
            then bindr (generate_service_metric_attributes rt sp res) (\<lambda>a. Inr [(service_metric, a)])
            else Inr []) (\<lambda>service.
     bindr (if should_generate_dependency_metric_attributes sp
            then bindr (generate_dependency_metric_attributes rt sp res) (\<lambda>a.
                   Inr [(dependency_metric, a)])
            else Inr []) (\<lambda>dependency.
       Inr (service @ dependency)))"

section \<open>Escaped identifiers\<close>

definition esc_char :: "char \<Rightarrow> string" where
  "esc_char c = (if c = CHR ''^'' then ''^^'' else if c = CHR ''|'' then ''^|'' else [c])"

lemma escape_text_concat: "escape_text s = concat (map esc_char s)"
proof -
  have "escape_text s = concat (map (\<lambda>x. if x = CHR ''|'' then ''^|'' else [x])
      (concat (map (\<lambda>x. if x = CHR ''^'' then ''^^'' else [x]) s)))"
    by (simp only: escape_text_def py_replace_char)
  also have "\<dots> = concat (map esc_char s)"
    by (induction s) (simp_all add: esc_char_def)
  finally show ?thesis .
qed

lemma escape_text_Nil [simp]: "escape_text [] = []"
  by (simp add: escape_text_concat)

lemma escape_text_Cons: "escape_text (c # s) = esc_char c @ escape_text s"
  by (simp add: escape_text_concat)

text \<open>A bar that is not escaped ends the first part, whatever follows.\<close>

lemma escape_text_split:
  "escape_text a @ CHR ''|'' # x = escape_text b @ CHR ''|'' # y \<Longrightarrow> a = b \<and> x = y"
proof (induction a arbitrary: b)
  case Nil
  then show ?case
    by (cases b) (auto simp: escape_text_Cons esc_char_def split: if_splits)
next
  case (Cons c a)
  from Cons.prems obtain d b' where b: "b = d # b'"
    by (cases b) (auto simp: escape_text_Cons esc_char_def split: if_splits)
  have "c = d \<and> escape_text a @ CHR ''|'' # x = escape_text b' @ CHR ''|'' # y"
    using Cons.prems by (auto simp: b escape_text_Cons esc_char_def split: if_splits)
  with Cons.IH show ?case by (auto simp: b)
qed

lemma escape_text_inj: "escape_text a = escape_text b \<Longrightarrow> a = b"
  using escape_text_split [of a "[]" b "[]"] by simp

section \<open>The keys of the attributes\<close>

abbreviation keys :: "attrs \<Rightarrow> string set" where
  "keys d \<equiv> fst ` set d"

lemma set_service_keys:
  "set_service r d = Inr d' \<Longrightarrow> keys d' = insert aws_local_service (keys d)"
  by (clarsimp simp: set_service_def bindr_eq_Inr)

lemma set_remote_service_and_operation_keys:
  "set_remote_service_and_operation rt sp d = Inr d' \<Longrightarrow>
     keys d' = {aws_remote_service, aws_remote_operation} \<union> keys d"
  by (clarsimp simp: set_remote_service_and_operation_def bindr_eq_Inr Let_def split_beta
    insert_commute)

lemma set_remote_type_and_identifier_keys:
  "set_remote_type_and_identifier rt sp d = Inr (found, d') \<Longrightarrow>
     keys d' = (if found then {aws_remote_resource_type, aws_remote_resource_identifier,
       aws_cloudformation_primary_identifier} else {}) \<union> keys d"
proof -
  assume out: "set_remote_type_and_identifier rt sp d = Inr (found, d')"
  then obtain t i c where r: "remote_resource rt sp = Inr (t, i, c)"
    by (cases "remote_resource rt sp") (auto simp: set_remote_type_and_identifier_def)
  show ?thesis
    using out
    by (cases t; cases i; cases c)
      (clarsimp simp: set_remote_type_and_identifier_def r; simp add: insert_commute)+
qed

lemma set_remote_account_id_and_region_keys:
  "set_remote_account_id_and_region sp d = Inr (found, d') \<Longrightarrow>
     keys d' = (if found then {aws_remote_resource_account_id, aws_remote_resource_region} else {})
       \<union> keys d"
proof -
  assume "set_remote_account_id_and_region sp d = Inr (found, d')"
  then obtain p where "(\<lambda>(account, region).
          case (account, region) of
            (Some a, Some r) \<Rightarrow>
              Inr (True, AList.update aws_remote_resource_region (AStr r)
                          (AList.update aws_remote_resource_account_id (AStr a) d))
          | _ \<Rightarrow> Inr (False, d)) p = (Inr (found, d') :: (bool \<times> attrs) res)"
    unfolding set_remote_account_id_and_region_def bindr_eq_Inr by blast
  then show ?thesis
    by (cases p; cases "fst p"; cases "snd p") (clarsimp; simp add: insert_commute)+
qed

lemma set_remote_access_key_and_region_keys:
  "keys d \<subseteq> keys (set_remote_access_key_and_region sp d)
   \<and> keys (set_remote_access_key_and_region sp d)
       \<subseteq> {aws_remote_resource_access_key, aws_remote_resource_region} \<union> keys d"
  by (cases "get sp ''aws.auth.account.access_key''"; cases "get sp ''aws.auth.region''")
    (simp_all add: set_remote_access_key_and_region_def subset_insertI2 subset_insertI)

lemma set_remote_environment_keys:
  "keys (set_remote_environment rt sp d) =
     (if is_lambda_invoke_operation sp then {aws_remote_environment} else {}) \<union> keys d"
  by (simp add: set_remote_environment_def Let_def)

lemma set_remote_db_user_keys:
  "keys (set_remote_db_user sp d) =
     (if is_db_span sp \<and> get sp ''db.user'' \<noteq> None then {aws_remote_db_user} else {}) \<union> keys d"
  by (cases "get sp ''db.user''") (simp_all add: set_remote_db_user_def)

text \<open>Every step only updates keys, so they stay distinct.\<close>

lemma set_service_distinct:
  "set_service r d = Inr d' \<Longrightarrow> distinct (map fst d) \<Longrightarrow> distinct (map fst d')"
  by (clarsimp simp: set_service_def bindr_eq_Inr)

lemma set_ingress_operation_distinct:
  "set_ingress_operation rt sp d = Inr d' \<Longrightarrow> distinct (map fst d) \<Longrightarrow> distinct (map fst d')"
  by (clarsimp simp: set_ingress_operation_def bindr_eq_Inr)

lemma set_remote_service_and_operation_distinct:
  "set_remote_service_and_operation rt sp d = Inr d' \<Longrightarrow> distinct (map fst d) \<Longrightarrow> distinct (map fst d')"
  by (clarsimp simp: set_remote_service_and_operation_def bindr_eq_Inr Let_def split_beta)

lemma set_remote_type_and_identifier_distinct:
  assumes out: "set_remote_type_and_identifier rt sp d = Inr (found, d')" and d: "distinct (map fst d)"
  shows "distinct (map fst d')"
proof -
  obtain t i c where r: "remote_resource rt sp = Inr (t, i, c)"
    using out by (cases "remote_resource rt sp") (auto simp: set_remote_type_and_identifier_def)
  show ?thesis
    using out d
    by (cases t; cases i; cases c) (clarsimp simp: set_remote_type_and_identifier_def r)+
qed

lemma set_remote_account_id_and_region_distinct:
  assumes "set_remote_account_id_and_region sp d = Inr (found, d')" and d: "distinct (map fst d)"
  shows "distinct (map fst d')"
proof -
  obtain p where "(\<lambda>(account, region).
          case (account, region) of
            (Some a, Some r) \<Rightarrow>
              Inr (True, AList.update aws_remote_resource_region (AStr r)
                          (AList.update aws_remote_resource_account_id (AStr a) d))
          | _ \<Rightarrow> Inr (False, d)) p = (Inr (found, d') :: (bool \<times> attrs) res)"
    using assms(1) unfolding set_remote_account_id_and_region_def bindr_eq_Inr by blast
  then show ?thesis
    using d by (cases p; cases "fst p"; cases "snd p") clarsimp+
qed

lemma plain_steps_distinct:
  assumes "distinct (map fst d)"
  shows "distinct (map fst (set_remote_access_key_and_region sp d))"
    and "distinct (map fst (set_remote_environment rt sp d))"
    and "distinct (map fst (set_remote_db_user sp d))"
    and "distinct (map fst (set_egress_operation sp d))"
    and "distinct (map fst (set_span_kind_for_service sp d))"
    and "distinct (map fst (set_span_kind_for_dependency sp d))"
  using assms
  by (simp_all add: set_remote_access_key_and_region_def set_remote_environment_def
    set_remote_db_user_def Let_def set_egress_operation_def set_span_kind_for_service_def
    set_span_kind_for_dependency_def split: option.splits)

lemma service_distinct:
  assumes "generate_service_metric_attributes rt sp r = Inr d"
  shows "distinct (map fst d)"
proof -
  obtain d0 d1 where "set_service r [] = Inr d0" "set_ingress_operation rt sp d0 = Inr d1"
      "d = set_span_kind_for_service sp d1"
    using assms by (auto simp: generate_service_metric_attributes_def bindr_eq_Inr)
  then show ?thesis
    using set_service_distinct set_ingress_operation_distinct plain_steps_distinct(5) by simp
qed

lemma dependency_distinct:
  assumes "generate_dependency_metric_attributes rt sp r = Inr d"
  shows "distinct (map fst d)"
proof -
  obtain d0 d2 ident d3 d5 where
      d0: "set_service r [] = Inr d0"
      and d2: "set_remote_service_and_operation rt sp (set_egress_operation sp d0) = Inr d2"
      and d3: "set_remote_type_and_identifier rt sp d2 = Inr (ident, d3)"
      and d5: "(if ident then bindr (set_remote_account_id_and_region sp d3) (\<lambda>(acc, d4).
             Inr (if acc then d4 else set_remote_access_key_and_region sp d4)) else Inr d3) = Inr d5"
      and d: "d = set_span_kind_for_dependency sp (set_remote_db_user sp (set_remote_environment rt sp d5))"
    using assms by (auto simp: generate_dependency_metric_attributes_def bindr_eq_Inr Let_def)
  have "distinct (map fst d3)"
    using set_service_distinct [OF d0] plain_steps_distinct(4)
      set_remote_service_and_operation_distinct [OF d2] set_remote_type_and_identifier_distinct [OF d3]
    by simp
  then have "distinct (map fst d5)"
    using d5 set_remote_account_id_and_region_distinct plain_steps_distinct(1)
    by (auto simp: bindr_eq_Inr split: if_splits)
  then show ?thesis unfolding d by (intro plain_steps_distinct)
qed

definition well_keyed :: "string set \<Rightarrow> bool" where
  "well_keyed K \<longleftrightarrow>
     {aws_local_service, aws_local_operation, aws_remote_service, aws_remote_operation, aws_span_kind}
       \<subseteq> K
     \<and> (aws_remote_resource_type \<in> K \<longleftrightarrow> aws_remote_resource_identifier \<in> K)
     \<and> (aws_cloudformation_primary_identifier \<in> K \<longleftrightarrow> aws_remote_resource_identifier \<in> K)
     \<and> (aws_remote_resource_account_id \<in> K \<longrightarrow>
          aws_remote_resource_region \<in> K \<and> aws_remote_resource_access_key \<notin> K)
     \<and> (aws_remote_resource_account_id \<in> K \<or> aws_remote_resource_access_key \<in> K
          \<or> aws_remote_resource_region \<in> K \<longrightarrow> aws_remote_resource_identifier \<in> K)"

lemma dependency_keys:
  assumes "generate_dependency_metric_attributes rt sp r = Inr d"
  shows "well_keyed (keys d)"
    and "(aws_remote_environment \<in> keys d) = is_lambda_invoke_operation sp"
    and "map_of d aws_span_kind = Some (AStr (kind_name (kind sp)))"
proof -
  obtain d0 d2 ident d3 d5 where
      d0: "set_service r [] = Inr d0"
      and d2: "set_remote_service_and_operation rt sp (set_egress_operation sp d0) = Inr d2"
      and d3: "set_remote_type_and_identifier rt sp d2 = Inr (ident, d3)"
      and d5: "(if ident then bindr (set_remote_account_id_and_region sp d3) (\<lambda>(acc, d4).
             Inr (if acc then d4 else set_remote_access_key_and_region sp d4)) else Inr d3) = Inr d5"
      and d: "d = set_span_kind_for_dependency sp (set_remote_db_user sp (set_remote_environment rt sp d5))"
    using assms by (auto simp: generate_dependency_metric_attributes_def bindr_eq_Inr Let_def)
  have k2: "keys d2 = {aws_local_service, aws_local_operation, aws_remote_service, aws_remote_operation}"
    using set_service_keys [OF d0] set_remote_service_and_operation_keys [OF d2]
    by (auto simp: set_egress_operation_def)
  note k3 = set_remote_type_and_identifier_keys [OF d3]
  have k5: "keys d5 = keys d3 \<or> ident \<and>
      (keys d5 = {aws_remote_resource_account_id, aws_remote_resource_region} \<union> keys d3
       \<or> keys d3 \<subseteq> keys d5 \<and> keys d5 \<subseteq> {aws_remote_resource_access_key, aws_remote_resource_region} \<union> keys d3)"
  proof (cases ident)
    case False
    with d5 show ?thesis by simp
  next
    case True
    with d5 obtain acc d4 where d4: "set_remote_account_id_and_region sp d3 = Inr (acc, d4)"
        "d5 = (if acc then d4 else set_remote_access_key_and_region sp d4)"
      by (auto simp: bindr_eq_Inr)
    show ?thesis
      using set_remote_account_id_and_region_keys [OF d4(1)]
        set_remote_access_key_and_region_keys [of d4 sp] d4(2) True
      by (cases acc) auto
  qed
  have kd: "keys d = insert aws_span_kind
      ((if is_db_span sp \<and> get sp ''db.user'' \<noteq> None then {aws_remote_db_user} else {})
       \<union> (if is_lambda_invoke_operation sp then {aws_remote_environment} else {}) \<union> keys d5)"
    by (simp add: d set_span_kind_for_dependency_def set_remote_db_user_keys set_remote_environment_keys
      Un_assoc)
  have lower: "keys d3 \<subseteq> keys d5" and upper: "keys d5 \<subseteq> keys d3 \<union>
      {aws_remote_resource_account_id, aws_remote_resource_region, aws_remote_resource_access_key}"
    using k5 by auto
  show "map_of d aws_span_kind = Some (AStr (kind_name (kind sp)))"
    by (simp add: d set_span_kind_for_dependency_def)
  have env: "aws_remote_environment \<notin> keys d5"
    using upper by (auto simp: k3 k2 key_defs split: if_splits)
  have "aws_remote_environment \<in> keys d \<longleftrightarrow> is_lambda_invoke_operation sp"
    unfolding kd using env by (auto simp: key_defs split: if_splits)
  then show "(aws_remote_environment \<in> keys d) = is_lambda_invoke_operation sp" by simp
  have not2: "aws_remote_resource_type \<notin> keys d2" "aws_remote_resource_identifier \<notin> keys d2"
      "aws_cloudformation_primary_identifier \<notin> keys d2" "aws_remote_resource_account_id \<notin> keys d2"
      "aws_remote_resource_region \<notin> keys d2" "aws_remote_resource_access_key \<notin> keys d2"
    by (simp_all add: k2 key_defs)
  have mem: "x \<in> keys d \<longleftrightarrow> x \<in> keys d5" if "x \<noteq> aws_span_kind" "x \<noteq> aws_remote_db_user"
      "x \<noteq> aws_remote_environment" for x
    unfolding kd using that by (auto split: if_splits)
  have mem5: "x \<in> keys d5 \<longleftrightarrow> x \<in> keys d3" if "x \<noteq> aws_remote_resource_account_id"
      "x \<noteq> aws_remote_resource_region" "x \<noteq> aws_remote_resource_access_key" for x
    using lower upper that by auto
  have kinds: "aws_remote_resource_type \<in> keys d \<longleftrightarrow> ident"
      "aws_remote_resource_identifier \<in> keys d \<longleftrightarrow> ident"
      "aws_cloudformation_primary_identifier \<in> keys d \<longleftrightarrow> ident"
    by (subst mem; (subst mem5)?; simp add: key_defs k3 k2)+
  have base: "{aws_local_service, aws_local_operation, aws_remote_service, aws_remote_operation, aws_span_kind}
      \<subseteq> keys d"
    unfolding kd using lower by (auto simp: k3 k2)
  have acc: "(aws_remote_resource_account_id \<in> keys d \<longrightarrow>
        aws_remote_resource_region \<in> keys d \<and> aws_remote_resource_access_key \<notin> keys d)
      \<and> (aws_remote_resource_account_id \<in> keys d \<or> aws_remote_resource_access_key \<in> keys d
        \<or> aws_remote_resource_region \<in> keys d \<longrightarrow> ident)"
  proof -
    have eq: "aws_remote_resource_account_id \<in> keys d \<longleftrightarrow> aws_remote_resource_account_id \<in> keys d5"
      "aws_remote_resource_region \<in> keys d \<longleftrightarrow> aws_remote_resource_region \<in> keys d5"
      "aws_remote_resource_access_key \<in> keys d \<longleftrightarrow> aws_remote_resource_access_key \<in> keys d5"
      by (rule mem; simp add: key_defs)+
    have none: "aws_remote_resource_account_id \<notin> keys d3" "aws_remote_resource_region \<notin> keys d3"
      "aws_remote_resource_access_key \<notin> keys d3"
      by (simp_all add: k3 k2 key_defs)
    have ne: "aws_remote_resource_access_key \<noteq> aws_remote_resource_account_id"
      "aws_remote_resource_access_key \<noteq> aws_remote_resource_region"
      "aws_remote_resource_account_id \<noteq> aws_remote_resource_region"
      by (simp_all add: key_defs)
    show ?thesis unfolding eq using k5 none ne by auto
  qed
  show "well_keyed (keys d)"
    unfolding well_keyed_def using base kinds acc by blast
qed

section \<open>The interface of the generator\<close>

text \<open>
  What the metrics processor and the span exporter rely on (\<open>metric_attribute_generator.py\<close>): the
  result has the metrics the span calls for, in a fixed order, none of them is empty, and each
  says which kind of span it stands for.
\<close>

locale metric_attribute_generator =
  fixes generate :: "span \<Rightarrow> attrs \<Rightarrow> (string \<times> attrs) list res"
  assumes metrics: "generate sp r = Inr d \<Longrightarrow> map fst d =
      (if should_generate_service_metric_attributes sp then [service_metric] else [])
      @ (if should_generate_dependency_metric_attributes sp then [dependency_metric] else [])"
    and span_kind: "generate sp r = Inr d \<Longrightarrow> map_of d k = Some a \<Longrightarrow>
      map_of a aws_span_kind =
        Some (AStr (if k = service_metric \<and> is_local_root sp then local_root else kind_name (kind sp)))"
    and distinct_keys: "generate sp r = Inr d \<Longrightarrow> map_of d k = Some a \<Longrightarrow> distinct (map fst a)"
begin

lemma both_metrics: "generate sp r = Inr d \<Longrightarrow> kind sp \<noteq> CLIENT \<Longrightarrow> kind sp \<noteq> PRODUCER \<Longrightarrow>
    kind sp \<noteq> CONSUMER \<Longrightarrow> map_of d dependency_metric = None"
proof -
  assume g: "generate sp r = Inr d" and k: "kind sp \<noteq> CLIENT" "kind sp \<noteq> PRODUCER" "kind sp \<noteq> CONSUMER"
  then have "\<not> should_generate_dependency_metric_attributes sp"
    by (simp add: should_generate_dependency_metric_attributes_def is_dependency_consumer_span_def)
  then have "dependency_metric \<notin> set (map fst d)"
    using metrics [OF g] by (auto simp: service_metric_def dependency_metric_def)
  then show "map_of d dependency_metric = None" by (simp add: map_of_eq_None_iff)
qed

lemma metric_present:
  assumes "generate sp r = Inr d"
  shows "map_of d service_metric \<noteq> None \<longleftrightarrow> should_generate_service_metric_attributes sp"
    and "map_of d dependency_metric \<noteq> None \<longleftrightarrow> should_generate_dependency_metric_attributes sp"
proof -
  have "(map_of d k \<noteq> None) \<longleftrightarrow> k \<in> set (map fst d)" for k by (simp add: map_of_eq_None_iff)
  then show "map_of d service_metric \<noteq> None \<longleftrightarrow> should_generate_service_metric_attributes sp"
    and "map_of d dependency_metric \<noteq> None \<longleftrightarrow> should_generate_dependency_metric_attributes sp"
    unfolding metrics [OF assms] by (auto simp: service_metric_def dependency_metric_def)
qed

lemma metrics_distinct: "generate sp r = Inr d \<Longrightarrow> distinct (map fst d)"
  by (simp add: metrics service_metric_def dependency_metric_def)

lemma attributes_not_empty: "generate sp r = Inr d \<Longrightarrow> (k, a) \<in> set d \<Longrightarrow> a \<noteq> []"
proof -
  assume g: "generate sp r = Inr d" and ka: "(k, a) \<in> set d"
  then have "map_of d k = Some a" using metrics_distinct [OF g] by simp
  from span_kind [OF g this] show "a \<noteq> []" by auto
qed

end

lemma service_keys:
  assumes "generate_service_metric_attributes rt sp r = Inr d"
  shows "keys d = {aws_local_service, aws_local_operation, aws_span_kind}"
    and "map_of d aws_span_kind = Some (AStr (if is_local_root sp then local_root else kind_name (kind sp)))"
  using assms
  by (auto simp: generate_service_metric_attributes_def set_service_def set_ingress_operation_def
    set_span_kind_for_service_def bindr_eq_Inr split_beta key_defs)

lemma generate_cases:
  assumes "generate_metric_attributes_dict_from_span rt sp r = Inr d"
  shows "\<exists>service dependency. d = service @ dependency
    \<and> (if should_generate_service_metric_attributes sp
       then \<exists>a. service = [(service_metric, a)] \<and> generate_service_metric_attributes rt sp r = Inr a
       else service = [])
    \<and> (if should_generate_dependency_metric_attributes sp
       then \<exists>a. dependency = [(dependency_metric, a)] \<and> generate_dependency_metric_attributes rt sp r = Inr a
       else dependency = [])"
  using assms unfolding generate_metric_attributes_dict_from_span_def bindr_eq_Inr
  by (auto simp: bindr_eq_Inr split: if_splits)

interpretation generator: metric_attribute_generator "generate_metric_attributes_dict_from_span rt" for rt
proof unfold_locales
  fix sp r d assume "generate_metric_attributes_dict_from_span rt sp r = Inr d"
  from generate_cases [OF this] show "map fst d =
      (if should_generate_service_metric_attributes sp then [service_metric] else [])
      @ (if should_generate_dependency_metric_attributes sp then [dependency_metric] else [])"
    by (auto split: if_splits)
next
  fix sp r d k a
  assume "generate_metric_attributes_dict_from_span rt sp r = Inr d" and k: "map_of d k = Some a"
  from generate_cases [OF this(1)] obtain service dependency where parts:
      "d = service @ dependency"
      "service \<noteq> [] \<longrightarrow> (\<exists>a. service = [(service_metric, a)]
         \<and> generate_service_metric_attributes rt sp r = Inr a)"
      "dependency \<noteq> [] \<longrightarrow> (\<exists>a. dependency = [(dependency_metric, a)]
         \<and> generate_dependency_metric_attributes rt sp r = Inr a)"
    by (auto split: if_splits)
  have ne: "service_metric \<noteq> dependency_metric" by (simp add: service_metric_def dependency_metric_def)
  from k parts(1) consider "map_of service k = Some a" | "map_of dependency k = Some a"
    by (auto simp: map_add_Some_iff)
  then show "map_of a aws_span_kind =
      Some (AStr (if k = service_metric \<and> is_local_root sp then local_root else kind_name (kind sp)))"
  proof cases
    case 1
    then have "service \<noteq> []" by auto
    with 1 parts(2) show ?thesis by (auto dest: service_keys(2) split: if_splits)
  next
    case 2
    then have "dependency \<noteq> []" by auto
    with 2 parts(3) ne show ?thesis by (auto dest: dependency_keys(3) split: if_splits)
  qed
next
  fix sp r d k a
  assume "generate_metric_attributes_dict_from_span rt sp r = Inr d" and "map_of d k = Some a"
  from generate_cases [OF this(1)] obtain service dependency where parts:
      "d = service @ dependency"
      "service \<noteq> [] \<longrightarrow> (\<exists>a. service = [(service_metric, a)]
         \<and> generate_service_metric_attributes rt sp r = Inr a)"
      "dependency \<noteq> [] \<longrightarrow> (\<exists>a. dependency = [(dependency_metric, a)]
         \<and> generate_dependency_metric_attributes rt sp r = Inr a)"
    by (auto split: if_splits)
  from \<open>map_of d k = Some a\<close> parts(1)
  consider "map_of service k = Some a" | "map_of dependency k = Some a"
    by (auto simp: map_add_Some_iff)
  then show "distinct (map fst a)"
  proof cases
    case 1
    then have "service \<noteq> []" by auto
    with 1 parts(2) show ?thesis by (auto dest: service_distinct split: if_splits)
  next
    case 2
    then have "dependency \<noteq> []" by auto
    with 2 parts(3) show ?thesis by (auto dest: dependency_distinct split: if_splits)
  qed
qed

section \<open>Properties\<close>


definition demo_runtime :: runtime where
  "demo_runtime = \<lparr>environ = [], str_of = (\<lambda>_. [])\<rparr>"


text \<open>C13: the attributes of a dependency metric are well formed whenever they are generated: local
  service and operation, remote service and operation and span kind are there; type, identifier
  and CloudFormation identifier of the remote resource come together or not at all; an account
  comes with a region and excludes an access key; account, access key and region come only with
  an identified resource; the remote environment is there exactly for a Lambda invocation.\<close>

theorem dependency_attributes_wellformed:
  assumes "generate_dependency_metric_attributes rt sp r = Inr d" and "K = fst ` set d"
  shows "{''aws.local.service'', ''aws.local.operation'', ''aws.remote.service'',
        ''aws.remote.operation'', ''aws.span.kind''} \<subseteq> K
    \<and> (''aws.remote.resource.type'' \<in> K \<longleftrightarrow> ''aws.remote.resource.identifier'' \<in> K)
    \<and> (''aws.remote.resource.cfn.primary.identifier'' \<in> K \<longleftrightarrow> ''aws.remote.resource.identifier'' \<in> K)
    \<and> (''aws.remote.resource.account.id'' \<in> K \<longrightarrow>
        ''aws.remote.resource.region'' \<in> K \<and> ''aws.remote.resource.account.access_key'' \<notin> K)
    \<and> (''aws.remote.resource.account.id'' \<in> K \<or> ''aws.remote.resource.account.access_key'' \<in> K
        \<or> ''aws.remote.resource.region'' \<in> K \<longrightarrow> ''aws.remote.resource.identifier'' \<in> K)
    \<and> (''aws.remote.environment'' \<in> K \<longleftrightarrow> is_lambda_invoke_operation sp)"
  using dependency_keys(1,2) [OF assms(1)] assms(2) by (simp add: well_keyed_def key_defs)

definition bucket_span :: span where
  "bucket_span = demo_span\<lparr>kind := CLIENT, attributes :=
     [(''rpc.system'', AStr ''aws-api''), (''rpc.service'', AStr ''S3''), (''rpc.method'', AStr ''GetObject''),
      (''aws.s3.bucket'', AStr ''a^b|c'')]\<rparr>"

theorem dependency_attributes_wellformed_witness:
  "\<exists>d. generate_dependency_metric_attributes demo_runtime bucket_span [] = Inr d
     \<and> ''aws.remote.service'' \<in> fst ` set d"
proof -
  have "\<exists>d. generate_dependency_metric_attributes demo_runtime bucket_span [] = Inr d"
    by (simp add: bucket_span_def demo_span_def demo_runtime_def split_beta
      generate_dependency_metric_attributes_def set_service_def get_service_attribute_def
      set_remote_service_and_operation_def named_remote_def is_key_present_def get_def
      normalize_remote_service_name_def is_aws_sdk_span_def is_lambda_invoke_operation_def
      get_remote_service_def get_remote_operation_def aws_sdk_service_mapping_def
      unknown_remote_service_def unknown_remote_operation_def
      set_remote_type_and_identifier_def remote_resource_def sdk_resource_def typed_def
      escape_delimiters_def set_remote_account_id_and_region_def arn_attributes_def)
  then obtain d where "generate_dependency_metric_attributes demo_runtime bucket_span [] = Inr d"
    by blast
  with dependency_attributes_wellformed [OF this refl] show ?thesis by auto
qed

text \<open>C28: identifiers are never ambiguous. Two texts with the same escaped form are equal, and a
  composite identifier (knowledge base and data source, database name and address) can be taken
  apart in one way only, however many bars and carets the parts contain.\<close>

theorem identifiers_unambiguous:
  "(escape_text a = escape_text b \<longrightarrow> a = b)
   \<and> (escape_text a @ ''|'' @ escape_text x = escape_text b @ ''|'' @ escape_text y \<longrightarrow> a = b \<and> x = y)"
  using escape_text_inj escape_text_split [of a "escape_text x" b "escape_text y"] by auto

theorem identifiers_unambiguous_witness:
  "(escape_text ''a|'' @ ''|'' @ escape_text ''b'' = escape_text ''a|'' @ ''|'' @ escape_text ''b'')
   \<and> escape_text ''a^'' \<noteq> escape_text ''a|''"
  using identifiers_unambiguous [of "''a^''" "''a|''"] by auto

text \<open>Whose word counts for the remote service. An AWS remote service attribute wins over
  everything, a peer service over everything else; then come RPC (normalised), database, function,
  messaging and GraphQL attributes, and an address of the network peer is used only when none of
  these gives a name.\<close>

theorem remote_service_precedence:
  assumes "set_remote_service_and_operation rt sp d = Inr d'"
  shows "(\<forall>s. get sp ''aws.remote.service'' = Some (AStr s) \<longrightarrow> s \<noteq> ''UnknownRemoteService'' \<longrightarrow>
      map_of d' ''aws.remote.service'' = Some (AStr s))
    \<and> (get sp ''aws.remote.service'' = None \<longrightarrow>
      (\<forall>s. get sp ''peer.service'' = Some (AStr s) \<longrightarrow> s \<noteq> ''UnknownRemoteService'' \<longrightarrow>
        map_of d' ''aws.remote.service'' = Some (AStr s))
      \<and> (get sp ''peer.service'' = None \<longrightarrow> get sp ''aws.remote.operation'' = None \<longrightarrow>
          (\<forall>s. get sp ''rpc.service'' = Some (AStr s) \<longrightarrow> \<not> is_aws_sdk_span sp \<longrightarrow>
             s \<noteq> ''UnknownRemoteService'' \<longrightarrow> map_of d' ''aws.remote.service'' = Some (AStr s))
          \<and> (get sp ''rpc.service'' = None \<longrightarrow> get sp ''rpc.method'' = None \<longrightarrow>
              (\<forall>s. get sp ''db.system'' = Some (AStr s) \<longrightarrow> s \<noteq> ''UnknownRemoteService'' \<longrightarrow>
                 map_of d' ''aws.remote.service'' = Some (AStr s)))))"
proof -
  have key: "map_of d' aws_remote_service = Some v"
    if "named_remote sp = Inr (a, b)" "v \<noteq> AStr unknown_remote_service"
      "v = (if is_key_present sp ''peer.service'' \<and> \<not> is_key_present sp ''aws.remote.service''
            then get_remote_service sp ''peer.service'' else a)" for a b v
  proof -
    from assms that obtain w where
        "d' = AList.update aws_remote_operation w (AList.update aws_remote_service v d)"
      by (auto simp: set_remote_service_and_operation_def bindr_eq_Inr Let_def)
    moreover have "aws_remote_service \<noteq> aws_remote_operation" by (simp add: key_defs)
    ultimately show ?thesis by simp
  qed
  obtain a b where ab: "named_remote sp = Inr (a, b)"
    using assms by (cases "named_remote sp") (auto simp: set_remote_service_and_operation_def)
  have chosen: "map_of d' ''aws.remote.service'' = Some (AStr s)"
    if "s \<noteq> ''UnknownRemoteService''"
      "AStr s = (if get sp ''peer.service'' \<noteq> None \<and> get sp ''aws.remote.service'' = None
         then get_remote_service sp ''peer.service'' else a)" for s
    using key [OF ab _ refl] that
    by (cases "get sp ''peer.service''"; cases "get sp ''aws.remote.service''")
      (simp_all add: is_key_present_def unknown_remote_service_def aws_remote_service_def,
        (metis aval.inject(1))+)
  have aws: "a = AStr s" if "get sp ''aws.remote.service'' = Some (AStr s)" for s
    using ab that by (simp add: named_remote_def is_key_present_def get_remote_service_def)
  have rpc: "a = AStr s" if "get sp ''aws.remote.service'' = None" "get sp ''aws.remote.operation'' = None"
      "get sp ''rpc.service'' = Some (AStr s)" "\<not> is_aws_sdk_span sp" for s
    using ab that by (simp add: named_remote_def is_key_present_def get_remote_service_def
      normalize_remote_service_name_def)
  have db: "a = AStr s" if "get sp ''aws.remote.service'' = None" "get sp ''aws.remote.operation'' = None"
      "get sp ''rpc.service'' = None" "get sp ''rpc.method'' = None" "get sp ''db.system'' = Some (AStr s)" for s
    using ab that by (auto simp: named_remote_def is_key_present_def get_remote_service_def
      is_db_span_def bindr_eq_Inr)
  show ?thesis
  proof (intro conjI allI impI)
    fix s assume "get sp ''aws.remote.service'' = Some (AStr s)" "s \<noteq> ''UnknownRemoteService''"
    then show "map_of d' ''aws.remote.service'' = Some (AStr s)" using aws by (intro chosen) simp_all
  next
    fix s assume "get sp ''aws.remote.service'' = None" "get sp ''peer.service'' = Some (AStr s)"
      "s \<noteq> ''UnknownRemoteService''"
    then show "map_of d' ''aws.remote.service'' = Some (AStr s)"
      by (intro chosen) (simp_all add: get_remote_service_def)
  next
    fix s assume "get sp ''aws.remote.service'' = None" "get sp ''peer.service'' = None"
      "get sp ''aws.remote.operation'' = None" "get sp ''rpc.service'' = Some (AStr s)"
      "\<not> is_aws_sdk_span sp" "s \<noteq> ''UnknownRemoteService''"
    then show "map_of d' ''aws.remote.service'' = Some (AStr s)" using rpc by (intro chosen) simp_all
  next
    fix s assume "get sp ''aws.remote.service'' = None" "get sp ''peer.service'' = None"
      "get sp ''aws.remote.operation'' = None" "get sp ''rpc.service'' = None"
      "get sp ''rpc.method'' = None" "get sp ''db.system'' = Some (AStr s)" "s \<noteq> ''UnknownRemoteService''"
    then show "map_of d' ''aws.remote.service'' = Some (AStr s)" using db by (intro chosen) simp_all
  qed
qed

theorem remote_service_precedence_witness:
  "\<exists>d. map_of d ''aws.remote.service'' = Some (AStr ''orders'')"
proof -
  define sp where "sp = demo_span\<lparr>kind := CLIENT, attributes :=
    [(''rpc.service'', AStr ''S3''), (''peer.service'', AStr ''orders'')]\<rparr>"
  have "\<exists>d. set_remote_service_and_operation demo_runtime sp [] = Inr d"
    by (simp add: sp_def demo_span_def set_remote_service_and_operation_def named_remote_def
      is_key_present_def get_def normalize_remote_service_name_def is_aws_sdk_span_def
      get_remote_service_def get_remote_operation_def unknown_remote_service_def
      generate_remote_operation_def Let_def)
  then obtain d where d: "set_remote_service_and_operation demo_runtime sp [] = Inr d" by blast
  have "get sp ''aws.remote.service'' = None" "get sp ''peer.service'' = Some (AStr ''orders'')"
    by (simp_all add: sp_def get_def)
  with remote_service_precedence [OF d] show ?thesis by auto
qed

text \<open>A Bedrock data source without its knowledge base breaks the generator. An AWS SDK client
  span that has a data source id (and none of the resources that are looked for before it) but no
  knowledge base id raises \<open>TypeError\<close>, whatever else it carries, so the span gets no metric at
  all.\<close>

theorem data_source_without_knowledge_base:
  assumes "kind sp = CLIENT" and "is_aws_sdk_span sp"
    and "get sp ''aws.bedrock.data_source.id'' = Some (AStr ds)"
    and "get sp ''aws.bedrock.knowledge_base.id'' = None"
    and "\<forall>k \<in> {''aws.dynamodb.table_names'', ''aws.dynamodb.table.arn'', ''aws.kinesis.stream.name'',
      ''aws.kinesis.stream.arn'', ''aws.s3.bucket'', ''aws.sqs.queue.name'', ''aws.sqs.queue.url'',
      ''aws.bedrock.agent.id''}. get sp k = None"
  shows "remote_resource rt sp = Inl TypeError
    \<and> (\<exists>e. generate_dependency_metric_attributes rt sp r = Inl e)
    \<and> (\<exists>e. generate_metric_attributes_dict_from_span rt sp r = Inl e)"
proof -
  have bad: "remote_resource rt sp = Inl TypeError"
    using assms by (simp add: remote_resource_def sdk_resource_def is_key_present_def typed_def
      escape_delimiters_def)
  have dep: "\<exists>e. generate_dependency_metric_attributes rt sp r = Inl e"
  proof (cases "generate_dependency_metric_attributes rt sp r")
    case (Inr d)
    then show ?thesis
      by (auto simp: generate_dependency_metric_attributes_def bindr_eq_Inr Let_def
        set_remote_type_and_identifier_def bad)
  qed blast
  moreover have "\<exists>e. generate_metric_attributes_dict_from_span rt sp r = Inl e"
  proof (cases "generate_metric_attributes_dict_from_span rt sp r")
    case (Inr d)
    from generate_cases [OF this] client_span_dependency [OF assms(1)] dep show ?thesis by auto
  qed blast
  ultimately show ?thesis using bad by blast
qed

theorem data_source_without_knowledge_base_witness:
  "remote_resource demo_runtime (demo_span\<lparr>kind := CLIENT, attributes :=
     [(''rpc.system'', AStr ''aws-api''), (''aws.bedrock.data_source.id'', AStr ''ds'')]\<rparr>)
   = Inl TypeError"
  by (rule data_source_without_knowledge_base [where ds = "''ds''", THEN conjunct1])
    (simp_all add: is_aws_sdk_span_def get_def)

text \<open>The operation of a database statement. It is a keyword of the dialect list in upper case
  that the statement begins with, after leading blanks and in any case, followed by a word
  boundary, and among those the first of the list; it is unknown exactly when there is none. It
  never contains anything else of the statement.\<close>

theorem db_statement_operation:
  assumes "get sp key = Some (AStr statement)"
    and "text = py_upper (take 27 (py_lstrip statement))"
  shows "\<exists>op. get_db_statement_remote_operation sp key = Inr (AStr op)
    \<and> (if \<exists>k \<in> set dialect_keywords. prefix k text \<and> boundary_after k text
       then op \<in> set dialect_keywords \<and> prefix op text \<and> boundary_after op text
       else op = ''UnknownRemoteOperation'')"
proof (cases "match_keyword dialect_keywords text")
  case None
  then show ?thesis
    using assms unfolding match_keyword_None
    by (auto simp: get_db_statement_remote_operation_def max_keyword_length_def Let_def
      match_keyword_None [THEN iffD2] unknown_remote_operation_def)
next
  case (Some k)
  then show ?thesis
    using assms match_keyword_Some [OF Some]
    by (auto simp: get_db_statement_remote_operation_def max_keyword_length_def Let_def)
qed

theorem db_statement_operation_witness:
  "\<exists>op. get_db_statement_remote_operation
     (demo_span\<lparr>attributes := [(''db.statement'', AStr ''  select * from t'')]\<rparr>) ''db.statement'' = Inr (AStr op)"
  using db_statement_operation [OF _ refl, of
      "demo_span\<lparr>attributes := [(''db.statement'', AStr ''  select * from t'')]\<rparr>" "''db.statement''"
      "''  select * from t''"]
  by (auto simp: get_def)

end
