(* ===== verification/SpanProcessors.thy ===== *)
theory SpanProcessors
  imports AttributeGenerator
begin

text \<open>
  The span processors and the wrapping exporter: \<open>attribute_propagating_span_processor.py\<close> and its
  builder, \<open>aws_span_metrics_processor.py\<close>, \<open>aws_metric_attributes_span_exporter.py\<close>,
  \<open>aws_batch_unsampled_span_processor.py\<close>, \<open>aws_lambda_span_processor.py\<close> and
  \<open>scope_based_exporter.py\<close>.

  A callback that changes a span takes it and returns it, with the exception if one ends the
  callback: the changes made before it stay. The current span of a context is a readable span of
  the SDK or another object (a non-recording span), which has neither attributes nor a kind.
\<close>

section \<open>Propagating attributes\<close>

datatype current_span = Readable span | Other

lemma set_attribute_frame [simp]:
  "kind (set_attribute k v sp) = kind sp" "parent (set_attribute k v sp) = parent sp"
  "span_name (set_attribute k v sp) = span_name sp" "span_ctx (set_attribute k v sp) = span_ctx sp"
  "is_local_root (set_attribute k v sp) = is_local_root sp"
  by (simp_all add: set_attribute_def is_local_root_def)

record propagating_processor =
  propagation_data_extractor :: "span \<Rightarrow> string res"
  propagation_data_key :: string
  attribute_keys_to_propagate :: "string list"

text \<open>The builder: its defaults, and the setters, which refuse \<open>None\<close>.\<close>

definition default_builder :: "runtime \<Rightarrow> propagating_processor" where
  "default_builder rt =
     \<lparr>propagation_data_extractor = get_ingress_operation rt,
      propagation_data_key = aws_local_operation,
      attribute_keys_to_propagate = [aws_remote_service, aws_remote_operation]\<rparr>"

definition set_propagation_data_extractor ::
    "(span \<Rightarrow> string res) option \<Rightarrow> propagating_processor \<Rightarrow> propagating_processor res" where
  "set_propagation_data_extractor e b =
     (case e of None \<Rightarrow> Inl ValueError | Some f \<Rightarrow> Inr (b\<lparr>propagation_data_extractor := f\<rparr>))"

definition set_propagation_data_key ::
    "string option \<Rightarrow> propagating_processor \<Rightarrow> propagating_processor res" where
  "set_propagation_data_key k b =
     (case k of None \<Rightarrow> Inl ValueError | Some key \<Rightarrow> Inr (b\<lparr>propagation_data_key := key\<rparr>))"

definition set_attributes_keys_to_propagate ::
    "string list option \<Rightarrow> propagating_processor \<Rightarrow> propagating_processor res" where
  "set_attributes_keys_to_propagate ks b =
     (case ks of None \<Rightarrow> Inl ValueError | Some l \<Rightarrow> Inr (b\<lparr>attribute_keys_to_propagate := l\<rparr>))"

definition is_consumer_kind :: "span \<Rightarrow> bool" where
  "is_consumer_kind sp \<longleftrightarrow> CONSUMER = kind sp"

definition is_server_kind :: "span \<Rightarrow> bool" where
  "is_server_kind sp \<longleftrightarrow> SERVER = kind sp"

text \<open>The loop over the keys to propagate.\<close>

fun propagate_keys :: "string list \<Rightarrow> span \<Rightarrow> span \<Rightarrow> span" where
  "propagate_keys [] p sp = sp"
| "propagate_keys (k # ks) p sp =
     propagate_keys ks p (case get p k of None \<Rightarrow> sp | Some v \<Rightarrow> set_attribute k v sp)"

text \<open>What is taken over from a readable parent.\<close>

definition inherit :: "propagating_processor \<Rightarrow> span \<Rightarrow> span \<Rightarrow> span" where
  "inherit pr p sp =
     (let sp1 = (if is_aws_sdk_span p then set_attribute ''aws.sdk.descendant'' (AStr ''true'') sp else sp);
          sp2 = (if INTERNAL = kind p then propagate_keys (attribute_keys_to_propagate pr) p sp1 else sp1);
          sp3 = (if is_consumer_kind sp2 \<and> is_consumer_kind p
                 then set_attribute ''aws.consumer.parent.span.kind'' (AStr (kind_name (kind p))) sp2
                 else sp2)
      in case (get sp3 ''cloud.resource_id'', get p ''cloud.resource_id'') of
           (None, Some v) \<Rightarrow> set_attribute ''cloud.resource_id'' v sp3
         | _ \<Rightarrow> sp3)"

definition propagating_on_start ::
    "propagating_processor \<Rightarrow> current_span \<Rightarrow> span \<Rightarrow> exn option \<times> span" where
  "propagating_on_start pr current sp =
     (let sp1 = (case current of Readable p \<Rightarrow> inherit pr p sp | Other \<Rightarrow> sp);
          extract = (\<lambda>s. bindr (propagation_data_extractor pr s) (\<lambda>op. Inr (Some (AStr op))));
          propagation_data =
            (if is_local_root sp1
             then if \<not> is_server_kind sp1 then extract sp1 else Inr None
             else case current of
                    Readable p \<Rightarrow>
                      if is_server_kind p then extract p else Inr (get p (propagation_data_key pr))
                  | Other \<Rightarrow> Inl AttributeError)
      in case propagation_data of
           Inl e \<Rightarrow> (Some e, sp1)
         | Inr None \<Rightarrow> (None, sp1)
         | Inr (Some v) \<Rightarrow> (None, set_attribute (propagation_data_key pr) v sp1))"

section \<open>Metrics from spans\<close>

text \<open>
  The measurements, in the order in which they are recorded. A latency is the quotient of the
  nanoseconds by a million; the code records the float next to it.
\<close>

datatype measurement = Error int attrs | Fault int attrs | Latency rat attrs

text \<open>A number to compare with, as Python's \<open><\<close> on integers takes it.\<close>

definition number_of :: "aval \<Rightarrow> rat res" where
  "number_of v =
     (case v of AInt i \<Rightarrow> Inr (of_int i) | ABool b \<Rightarrow> Inr (if b then 1 else 0) | AFloat x \<Rightarrow> Inr x
      | _ \<Rightarrow> Inl TypeError)"

definition is_not_error_or_fault :: "aval option \<Rightarrow> bool res" where
  "is_not_error_or_fault http_status_code =
     (case http_status_code of
        None \<Rightarrow> Inr True
      | Some v \<Rightarrow> bindr (number_of v) (\<lambda>n. Inr (n < 400 \<or> n > 599)))"

definition record_error_or_fault :: "span \<Rightarrow> attrs \<Rightarrow> measurement list res" where
  "record_error_or_fault sp ats =
     (let http_status_code = get sp ''http.status_code''
      in bindr (is_not_error_or_fault http_status_code) (\<lambda>neither.
           if neither then
             Inr (if ERROR = status sp then [Error 0 ats, Fault 1 ats] else [Error 0 ats, Fault 0 ats])
           else bindr (number_of (the http_status_code)) (\<lambda>n.
             Inr (if 400 \<le> n \<and> n \<le> 499 then [Error 1 ats, Fault 0 ats]
                  else if 500 \<le> n \<and> n \<le> 599 then [Error 0 ats, Fault 1 ats]
                  else []))))"

definition record_latency :: "span \<Rightarrow> attrs \<Rightarrow> measurement list" where
  "record_latency sp ats =
     (let nanos = end_time sp - start_time sp in [Latency (of_int nanos / 1000000) ats])"

definition is_ec2_metadata_api_span :: "attrs \<Rightarrow> bool" where
  "is_ec2_metadata_api_span ats \<longleftrightarrow> map_of ats aws_remote_service = Some (AStr ''169.254.169.254'')"

definition record_metrics :: "span \<Rightarrow> attrs \<Rightarrow> measurement list res" where
  "record_metrics sp ats =
     (if length ats > 0 \<and> \<not> is_ec2_metadata_api_span ats
      then bindr (record_error_or_fault sp ats) (\<lambda>ms. Inr (ms @ record_latency sp ats))
      else Inr [])"

text \<open>The loop over the metrics, with what was recorded before an exception.\<close>

fun record_all :: "span \<Rightarrow> attrs list \<Rightarrow> measurement list \<times> exn option" where
  "record_all sp [] = ([], None)"
| "record_all sp (ats # rest) =
     (case record_metrics sp ats of
        Inl e \<Rightarrow> ([], Some e)
      | Inr ms \<Rightarrow> (let (ms', e) = record_all sp rest in (ms @ ms', e)))"

definition metrics_on_end ::
    "(span \<Rightarrow> attrs \<Rightarrow> (string \<times> attrs) list res) \<Rightarrow> attrs \<Rightarrow> span \<Rightarrow> measurement list \<times> exn option" where
  "metrics_on_end generate res sp =
     (case generate sp res of
        Inl e \<Rightarrow> ([], Some e)
      | Inr attribute_dict \<Rightarrow> record_all sp (map snd attribute_dict))"

section \<open>Spans with metric attributes\<close>

definition copy_attributes_with_local_root :: "attrs \<Rightarrow> attrs" where
  "copy_attributes_with_local_root ats = AList.update aws_span_kind (AStr local_root) ats"

text \<open>
  \<open>limit\<close> is what a \<open>BoundedAttributes\<close> object of the SDK keeps of the mapping it is built from:
  all of it, unless it has more entries than the limit of the span.
\<close>

definition wrap_span_with_attributes :: "(attrs \<Rightarrow> attrs) \<Rightarrow> span \<Rightarrow> attrs \<Rightarrow> span" where
  "wrap_span_with_attributes limit sp ats =
     sp\<lparr>attributes := limit (foldl (\<lambda>d (k, v). AList.update k v d) (attributes sp) ats)\<rparr>"

definition add_metric_attributes ::
    "(span \<Rightarrow> attrs \<Rightarrow> (string \<times> attrs) list res) \<Rightarrow> (attrs \<Rightarrow> attrs) \<Rightarrow> attrs \<Rightarrow> span \<Rightarrow> span res" where
  "add_metric_attributes generate limit res sp =
     bindr (generate sp res) (\<lambda>attribute_map.
       let service = should_generate_service_metric_attributes sp;
           dependency = should_generate_dependency_metric_attributes sp;
           ats = (if service \<and> dependency
                  then map_option copy_attributes_with_local_root (map_of attribute_map dependency_metric)
                  else if service then map_of attribute_map service_metric
                  else if dependency then map_of attribute_map dependency_metric
                  else None)
       in Inr (case ats of
                 Some a \<Rightarrow> if a \<noteq> [] then wrap_span_with_attributes limit sp a else sp
               | None \<Rightarrow> sp))"

text \<open>\<open>export\<close>: the spans handed to the delegate, whose answer is the answer.\<close>

definition export_with_attributes ::
    "(span \<Rightarrow> attrs \<Rightarrow> (string \<times> attrs) list res) \<Rightarrow> (attrs \<Rightarrow> attrs) \<Rightarrow> attrs
      \<Rightarrow> (span list \<Rightarrow> 'r) \<Rightarrow> span list \<Rightarrow> 'r res" where
  "export_with_attributes generate limit res delegate spans =
     bindr (map_res (add_metric_attributes generate limit res) spans) (\<lambda>modified_spans.
       Inr (delegate modified_spans))"

section \<open>Unsampled spans\<close>

text \<open>
  The fields of the SDK's batch processor that the callbacks use; \<open>queue\<close> is its deque, whose
  maximal length is the queue size, so that a full one loses its right end.
\<close>

record unsampled_processor =
  queue :: "span list"
  max_queue_size :: nat
  max_export_batch_size :: nat
  is_done :: bool
  spans_dropped :: bool
  notified :: bool

definition unsampled_on_start :: "span \<Rightarrow> span" where
  "unsampled_on_start sp =
     (if \<not> sampled (span_ctx sp) then set_attribute ''aws.trace.flag.sampled'' (ABool False) sp else sp)"

definition unsampled_on_end :: "span \<Rightarrow> unsampled_processor \<Rightarrow> unsampled_processor" where
  "unsampled_on_end sp p =
     (if sampled (span_ctx sp) then p
      else if is_done p then p
      else let p1 = (if length (queue p) = max_queue_size p \<and> \<not> spans_dropped p
                     then p\<lparr>spans_dropped := True\<rparr> else p);
               p2 = p1\<lparr>queue := take (max_queue_size p1) (sp # queue p1)\<rparr>
           in if length (queue p2) \<ge> max_export_batch_size p2 then p2\<lparr>notified := True\<rparr> else p2)"

section \<open>Lambda\<close>

text \<open>
  The span, its parent (both are changed) and the exception. The parent is \<open>None\<close> when the context
  has no span, and \<open>Some Other\<close> for a non-recording one.
\<close>

definition lambda_on_start ::
    "string list \<Rightarrow> current_span option \<Rightarrow> span \<Rightarrow> exn option \<times> span \<times> current_span option" where
  "lambda_on_start instrumentation_names parent_span sp =
     (case instrumentation_scope sp of
        None \<Rightarrow> (Some AttributeError, sp, parent_span)
      | Some scope_name \<Rightarrow>
          if scope_name \<in> Some ` set instrumentation_names
          then (case parent_span of
                  None \<Rightarrow> (None, sp, parent_span)
                | Some Other \<Rightarrow> (Some AttributeError, sp, parent_span)
                | Some (Readable p) \<Rightarrow>
                    (case instrumentation_scope p of
                       None \<Rightarrow> (Some AttributeError, sp, parent_span)
                     | Some parent_scope \<Rightarrow>
                         if parent_scope = Some ''opentelemetry.instrumentation.aws_lambda''
                         then (None, sp\<lparr>kind := SERVER\<rparr>,
                               Some (Readable (set_attribute ''aws.trace.lambda.multiple-server''
                                 (ABool True) p)))
                         else (None, sp, parent_span)))
          else (None, sp, parent_span))"

section \<open>Metrics of registered scopes\<close>

record 'm scope_metrics =
  scope_name :: string
  scope_payload :: 'm

record 'm resource_metrics =
  rm_resource :: attrs
  rm_scope_metrics :: "'m scope_metrics list"
  rm_schema_url :: string

text \<open>The metrics that are exported, \<open>None\<close> when the exporter is not called.\<close>

definition receive_metrics ::
    "string list \<Rightarrow> 'm resource_metrics list \<Rightarrow> 'm resource_metrics list option" where
  "receive_metrics registered_scope_names metrics_data =
     (let exporting =
        filter (\<lambda>m. length (rm_scope_metrics m) > 0)
          (map (\<lambda>m. \<lparr>rm_resource = rm_resource m,
                      rm_scope_metrics = filter (\<lambda>s. scope_name s \<in> set registered_scope_names)
                        (rm_scope_metrics m),
                      rm_schema_url = rm_schema_url m\<rparr>) metrics_data)
      in if length exporting > 0 then Some exporting else None)"

section \<open>Lemmas\<close>

lemma propagate_keys_frame [simp]:
  "kind (propagate_keys ks p sp) = kind sp"
  "is_local_root (propagate_keys ks p sp) = is_local_root sp"
  by (induction ks arbitrary: sp) (auto split: option.splits)

lemma inherit_frame [simp]:
  "kind (inherit pr p sp) = kind sp"
  "is_local_root (inherit pr p sp) = is_local_root sp"
  by (auto simp: inherit_def Let_def split: option.splits)

lemma on_start_frame [simp]:
  "kind (snd (propagating_on_start pr (Readable p) sp)) = kind sp"
  "is_local_root (snd (propagating_on_start pr (Readable p) sp)) = is_local_root sp"
  by (auto simp: propagating_on_start_def Let_def split: sum.splits option.splits)

text \<open>Spans that are started one under the other, the first under \<open>p\<close>.\<close>

fun start_chain :: "propagating_processor \<Rightarrow> span \<Rightarrow> span list \<Rightarrow> (exn option \<times> span) list" where
  "start_chain pr p [] = []"
| "start_chain pr p (sp # sps) =
     (let out = propagating_on_start pr (Readable p) sp in out # start_chain pr (snd out) sps)"

lemma on_start_child:
  assumes "\<not> is_local_root sp"
    and "(kind p = SERVER \<and> propagation_data_extractor pr p = Inr op)
      \<or> (kind p \<noteq> SERVER \<and> get p (propagation_data_key pr) = Some (AStr op))"
  shows "fst (propagating_on_start pr (Readable p) sp) = None
    \<and> get (snd (propagating_on_start pr (Readable p) sp)) (propagation_data_key pr) = Some (AStr op)"
  using assms by (auto simp: propagating_on_start_def is_server_kind_def Let_def)

lemma start_chain_operation:
  assumes "\<forall>sp \<in> set sps. \<not> is_local_root sp \<and> kind sp \<noteq> SERVER"
    and "(kind p = SERVER \<and> propagation_data_extractor pr p = Inr op)
      \<or> (kind p \<noteq> SERVER \<and> get p (propagation_data_key pr) = Some (AStr op))"
  shows "\<forall>(e, sp) \<in> set (start_chain pr p sps).
    e = None \<and> get sp (propagation_data_key pr) = Some (AStr op)"
  using assms
proof (induction sps arbitrary: p)
  case Nil
  then show ?case by simp
next
  case (Cons sp sps)
  define out where "out = propagating_on_start pr (Readable p) sp"
  have out: "fst out = None" "get (snd out) (propagation_data_key pr) = Some (AStr op)"
    unfolding out_def using on_start_child [of sp p pr op] Cons.prems by auto
  have "kind (snd out) \<noteq> SERVER" unfolding out_def using Cons.prems(1) by simp
  with out(2) Cons.IH [of "snd out"] Cons.prems(1)
  have "\<forall>(e, sp) \<in> set (start_chain pr (snd out) sps).
      e = None \<and> get sp (propagation_data_key pr) = Some (AStr op)" by auto
  with out show ?case by (auto simp: out_def [symmetric] Let_def split_beta)
qed

text \<open>The verdict on a span with an integer status code, or none.\<close>

definition is_error :: "span \<Rightarrow> bool" where
  "is_error sp \<longleftrightarrow> (case get sp ''http.status_code'' of Some (AInt c) \<Rightarrow> 400 \<le> c \<and> c \<le> 499 | _ \<Rightarrow> False)"

definition is_fault :: "span \<Rightarrow> bool" where
  "is_fault sp \<longleftrightarrow>
     (case get sp ''http.status_code'' of
        Some (AInt c) \<Rightarrow> 500 \<le> c \<and> c \<le> 599 \<or> (c < 400 \<or> 599 < c) \<and> status sp = ERROR
      | _ \<Rightarrow> status sp = ERROR)"

definition int_status :: "span \<Rightarrow> bool" where
  "int_status sp \<longleftrightarrow> (case get sp ''http.status_code'' of None \<Rightarrow> True | Some v \<Rightarrow> \<exists>c. v = AInt c)"

lemma error_or_fault_exclusive: "\<not> (is_error sp \<and> is_fault sp)"
  by (auto simp: is_error_def is_fault_def split: option.splits aval.splits)

lemma record_metrics_int:
  assumes "int_status sp" and "ats \<noteq> []"
  shows "record_metrics sp ats = Inr (if is_ec2_metadata_api_span ats then []
    else [Error (if is_error sp then 1 else 0) ats, Fault (if is_fault sp then 1 else 0) ats,
          Latency (of_int (end_time sp - start_time sp) / 1000000) ats])"
proof (cases "get sp ''http.status_code''")
  case None
  then show ?thesis
    using assms(2) by (auto simp: record_metrics_def record_error_or_fault_def record_latency_def
      is_not_error_or_fault_def is_error_def is_fault_def)
next
  case (Some v)
  with assms(1) obtain c where c: "v = AInt c" by (auto simp: int_status_def)
  have num: "(of_int c < (400 :: rat)) = (c < 400)" "(599 < (of_int c :: rat)) = (599 < c)"
    "(400 \<le> (of_int c :: rat)) = (400 \<le> c)" "((of_int c :: rat) \<le> 499) = (c \<le> 499)"
    "(500 \<le> (of_int c :: rat)) = (500 \<le> c)" "((of_int c :: rat) \<le> 599) = (c \<le> 599)" by simp_all
  show ?thesis
    using assms(2)
    by (auto simp: record_metrics_def record_error_or_fault_def record_latency_def Some c num
      is_not_error_or_fault_def number_of_def is_error_def is_fault_def)
qed

text \<open>A wrapped span: the metric attributes over the old ones.\<close>

lemma wrap_span_get:
  assumes "distinct (map fst ats)"
    and "limit (foldl (\<lambda>d (k, v). AList.update k v d) (attributes sp) ats)
      = foldl (\<lambda>d (k, v). AList.update k v d) (attributes sp) ats"
  shows "get (wrap_span_with_attributes limit sp ats) k =
    (case map_of ats k of Some v \<Rightarrow> Some v | None \<Rightarrow> get sp k)"
  using assms
  by (simp add: wrap_span_with_attributes_def get_def map_of_foldl_update map_of_rev_distinct map_add_def
    split: option.split)

context metric_attribute_generator begin

lemma recorded:
  assumes g: "generate sp r = Inr d" and s: "int_status sp"
  shows "metrics_on_end generate r sp =
    (concat (map (\<lambda>ats. if is_ec2_metadata_api_span ats then []
       else [Error (if is_error sp then 1 else 0) ats, Fault (if is_fault sp then 1 else 0) ats,
             Latency (of_int (end_time sp - start_time sp) / 1000000) ats]) (map snd d)), None)"
proof -
  have "\<forall>ats \<in> set l. ats \<noteq> [] \<Longrightarrow> record_all sp l =
    (concat (map (\<lambda>ats. if is_ec2_metadata_api_span ats then []
       else [Error (if is_error sp then 1 else 0) ats, Fault (if is_fault sp then 1 else 0) ats,
             Latency (of_int (end_time sp - start_time sp) / 1000000) ats]) l), None)" for l
    by (induction l) (simp_all add: record_metrics_int [OF s] Let_def)
  moreover have "\<forall>ats \<in> set (map snd d). ats \<noteq> []" using attributes_not_empty [OF g] by auto
  ultimately show ?thesis by (simp add: metrics_on_end_def g)
qed

definition chosen_metric :: "span \<Rightarrow> string" where
  "chosen_metric sp =
     (if should_generate_dependency_metric_attributes sp then dependency_metric else service_metric)"

lemma exported:
  assumes g: "generate sp r = Inr d" and limit: "\<forall>a. limit a = a"
    and some: "should_generate_service_metric_attributes sp \<or> should_generate_dependency_metric_attributes sp"
  shows "\<exists>ats sp'. map_of d (chosen_metric sp) = Some ats
    \<and> add_metric_attributes generate limit r sp = Inr sp'
    \<and> sp' = sp\<lparr>attributes := attributes sp'\<rparr>
    \<and> (\<forall>k. get sp' k = (if k = aws_span_kind then Some (AStr
          (if should_generate_service_metric_attributes sp \<and> is_local_root sp then local_root
           else kind_name (kind sp)))
        else case map_of ats k of Some v \<Rightarrow> Some v | None \<Rightarrow> get sp k))"
proof -
  obtain ats where ats: "map_of d (chosen_metric sp) = Some ats"
    using metric_present [OF g] some by (auto simp: chosen_metric_def split: if_splits)
  note kindv = span_kind [OF g ats] and dist = distinct_keys [OF g ats]
  have ne: "ats \<noteq> []" using kindv by auto
  have names: "service_metric \<noteq> dependency_metric" by (simp add: service_metric_def dependency_metric_def)
  define sv where "sv = should_generate_service_metric_attributes sp"
  define dv where "dv = should_generate_dependency_metric_attributes sp"
  define ats' where "ats' = (if sv \<and> dv then copy_attributes_with_local_root ats else ats)"
  have ne': "ats' \<noteq> []" "distinct (map fst ats')"
    using ne dist by (auto simp: ats'_def copy_attributes_with_local_root_def)
  have out: "add_metric_attributes generate limit r sp = Inr (wrap_span_with_attributes limit sp ats')"
    using ats ne' some
    by (auto simp: add_metric_attributes_def g Let_def chosen_metric_def ats'_def sv_def dv_def
      split: if_splits)
  have look: "get (wrap_span_with_attributes limit sp ats') k =
      (case map_of ats' k of Some v \<Rightarrow> Some v | None \<Rightarrow> get sp k)" for k
    using ne'(2) limit by (intro wrap_span_get) auto
  have both_root: "sv \<Longrightarrow> dv \<Longrightarrow> is_local_root sp"
    using server_span_kinds [of sp]
    by (auto simp: sv_def dv_def should_generate_service_metric_attributes_def)
  show ?thesis
  proof (intro exI conjI allI)
    show "map_of d (chosen_metric sp) = Some ats" by (rule ats)
    show "add_metric_attributes generate limit r sp = Inr (wrap_span_with_attributes limit sp ats')"
      by (rule out)
    show "wrap_span_with_attributes limit sp ats' =
        sp\<lparr>attributes := attributes (wrap_span_with_attributes limit sp ats')\<rparr>"
      by (simp add: wrap_span_with_attributes_def)
    fix k
    show "get (wrap_span_with_attributes limit sp ats') k = (if k = aws_span_kind then Some (AStr
          (if should_generate_service_metric_attributes sp \<and> is_local_root sp then local_root
           else kind_name (kind sp)))
        else case map_of ats k of Some v \<Rightarrow> Some v | None \<Rightarrow> get sp k)"
      unfolding look
      using kindv both_root some names
      by (auto simp: ats'_def copy_attributes_with_local_root_def chosen_metric_def sv_def dv_def
        split: if_splits)
  qed
qed

lemma untouched:
  assumes "generate sp r = Inr d"
    and "\<not> should_generate_service_metric_attributes sp"
    and "\<not> should_generate_dependency_metric_attributes sp"
  shows "add_metric_attributes generate limit r sp = Inr sp"
  using assms by (simp add: add_metric_attributes_def Let_def)

end

section \<open>Properties\<close>

text \<open>The local operation reaches every descendant. Spans that are started one under the other
  below a server span all carry, under the propagation key, the operation extracted from that
  server span, and none of their callbacks raises, as long as the spans between are no servers
  and no local roots themselves; a local root that is no server carries its own operation.\<close>

theorem propagation_reaches_descendants:
  assumes "kind p = SERVER" and "propagation_data_extractor pr p = Inr op"
    and "\<forall>sp \<in> set sps. \<not> is_local_root sp \<and> kind sp \<noteq> SERVER"
  shows "\<forall>(e, sp) \<in> set (start_chain pr p sps).
    e = None \<and> get sp (propagation_data_key pr) = Some (AStr op)"
  using start_chain_operation [of sps p pr op] assms by blast

definition child_span :: span where
  "child_span = demo_span\<lparr>kind := CLIENT, attributes := [],
     parent := Some \<lparr>ctx_trace_id = 1, ctx_span_id = 9, is_valid = True, is_remote = False, sampled = True\<rparr>\<rparr>"

theorem propagation_reaches_descendants_witness:
  "get (snd (last (start_chain (default_builder demo_runtime) demo_span [child_span, child_span])))
     ''aws.local.operation'' = Some (AStr ''GET /payment'')"
proof -
  have k: "kind demo_span = SERVER" by (simp add: demo_span_def)
  have e: "propagation_data_extractor (default_builder demo_runtime) demo_span = Inr ''GET /payment''"
    by (simp add: default_builder_def demo_runtime_def demo_span_def get_ingress_operation_def
      should_use_internal_operation_def is_valid_operation_def is_key_present_def get_def
      generate_ingress_operation_def api_path_of_def add_str_def extract_api_path_value_def)
  have c: "\<forall>sp \<in> set [child_span, child_span]. \<not> is_local_root sp \<and> kind sp \<noteq> SERVER"
    by (simp add: child_span_def is_local_root_def)
  have "last (start_chain (default_builder demo_runtime) demo_span [child_span, child_span])
      \<in> set (start_chain (default_builder demo_runtime) demo_span [child_span, child_span])"
    by (rule last_in_set) (simp add: Let_def)
  with propagation_reaches_descendants [OF k e c] show ?thesis
    by (auto simp: default_builder_def aws_local_operation_def split_beta)
qed

text \<open>C30: errors, faults and latencies. For every metric the generator makes of a span (except those of
  the EC2 metadata service) there is exactly one error, one fault and one latency measurement,
  never both an error and a fault: an error for a status code 400 to 499, a fault for 500 to 599,
  and without a code in these ranges a fault exactly when the status of the span is ERROR.\<close>

theorem span_metrics_recorded:
  assumes "generate_metric_attributes_dict_from_span rt sp r = Inr d"
    and "\<forall>v. get sp ''http.status_code'' = Some v \<longrightarrow> (\<exists>c. v = AInt c)"
  shows "\<exists>e f. e \<in> {0, 1} \<and> f \<in> {0, 1} \<and> e + f \<le> 1
    \<and> (e = 1 \<longleftrightarrow> (\<exists>c. get sp ''http.status_code'' = Some (AInt c) \<and> 400 \<le> c \<and> c \<le> 499))
    \<and> (f = 1 \<longleftrightarrow> (\<exists>c. get sp ''http.status_code'' = Some (AInt c) \<and> 500 \<le> c \<and> c \<le> 599)
        \<or> status sp = ERROR \<and> (\<forall>c. get sp ''http.status_code'' = Some (AInt c) \<longrightarrow> c < 400 \<or> 599 < c))
    \<and> metrics_on_end (generate_metric_attributes_dict_from_span rt) r sp =
        (concat (map (\<lambda>ats. if map_of ats ''aws.remote.service'' = Some (AStr ''169.254.169.254'') then []
           else [Error e ats, Fault f ats, Latency (of_int (end_time sp - start_time sp) / 1000000) ats])
          (map snd d)), None)"
proof -
  have s: "int_status sp" using assms(2) by (auto simp: int_status_def split: option.split)
  let ?e = "if is_error sp then 1 else 0 :: int" and ?f = "if is_fault sp then 1 else 0 :: int"
  have "?e + ?f \<le> 1" using error_or_fault_exclusive [of sp] by auto
  moreover have "?e = 1 \<longleftrightarrow> (\<exists>c. get sp ''http.status_code'' = Some (AInt c) \<and> 400 \<le> c \<and> c \<le> 499)"
    by (auto simp: is_error_def split: option.splits aval.splits)
  moreover have "?f = 1 \<longleftrightarrow> (\<exists>c. get sp ''http.status_code'' = Some (AInt c) \<and> 500 \<le> c \<and> c \<le> 599)
        \<or> status sp = ERROR \<and> (\<forall>c. get sp ''http.status_code'' = Some (AInt c) \<longrightarrow> c < 400 \<or> 599 < c)"
    using assms(2) by (cases "get sp ''http.status_code''") (auto simp: is_fault_def)
  moreover have "?e \<in> {0, 1}" "?f \<in> {0, 1}" by simp_all
  moreover note generator.recorded [OF assms(1) s, unfolded is_ec2_metadata_api_span_def aws_remote_service_def]
  ultimately show ?thesis by blast
qed

theorem span_metrics_recorded_witness:
  "\<exists>ms. metrics_on_end (generate_metric_attributes_dict_from_span demo_runtime) [] demo_span = (ms, None)"
proof -
  have "\<exists>d. generate_metric_attributes_dict_from_span demo_runtime demo_span [] = Inr d"
    by (simp add: generate_metric_attributes_dict_from_span_def demo_span_def demo_runtime_def
      should_generate_service_metric_attributes_def should_generate_dependency_metric_attributes_def
      is_dependency_consumer_span_def generate_service_metric_attributes_def set_service_def
      get_service_attribute_def set_ingress_operation_def get_ingress_operation_def
      should_use_internal_operation_def is_valid_operation_def is_key_present_def get_def
      generate_ingress_operation_def api_path_of_def add_str_def)
  then obtain d where d: "generate_metric_attributes_dict_from_span demo_runtime demo_span [] = Inr d"
    by blast
  have "\<forall>v. get demo_span ''http.status_code'' = Some v \<longrightarrow> (\<exists>c. v = AInt c)"
    by (simp add: get_def demo_span_def)
  from span_metrics_recorded [OF d this] show ?thesis by blast
qed

text \<open>What the exporter does to a span. A span without metrics is exported as it is. Otherwise only
  its attributes change (the limit of the SDK permitting): the attributes of its dependency
  metric, or else of its service metric, override its own, every other attribute stays, and the
  span kind attribute is LOCAL_ROOT exactly for a local root with a service metric.\<close>

theorem exporter_adds_metric_attributes:
  assumes "generate_metric_attributes_dict_from_span rt sp r = Inr d" and "\<forall>a. limit a = a"
  shows "if d = [] then add_metric_attributes (generate_metric_attributes_dict_from_span rt) limit r sp = Inr sp
    else \<exists>ats sp'. Some ats = (case map_of d ''Dependency'' of Some a \<Rightarrow> Some a | None \<Rightarrow> map_of d ''Service'')
      \<and> add_metric_attributes (generate_metric_attributes_dict_from_span rt) limit r sp = Inr sp'
      \<and> sp' = sp\<lparr>attributes := attributes sp'\<rparr>
      \<and> (\<forall>k. get sp' k =
          (if k = ''aws.span.kind'' then Some (AStr
             (if map_of d ''Service'' \<noteq> None \<and> is_local_root sp then ''LOCAL_ROOT'' else kind_name (kind sp)))
           else case map_of ats k of Some v \<Rightarrow> Some v | None \<Rightarrow> get sp k))"
proof (cases "d = []")
  case True
  then have "\<not> should_generate_service_metric_attributes sp" "\<not> should_generate_dependency_metric_attributes sp"
    using generator.metrics [OF assms(1)] by (auto split: if_splits)
  with True show ?thesis using generator.untouched [OF assms(1)] by simp
next
  case False
  have names: "(map_of d ''Service'' \<noteq> None) = should_generate_service_metric_attributes sp"
    "(map_of d ''Dependency'' \<noteq> None) = should_generate_dependency_metric_attributes sp"
    using generator.metric_present [OF assms(1)] by (auto simp: service_metric_def dependency_metric_def)
  have some: "should_generate_service_metric_attributes sp \<or> should_generate_dependency_metric_attributes sp"
    using False generator.metrics [OF assms(1)] by (auto split: if_splits)
  have chosen: "map_of d (generator.chosen_metric sp) =
      (case map_of d ''Dependency'' of Some a \<Rightarrow> Some a | None \<Rightarrow> map_of d ''Service'')"
    using names by (auto simp: generator.chosen_metric_def service_metric_def dependency_metric_def
      split: option.split)
  obtain ats sp' where out: "map_of d (generator.chosen_metric sp) = Some ats"
      "add_metric_attributes (generate_metric_attributes_dict_from_span rt) limit r sp = Inr sp'"
      "sp' = sp\<lparr>attributes := attributes sp'\<rparr>"
      and look: "\<forall>k. get sp' k = (if k = aws_span_kind then Some (AStr
          (if should_generate_service_metric_attributes sp \<and> is_local_root sp then local_root
           else kind_name (kind sp)))
        else case map_of ats k of Some v \<Rightarrow> Some v | None \<Rightarrow> get sp k)"
    using generator.exported [OF assms some] by blast
  note look' = look [folded names(1), unfolded aws_span_kind_def local_root_def]
  have "Some ats = (case map_of d ''Dependency'' of Some a \<Rightarrow> Some a | None \<Rightarrow> map_of d ''Service'')"
    using out(1) chosen by simp
  then show ?thesis
    unfolding if_not_P [OF False] using out(2,3) look' by blast
qed

theorem exporter_adds_metric_attributes_witness:
  "\<exists>sp'. add_metric_attributes (generate_metric_attributes_dict_from_span demo_runtime) (\<lambda>a. a) [] demo_span
     = Inr sp' \<and> get sp' ''aws.span.kind'' = Some (AStr ''LOCAL_ROOT'')"
proof -
  have "\<exists>d. generate_metric_attributes_dict_from_span demo_runtime demo_span [] = Inr d
      \<and> map_of d ''Service'' \<noteq> None"
    by (simp add: generate_metric_attributes_dict_from_span_def demo_span_def demo_runtime_def
      should_generate_service_metric_attributes_def should_generate_dependency_metric_attributes_def
      is_dependency_consumer_span_def generate_service_metric_attributes_def set_service_def
      get_service_attribute_def set_ingress_operation_def get_ingress_operation_def
      should_use_internal_operation_def is_valid_operation_def is_key_present_def get_def
      generate_ingress_operation_def api_path_of_def add_str_def service_metric_def)
  then obtain d where d: "generate_metric_attributes_dict_from_span demo_runtime demo_span [] = Inr d"
      "map_of d ''Service'' \<noteq> None" by blast
  have "d \<noteq> []" "is_local_root demo_span"
    using d(2) by (auto simp: demo_span_def is_local_root_def)
  then obtain ats sp' where "add_metric_attributes
        (generate_metric_attributes_dict_from_span demo_runtime) (\<lambda>a. a) [] demo_span = Inr sp'"
      "\<forall>k. get sp' k = (if k = ''aws.span.kind'' then Some (AStr
             (if map_of d ''Service'' \<noteq> None \<and> is_local_root demo_span then ''LOCAL_ROOT''
              else kind_name (kind demo_span)))
           else case map_of ats k of Some v \<Rightarrow> Some v | None \<Rightarrow> get demo_span k)"
    using exporter_adds_metric_attributes [OF d(1), of "\<lambda>a. a"] by (simp only: if_False simp_thms) blast
  with d(2) \<open>is_local_root demo_span\<close> show ?thesis by simp
qed

text \<open>The unsampled span processor keeps what the sampled one leaves out. A sampled span never gets
  into its queue and an unsampled one is put at its front while the processor runs; the queue never
  holds more than its maximal size, and a full queue loses its oldest span.\<close>

theorem unsampled_queue:
  assumes "length (queue p) \<le> max_queue_size p" and "0 < max_queue_size p"
  shows "length (queue (unsampled_on_end sp p)) \<le> max_queue_size p
    \<and> queue (unsampled_on_end sp p) =
      (if sampled (span_ctx sp) \<or> is_done p then queue p
       else if length (queue p) = max_queue_size p then sp # butlast (queue p)
       else sp # queue p)
    \<and> ((\<forall>q \<in> set (queue p). \<not> sampled (span_ctx q)) \<longrightarrow>
        (\<forall>q \<in> set (queue (unsampled_on_end sp p)). \<not> sampled (span_ctx q)))"
proof -
  have eq: "queue (unsampled_on_end sp p) =
      (if sampled (span_ctx sp) \<or> is_done p then queue p
       else if length (queue p) = max_queue_size p then sp # butlast (queue p)
       else sp # queue p)"
    using assms
    by (cases "max_queue_size p")
      (auto simp: unsampled_on_end_def Let_def butlast_conv_take min_def)
  show ?thesis
    unfolding eq using assms by (auto dest: in_set_butlastD)
qed

theorem unsampled_queue_witness:
  "queue (unsampled_on_end (demo_span\<lparr>span_ctx := (span_ctx demo_span)\<lparr>sampled := False\<rparr>\<rparr>)
     \<lparr>queue = [], max_queue_size = 2, max_export_batch_size = 1, is_done = False,
      spans_dropped = False, notified = False\<rparr>)
   = [demo_span\<lparr>span_ctx := (span_ctx demo_span)\<lparr>sampled := False\<rparr>\<rparr>]"
  by (subst unsampled_queue [THEN conjunct2, THEN conjunct1]) simp_all

text \<open>Only metrics of registered scopes are exported. The export keeps the resources, their schema
  URLs and the order, and of each resource exactly the scopes that are registered; a resource
  without one is left out, and nothing is exported when all are.\<close>

theorem scopes_filtered:
  "concat (map (\<lambda>m. map (\<lambda>s. (rm_resource m, rm_schema_url m, s)) (rm_scope_metrics m))
      (case receive_metrics names data of None \<Rightarrow> [] | Some ms \<Rightarrow> ms))
   = filter (\<lambda>(_, _, s). scope_name s \<in> set names)
       (concat (map (\<lambda>m. map (\<lambda>s. (rm_resource m, rm_schema_url m, s)) (rm_scope_metrics m)) data))
   \<and> (receive_metrics names data = None \<longleftrightarrow>
       \<not> (\<exists>m \<in> set data. \<exists>s \<in> set (rm_scope_metrics m). scope_name s \<in> set names))"
proof
  define g where "g = (\<lambda>m. \<lparr>rm_resource = rm_resource m,
      rm_scope_metrics = filter (\<lambda>s. scope_name s \<in> set names) (rm_scope_metrics m),
      rm_schema_url = rm_schema_url (m :: 'a resource_metrics)\<rparr>)"
  define ms where "ms = filter (\<lambda>m. length (rm_scope_metrics m) > 0) (map g data)"
  have out: "receive_metrics names data = (if ms = [] then None else Some ms)"
    by (simp add: receive_metrics_def ms_def g_def)
  have flat: "concat (map (\<lambda>m. map (\<lambda>s. (rm_resource m, rm_schema_url m, s)) (rm_scope_metrics m)) ms)
      = filter (\<lambda>(_, _, s). scope_name s \<in> set names)
       (concat (map (\<lambda>m. map (\<lambda>s. (rm_resource m, rm_schema_url m, s)) (rm_scope_metrics m)) data))"
    unfolding ms_def by (induction data) (auto simp: g_def filter_map comp_def)
  then show "concat (map (\<lambda>m. map (\<lambda>s. (rm_resource m, rm_schema_url m, s)) (rm_scope_metrics m))
      (case receive_metrics names data of None \<Rightarrow> [] | Some ms \<Rightarrow> ms))
   = filter (\<lambda>(_, _, s). scope_name s \<in> set names)
       (concat (map (\<lambda>m. map (\<lambda>s. (rm_resource m, rm_schema_url m, s)) (rm_scope_metrics m)) data))"
    by (cases "ms = []") (simp_all add: out)
  have "ms = [] \<longleftrightarrow> \<not> (\<exists>m \<in> set data. \<exists>s \<in> set (rm_scope_metrics m). scope_name s \<in> set names)"
    by (auto simp: ms_def g_def filter_empty_conv)
  then show "receive_metrics names data = None \<longleftrightarrow>
       \<not> (\<exists>m \<in> set data. \<exists>s \<in> set (rm_scope_metrics m). scope_name s \<in> set names)"
    by (simp add: out)
qed

theorem scopes_filtered_witness:
  "receive_metrics [''kept''] [\<lparr>rm_resource = [], rm_scope_metrics = [\<lparr>scope_name = ''other'', scope_payload = ()\<rparr>],
     rm_schema_url = []\<rparr>] = None"
  by (subst scopes_filtered [THEN conjunct2]) simp

end
