(* ===== verification/SignalFlow.thy ===== *)
theory SignalFlow
  imports SpanProcessors
begin

text \<open>
  The span processors of Application Signals working together: what the attribute propagating processor
  hands down when spans start is what the metrics of every span are filed under when they end. The local
  service and operation of a request are those of all the calls made to serve it.
\<close>

section \<open>Local keys survive the remote ones\<close>

definition same_local :: "attrs \<Rightarrow> attrs \<Rightarrow> bool" where
  "same_local d d' \<longleftrightarrow>
     map_of d' aws_local_service = map_of d aws_local_service
     \<and> map_of d' aws_local_operation = map_of d aws_local_operation"

lemma same_local_refl [simp]: "same_local d d"
  by (simp add: same_local_def)

lemma same_local_trans: "same_local d d' \<Longrightarrow> same_local d' d'' \<Longrightarrow> same_local d d''"
  by (simp add: same_local_def)

lemma same_local_update:
  "k \<noteq> aws_local_service \<Longrightarrow> k \<noteq> aws_local_operation \<Longrightarrow> same_local d d' \<Longrightarrow> same_local d (AList.update k v d')"
  by (simp add: same_local_def map_of_update)

lemma remote_keys_not_local:
  "aws_remote_service \<noteq> aws_local_service" "aws_remote_service \<noteq> aws_local_operation"
  "aws_remote_operation \<noteq> aws_local_service" "aws_remote_operation \<noteq> aws_local_operation"
  "aws_remote_environment \<noteq> aws_local_service" "aws_remote_environment \<noteq> aws_local_operation"
  "aws_remote_resource_type \<noteq> aws_local_service" "aws_remote_resource_type \<noteq> aws_local_operation"
  "aws_remote_resource_identifier \<noteq> aws_local_service" "aws_remote_resource_identifier \<noteq> aws_local_operation"
  "aws_cloudformation_primary_identifier \<noteq> aws_local_service" "aws_cloudformation_primary_identifier \<noteq> aws_local_operation"
  "aws_remote_resource_account_id \<noteq> aws_local_service" "aws_remote_resource_account_id \<noteq> aws_local_operation"
  "aws_remote_resource_region \<noteq> aws_local_service" "aws_remote_resource_region \<noteq> aws_local_operation"
  "aws_remote_resource_access_key \<noteq> aws_local_service" "aws_remote_resource_access_key \<noteq> aws_local_operation"
  "aws_remote_db_user \<noteq> aws_local_service" "aws_remote_db_user \<noteq> aws_local_operation"
  "aws_span_kind \<noteq> aws_local_service" "aws_span_kind \<noteq> aws_local_operation"
  by (simp_all add: key_defs)

lemmas local_steps = same_local_update remote_keys_not_local

lemma type_and_identifier_local:
  assumes "set_remote_type_and_identifier rt sp d = Inr (b, d')"
  shows "same_local d d'"
proof -
  obtain t i c where "remote_resource rt sp = Inr (t, i, c)"
    using assms by (cases "remote_resource rt sp") (auto simp: set_remote_type_and_identifier_def)
  with assms show ?thesis
    by (cases t; cases i; cases c) (auto simp: set_remote_type_and_identifier_def local_steps)
qed

lemma account_and_region_local:
  assumes "set_remote_account_id_and_region sp d = Inr (b, d')"
  shows "same_local d d'"
proof -
  obtain account region where "(case (account, region) of
      (Some a, Some r) \<Rightarrow>
        Inr (True, AList.update aws_remote_resource_region (AStr r)
                    (AList.update aws_remote_resource_account_id (AStr a) d))
    | _ \<Rightarrow> Inr (False, d)) = (Inr (b, d') :: (bool \<times> attrs) res)"
    using assms unfolding set_remote_account_id_and_region_def bindr_eq_Inr by auto
  then show ?thesis by (cases account; cases region) (auto simp: local_steps)
qed

lemma remote_steps_local:
  "set_remote_service_and_operation rt sp d = Inr d' \<Longrightarrow> same_local d d'"
  "same_local d (set_remote_access_key_and_region sp d)"
  "same_local d (set_remote_environment rt sp d)"
  "same_local d (set_remote_db_user sp d)"
  "same_local d (set_span_kind_for_dependency sp d)"
  "same_local d (set_span_kind_for_service sp d)"
  by (auto simp: set_remote_service_and_operation_def set_remote_access_key_and_region_def
      set_remote_environment_def set_remote_db_user_def set_span_kind_for_dependency_def
      set_span_kind_for_service_def bindr_eq_Inr Let_def local_steps split: option.splits if_splits)

section \<open>The local attributes of the two metrics\<close>

lemma service_metric_local:
  assumes "generate_service_metric_attributes rt sp r = Inr a"
  shows "\<exists>op name u. get_ingress_operation rt sp = Inr op \<and> get_service_attribute r = Inr (name, u)
    \<and> map_of a aws_local_operation = Some (AStr op) \<and> map_of a aws_local_service = Some (AStr name)"
proof -
  obtain d0 d1 where d: "set_service r [] = Inr d0" "set_ingress_operation rt sp d0 = Inr d1"
      "a = set_span_kind_for_service sp d1"
    using assms by (auto simp: generate_service_metric_attributes_def bindr_eq_Inr)
  have "same_local d1 a" unfolding d(3) by (rule remote_steps_local(6))
  moreover obtain op name u where "get_ingress_operation rt sp = Inr op" "get_service_attribute r = Inr (name, u)"
      "d1 = AList.update aws_local_operation (AStr op) (AList.update aws_local_service (AStr name) [])"
    using d(1,2) by (auto simp: set_service_def set_ingress_operation_def bindr_eq_Inr)
  ultimately show ?thesis by (auto simp: same_local_def map_of_update key_defs)
qed

lemma dependency_metric_local:
  assumes "generate_dependency_metric_attributes rt sp r = Inr a"
  shows "\<exists>name u. get_service_attribute r = Inr (name, u) \<and> map_of a aws_local_service = Some (AStr name)
    \<and> map_of a aws_local_operation
      = Some (case get_egress_operation sp of None \<Rightarrow> AStr unknown_operation | Some v \<Rightarrow> v)"
proof -
  obtain d0 d2 ident d3 d5 where
      d0: "set_service r [] = Inr d0"
      and d2: "set_remote_service_and_operation rt sp (set_egress_operation sp d0) = Inr d2"
      and d3: "set_remote_type_and_identifier rt sp d2 = Inr (ident, d3)"
      and d5: "(if ident then bindr (set_remote_account_id_and_region sp d3) (\<lambda>(acc, d4).
             Inr (if acc then d4 else set_remote_access_key_and_region sp d4)) else Inr d3) = Inr d5"
      and a: "a = set_span_kind_for_dependency sp (set_remote_db_user sp (set_remote_environment rt sp d5))"
    using assms by (auto simp: generate_dependency_metric_attributes_def bindr_eq_Inr Let_def)
  have "same_local d3 d5"
    using d5 account_and_region_local
    by (auto simp: bindr_eq_Inr split: if_splits intro: same_local_trans [OF _ remote_steps_local(2)])
  then have "same_local (set_egress_operation sp d0) a"
    unfolding a using remote_steps_local(1) [OF d2] type_and_identifier_local [OF d3]
    by (simp add: same_local_def remote_steps_local(3-5) [unfolded same_local_def])
  moreover obtain name u where "get_service_attribute r = Inr (name, u)"
      "d0 = AList.update aws_local_service (AStr name) []"
    using d0 by (auto simp: set_service_def bindr_eq_Inr)
  ultimately show ?thesis
    by (auto simp: same_local_def set_egress_operation_def map_of_update key_defs)
qed

lemma start_chain_roots:
  "\<forall>sp \<in> set sps. \<not> is_local_root sp \<Longrightarrow> (e, sp) \<in> set (start_chain pr p sps) \<Longrightarrow> \<not> is_local_root sp"
proof (induction sps arbitrary: p)
  case (Cons q sps)
  show ?case
  proof (cases "(e, sp) = propagating_on_start pr (Readable p) q")
    case True
    then have "sp = snd (propagating_on_start pr (Readable p) q)" by (metis snd_conv)
    with Cons.prems(1) show ?thesis by simp
  next
    case False
    with Cons show ?thesis by (auto simp: Let_def)
  qed
qed simp

lemma chain_operation_default:
  assumes "kind p = SERVER" "get_ingress_operation rt p = Inr op"
    and "\<forall>sp \<in> set sps. \<not> is_local_root sp \<and> kind sp \<noteq> SERVER"
  shows "\<forall>(e, sp) \<in> set (start_chain (default_builder rt) p sps).
      get sp aws_local_operation = Some (AStr op) \<and> \<not> is_local_root sp"
proof -
  have "\<forall>(e, sp) \<in> set (start_chain (default_builder rt) p sps).
      e = None \<and> get sp (propagation_data_key (default_builder rt)) = Some (AStr op)"
    by (rule start_chain_operation) (use assms in \<open>auto simp: default_builder_def\<close>)
  then show ?thesis using assms(3) start_chain_roots [of sps _ _ "default_builder rt" p]
    by (auto simp: default_builder_def)
qed

text \<open>C17: A request and its calls are filed together. Take a server span and spans started one under the
  other below it, no servers and no local roots themselves, with the processors of Application Signals:
  the service metric of the request and the dependency metric of every call carry the same local service,
  and the operation of the calls is the one of the request.\<close>

theorem request_operation_shared:
  assumes "kind p = SERVER" and "get_ingress_operation rt p = Inr op"
    and "\<forall>sp \<in> set sps. \<not> is_local_root sp \<and> kind sp \<noteq> SERVER"
    and "generate_metric_attributes_dict_from_span rt p r = Inr dp"
    and "(e, c) \<in> set (start_chain (default_builder rt) p sps)"
    and "generate_metric_attributes_dict_from_span rt c r = Inr dc"
  shows "\<exists>a service. map_of dp ''Service'' = Some a
    \<and> map_of a ''aws.local.operation'' = Some (AStr op) \<and> map_of a ''aws.local.service'' = Some (AStr service)
    \<and> (\<forall>b. map_of dc ''Dependency'' = Some b \<longrightarrow>
        map_of b ''aws.local.operation'' = Some (AStr op) \<and> map_of b ''aws.local.service'' = Some (AStr service))"
proof -
  have "should_generate_service_metric_attributes p"
    using assms(1) by (simp add: should_generate_service_metric_attributes_def)
  with generate_cases [OF assms(4)] obtain a where a: "generate_service_metric_attributes rt p r = Inr a"
      "map_of dp ''Service'' = Some a"
    by (auto simp: service_metric_def)
  from service_metric_local [OF a(1)] assms(2) obtain name u where
      name: "get_service_attribute r = Inr (name, u)" "map_of a aws_local_operation = Some (AStr op)"
        "map_of a aws_local_service = Some (AStr name)" by auto
  have chain: "\<forall>(e, sp) \<in> set (start_chain (default_builder rt) p sps).
      get sp aws_local_operation = Some (AStr op) \<and> \<not> is_local_root sp"
    using assms(1-3) by (rule chain_operation_default)
  have "map_of b aws_local_operation = Some (AStr op) \<and> map_of b aws_local_service = Some (AStr name)"
    if "map_of dc ''Dependency'' = Some b" for b
  proof -
    have "generate_dependency_metric_attributes rt c r = Inr b"
      using generate_cases [OF assms(6)] that
      by (auto simp: service_metric_def dependency_metric_def split: if_splits)
    from dependency_metric_local [OF this] chain assms(5) name(1) show ?thesis
      by (auto simp: get_egress_operation_def should_use_internal_operation_def aws_local_operation_def)
  qed
  with a(2) name show ?thesis by (auto simp: aws_local_operation_def aws_local_service_def)
qed

text \<open>A payment request and the database or service call below it.\<close>

definition call_span :: span where
  "call_span = snd (last (start_chain (default_builder demo_runtime) demo_span [child_span]))"

lemma demo_request:
  "get_ingress_operation demo_runtime demo_span = Inr ''GET /payment''"
  "\<exists>dp. generate_metric_attributes_dict_from_span demo_runtime demo_span [] = Inr dp"
  by (simp_all add: generate_metric_attributes_dict_from_span_def demo_span_def demo_runtime_def
      should_generate_service_metric_attributes_def should_generate_dependency_metric_attributes_def
      is_dependency_consumer_span_def generate_service_metric_attributes_def set_service_def
      get_service_attribute_def set_ingress_operation_def get_ingress_operation_def
      should_use_internal_operation_def is_valid_operation_def is_key_present_def get_def
      generate_ingress_operation_def api_path_of_def add_str_def extract_api_path_value_def)

lemma demo_call:
  "case generate_metric_attributes_dict_from_span demo_runtime call_span [] of
     Inl e \<Rightarrow> False | Inr dc \<Rightarrow> map_of dc ''Dependency'' \<noteq> None"
  by code_simp

theorem request_operation_shared_witness:
  "\<exists>dc b. generate_metric_attributes_dict_from_span demo_runtime call_span [] = Inr dc
     \<and> map_of dc ''Dependency'' = Some b \<and> map_of b ''aws.local.operation'' = Some (AStr ''GET /payment'')"
proof -
  obtain dp where dp: "generate_metric_attributes_dict_from_span demo_runtime demo_span [] = Inr dp"
    using demo_request(2) by blast
  obtain dc b where dc: "generate_metric_attributes_dict_from_span demo_runtime call_span [] = Inr dc"
      "map_of dc ''Dependency'' = Some b"
    using demo_call by (auto split: sum.splits)
  have "last (start_chain (default_builder demo_runtime) demo_span [child_span])
      \<in> set (start_chain (default_builder demo_runtime) demo_span [child_span])"
    by (rule last_in_set) (simp add: Let_def)
  then obtain e where "(e, call_span) \<in> set (start_chain (default_builder demo_runtime) demo_span [child_span])"
    unfolding call_span_def by (metis prod.collapse)
  moreover have "kind demo_span = SERVER" by (simp add: demo_span_def)
  moreover have "\<forall>sp \<in> set [child_span]. \<not> is_local_root sp \<and> kind sp \<noteq> SERVER"
    by (simp add: child_span_def is_local_root_def)
  ultimately show ?thesis
    using request_operation_shared [OF _ demo_request(1) _ dp _ dc(1)] dc by blast
qed

end
