(* ===== verification/Delivery.thy ===== *)
theory Delivery
  imports SpanProcessors
begin

text \<open>
  The small parts around the processors and exporters: the test for an installed package (\<open>_utils.py\<close>),
  the builders and the shutdown of the metrics processor and of the wrapping exporter, the metric view
  (\<open>scope_based_filtering_view.py\<close>), the signing session (\<open>aws_auth_session.py\<close>), the user agent
  (\<open>_aws_http_headers.py\<close>) and the compact console exporter (\<open>compact_console_log_exporter.py\<close>).
\<close>

section \<open>Installed packages\<close>

text \<open>
  A parsed requirement: the name and the test of its version specifier. The parser, which refuses malformed
  texts, and the installed versions are parameters.
\<close>

definition is_installed :: "(string \<Rightarrow> (string \<times> (string \<Rightarrow> bool)) res) \<Rightarrow> (string \<Rightarrow> string option) \<Rightarrow> string \<Rightarrow> bool res" where
  "is_installed requirement version_of req =
     bindr (requirement req) (\<lambda>(name, satisfied).
       Inr (case version_of name of None \<Rightarrow> False | Some dist_version \<Rightarrow> satisfied dist_version))"

section \<open>Metrics processor and its builder\<close>

record histogram =
  histogram_name :: string
  histogram_unit :: string

text \<open>The processor: its instruments, the generator, the resource and the function that flushes.\<close>

record metrics_processor =
  error_histogram :: histogram
  fault_histogram :: histogram
  latency_histogram :: histogram
  metrics_generator :: "span \<Rightarrow> attrs \<Rightarrow> (string \<times> attrs) list res"
  metrics_resource :: attrs
  flush_function :: "int \<Rightarrow> bool res"

definition processor_force_flush :: "int \<Rightarrow> metrics_processor \<Rightarrow> bool res" where
  "processor_force_flush timeout_millis p = flush_function p timeout_millis"

definition processor_shutdown :: "metrics_processor \<Rightarrow> unit res" where
  "processor_shutdown p = bindr (processor_force_flush 10000 p) (\<lambda>_. Inr ())"

definition processor_on_end :: "metrics_processor \<Rightarrow> span \<Rightarrow> measurement list \<times> exn option" where
  "processor_on_end p sp = metrics_on_end (metrics_generator p) (metrics_resource p) sp"

text \<open>
  The meter provider: the instrument a meter of a scope creates for a name and a unit, and its flush. The
  name of an instrument is set again after it is created.
\<close>

record meter_provider =
  create_histogram :: "string \<Rightarrow> string \<Rightarrow> string \<Rightarrow> histogram"
  provider_flush :: "int \<Rightarrow> bool res"

record metrics_builder =
  builder_provider :: meter_provider
  builder_resource :: attrs
  builder_generator :: "span \<Rightarrow> attrs \<Rightarrow> (string \<times> attrs) list res"
  builder_scope_name :: string

definition new_metrics_builder :: "runtime \<Rightarrow> meter_provider \<Rightarrow> attrs \<Rightarrow> metrics_builder" where
  "new_metrics_builder rt provider res =
     \<lparr>builder_provider = provider, builder_resource = res,
      builder_generator = generate_metric_attributes_dict_from_span rt,
      builder_scope_name = ''AwsSpanMetricsProcessor''\<rparr>"

definition set_generator ::
    "(span \<Rightarrow> attrs \<Rightarrow> (string \<times> attrs) list res) option \<Rightarrow> metrics_builder \<Rightarrow> metrics_builder res" where
  "set_generator g b = (case g of None \<Rightarrow> Inl ValueError | Some f \<Rightarrow> Inr (b\<lparr>builder_generator := f\<rparr>))"

definition set_scope_name :: "string option \<Rightarrow> metrics_builder \<Rightarrow> metrics_builder res" where
  "set_scope_name s b = (case s of None \<Rightarrow> Inl ValueError | Some n \<Rightarrow> Inr (b\<lparr>builder_scope_name := n\<rparr>))"

definition named_histogram :: "metrics_builder \<Rightarrow> string \<Rightarrow> string \<Rightarrow> histogram" where
  "named_histogram b name unit_text =
     (create_histogram (builder_provider b) (builder_scope_name b) name unit_text)\<lparr>histogram_name := name\<rparr>"

definition build_metrics_processor :: "metrics_builder \<Rightarrow> metrics_processor" where
  "build_metrics_processor b =
     \<lparr>error_histogram = named_histogram b ''Error'' [],
      fault_histogram = named_histogram b ''Fault'' [],
      latency_histogram = named_histogram b ''Latency'' ''Milliseconds'',
      metrics_generator = builder_generator b, metrics_resource = builder_resource b,
      flush_function = provider_flush (builder_provider b)\<rparr>"

text \<open>The exporter that adds the metric attributes: its builder, and shutting it down by its delegate.\<close>

record attributes_exporter =
  exporter_generator :: "span \<Rightarrow> attrs \<Rightarrow> (string \<times> attrs) list res"
  exporter_resource :: attrs

definition new_exporter_builder :: "runtime \<Rightarrow> attrs \<Rightarrow> attributes_exporter" where
  "new_exporter_builder rt res =
     \<lparr>exporter_generator = generate_metric_attributes_dict_from_span rt, exporter_resource = res\<rparr>"

definition set_exporter_generator ::
    "(span \<Rightarrow> attrs \<Rightarrow> (string \<times> attrs) list res) option \<Rightarrow> attributes_exporter \<Rightarrow> attributes_exporter res" where
  "set_exporter_generator g b = (case g of None \<Rightarrow> Inl ValueError | Some f \<Rightarrow> Inr (b\<lparr>exporter_generator := f\<rparr>))"

text \<open>The view drops what is not from the scope it retains.\<close>

definition retaining_view_match :: "string option \<Rightarrow> string \<Rightarrow> bool" where
  "retaining_view_match wanted scope_text = (Some scope_text \<noteq> wanted)"

section \<open>Signed requests\<close>

text \<open>
  \<open>AwsAuthSession.request\<close>. The credentials, the signer (the headers of the signed request, which contain
  the content type it was given) and the request of the parent class are parameters. The signature is made
  for a POST request. Positional arguments behind the URL collide with the keywords of the parent.
\<close>

definition merge_headers :: "(string \<times> string) list \<Rightarrow> (string \<times> string) list \<Rightarrow> (string \<times> string) list" where
  "merge_headers headers sig_hs = foldl (\<lambda>d (k, v). AList.update k v d) headers sig_hs"

definition signed_headers ::
    "('c \<Rightarrow> string \<Rightarrow> 'd \<Rightarrow> (string \<times> string) list \<Rightarrow> (string \<times> string) list res) \<Rightarrow> 'c option
      \<Rightarrow> string \<Rightarrow> 'd \<Rightarrow> (string \<times> string) list option \<Rightarrow> (string \<times> string) list option" where
  "signed_headers add_auth credentials url data headers =
     (case credentials of
        None \<Rightarrow> headers
      | Some c \<Rightarrow>
          (case add_auth c url data [(''Content-Type'', ''application/x-protobuf'')] of
             Inl e \<Rightarrow> headers
           | Inr sig_hs \<Rightarrow> Some (merge_headers (case headers of Some h \<Rightarrow> h | None \<Rightarrow> []) sig_hs)))"

definition auth_request ::
    "('c \<Rightarrow> string \<Rightarrow> 'd \<Rightarrow> (string \<times> string) list \<Rightarrow> (string \<times> string) list res) \<Rightarrow> 'c option res
      \<Rightarrow> (string \<Rightarrow> string \<Rightarrow> 'd \<Rightarrow> (string \<times> string) list option \<Rightarrow> 'r res)
      \<Rightarrow> string \<Rightarrow> string \<Rightarrow> 'a list \<Rightarrow> 'd \<Rightarrow> (string \<times> string) list option \<Rightarrow> 'r res" where
  "auth_request add_auth get_credentials send verb url args data headers =
     bindr get_credentials (\<lambda>credentials.
       let headers' = signed_headers add_auth credentials url data headers
       in if args \<noteq> [] then Inl TypeError else send verb url data headers')"

definition build_user_agent :: "runtime \<Rightarrow> string" where
  "build_user_agent rt =
     (if py_lower (case map_of (environ rt) ''AGENT_OBSERVABILITY_ENABLED'' of Some v \<Rightarrow> v | None \<Rightarrow> ''false'')
        = ''true''
      then ''ADOT-GenAI-OTLP-Exporter-Python/0.14.0.dev0'' else ''ADOT-OTLP-Exporter-Python/0.14.0.dev0'')"

lemma merged_header:
  "distinct (map fst sig_hs) \<Longrightarrow>
     map_of (merge_headers headers sig_hs) k
       = (case map_of sig_hs k of Some v \<Rightarrow> Some v | None \<Rightarrow> map_of headers k)"
proof (induction sig_hs arbitrary: headers)
  case Nil
  then show ?case by (simp add: merge_headers_def)
next
  case (Cons p sig_hs)
  obtain a v where p: "p = (a, v)" by fastforce
  have "merge_headers headers (p # sig_hs) = merge_headers (AList.update a v headers) sig_hs"
    by (simp add: merge_headers_def p)
  moreover have "map_of sig_hs a = None" using Cons.prems by (simp add: p map_of_eq_None_iff)
  ultimately show ?case using Cons by (auto simp: p map_of_update split: option.splits)
qed

text \<open>Every header the signer sets is sent, the others are those of the caller.\<close>

lemma signed_request_headers:
  assumes "add_auth c url data [(''Content-Type'', ''application/x-protobuf'')] = Inr sig_hs"
    and "distinct (map fst sig_hs)"
  shows "\<exists>hs. auth_request add_auth (Inr (Some c)) send verb url ([] :: unit list) data headers = send verb url data (Some hs)
    \<and> (\<forall>k. map_of hs k = (case map_of sig_hs k of Some v \<Rightarrow> Some v
        | None \<Rightarrow> map_of (case headers of Some h \<Rightarrow> h | None \<Rightarrow> []) k))"
  using merged_header [OF assms(2)] assms(1) by (auto simp: auth_request_def signed_headers_def)

lemma unsigned_request:
  assumes "credentials = None \<or> (\<exists>c e. credentials = Some c
    \<and> add_auth c url data [(''Content-Type'', ''application/x-protobuf'')] = Inl e)"
  shows "auth_request add_auth (Inr credentials) send verb url ([] :: unit list) data headers = send verb url data headers"
  using assms by (auto simp: auth_request_def signed_headers_def)

section \<open>Compact console logs\<close>

text \<open>
  \<open>re.sub(r"\s*([{}[\]:,])\s*", r"\1", text)\<close>: the white space before and after each of the characters is
  dropped, inside texts as well.
\<close>

definition json_mark :: "char \<Rightarrow> bool" where
  "json_mark c \<longleftrightarrow> c \<in> {CHR ''{'', CHR ''}'', CHR ''['', CHR '']'', CHR '':'', CHR '',''}"

lemma dropWhile_shorter:
  "dropWhile P xs = y # ys \<Longrightarrow> length (dropWhile Q ys) < length xs"
  using length_dropWhile_le [of P xs] length_dropWhile_le [of Q ys] by simp

function compact_json :: "string \<Rightarrow> string" where
  "compact_json [] = []"
| "compact_json (c # cs) =
     (case dropWhile py_space (c # cs) of
        [] \<Rightarrow> c # compact_json cs
      | p # rest \<Rightarrow> if json_mark p then p # compact_json (dropWhile py_space rest) else c # compact_json cs)"
  by pat_completeness auto

termination
proof (relation "measure length")
  fix c :: char and cs p rest
  assume "dropWhile py_space (c # cs) = p # rest"
  then show "(dropWhile py_space rest, c # cs) \<in> measure length"
    using dropWhile_shorter [of py_space "c # cs" p rest py_space] by simp
qed auto

text \<open>\<open>export\<close>: the lines printed for the formatted records; always a success.\<close>

definition compact_console_export :: "('l \<Rightarrow> string) \<Rightarrow> 'l list \<Rightarrow> string list" where
  "compact_console_export formatter batch = map (\<lambda>l. compact_json (formatter l)) batch"

text \<open>Only white space is lost.\<close>

lemma mark_not_space: "json_mark p \<Longrightarrow> \<not> py_space p"
  by (auto simp: json_mark_def py_space_def)

lemma dropWhile_filter: "filter (\<lambda>c. \<not> P c) (dropWhile P xs) = filter (\<lambda>c. \<not> P c) xs"
  by (induction xs) simp_all

lemma compact_keeps_text: "filter (\<lambda>c. \<not> py_space c) (compact_json s) = filter (\<lambda>c. \<not> py_space c) s"
proof (induction s rule: compact_json.induct)
  case (2 c cs)
  show ?case
  proof (cases "dropWhile py_space (c # cs)")
    case Nil
    with 2 show ?thesis by simp
  next
    case (Cons p rest)
    show ?thesis
    proof (cases "json_mark p")
      case True
      have "filter (\<lambda>c. \<not> py_space c) (c # cs) = filter (\<lambda>c. \<not> py_space c) (p # rest)"
        using dropWhile_filter [of py_space "c # cs"] unfolding Cons by simp
      with Cons True 2(2) [OF Cons True] show ?thesis
        by (simp add: mark_not_space dropWhile_filter)
    next
      case False
      with 2 Cons show ?thesis by simp
    qed
  qed
qed simp

lemma compact_changes_texts:
  "compact_console_export id [''{\"body\": \"a, b\"}''] = [''{\"body\":\"a,b\"}'']"
  by (simp add: compact_console_export_def json_mark_def py_space_def)

end
