(* ===== verification/Batching.thy ===== *)
theory Batching
  imports Prelude
begin

text \<open>
  The interface of the two exporters that collect items into batches bounded by the limits of a
  service: the CloudWatch Logs client, which receives one event at a time, and the OTLP log
  processor, which cuts a drained queue into requests. Both place an item into the current batch
  when it fits and otherwise hand the batch over and start a new one with the item.
\<close>

named_theorems batch_simps \<open>definitions of the batches of a component\<close>

definition place ::
    "('c \<Rightarrow> 'b \<Rightarrow> 'e \<Rightarrow> bool) \<Rightarrow> ('e \<Rightarrow> 'b \<Rightarrow> 'b) \<Rightarrow> ('c \<Rightarrow> 'b) \<Rightarrow> 'c \<Rightarrow> 'e \<Rightarrow> 'b \<Rightarrow> 'b list \<times> 'b" where
  "place fits add fresh c e b = (if fits c b e then ([], add e b) else ([b], add e (fresh c)))"

fun place_all ::
    "('c \<Rightarrow> 'b \<Rightarrow> 'e \<Rightarrow> bool) \<Rightarrow> ('e \<Rightarrow> 'b \<Rightarrow> 'b) \<Rightarrow> ('c \<Rightarrow> 'b) \<Rightarrow> 'c \<Rightarrow> 'e list \<Rightarrow> 'b \<Rightarrow> 'b list \<times> 'b" where
  "place_all fits add fresh c [] b = ([], b)"
| "place_all fits add fresh c (e # es) b =
     (let (out, b') = place fits add fresh c e b;
          (out', b'') = place_all fits add fresh c es b'
      in (out @ out', b''))"

locale batcher =
  fixes content :: "'b \<Rightarrow> 'e list"
    and fits :: "'c \<Rightarrow> 'b \<Rightarrow> 'e \<Rightarrow> bool"
    and add :: "'e \<Rightarrow> 'b \<Rightarrow> 'b"
    and fresh :: "'c \<Rightarrow> 'b"
    and good :: "'b \<Rightarrow> bool"
    and item :: "'e \<Rightarrow> bool"
  assumes content_fresh: "content (fresh c) = []"
    and content_add: "content (add e b) = content b @ [e]"
    and fresh_good: "good (fresh c)"
    and first_good: "item e \<Longrightarrow> good (add e (fresh c))"
    and add_good: "item e \<Longrightarrow> good b \<Longrightarrow> fits c b e \<Longrightarrow> good (add e b)"
    and empty_fits: "item e \<Longrightarrow> good b \<Longrightarrow> content b = [] \<Longrightarrow> fits c b e"
begin

lemma place_good:
  assumes "item e" "good b" "place fits add fresh c e b = (out, b')"
  shows "good b'" and "\<forall>x \<in> set out. good x \<and> content x \<noteq> []"
  using assms add_good [of e b c] first_good [of e c] empty_fits [of e b c]
  by (auto simp: place_def split: if_splits)

lemma place_content:
  "place fits add fresh c e b = (out, b') \<Longrightarrow> concat (map content out) @ content b' = content b @ [e]"
  by (auto simp: place_def content_add content_fresh split: if_splits)

lemma place_nonempty: "place fits add fresh c e b = (out, b') \<Longrightarrow> content b' \<noteq> []"
  by (auto simp: place_def content_add split: if_splits)

lemma place_all_good:
  assumes "list_all item es" "good b" "place_all fits add fresh c es b = (out, b')"
  shows "good b' \<and> (\<forall>x \<in> set out. good x \<and> content x \<noteq> [])"
  using assms
proof (induction es arbitrary: b out b')
  case Nil
  then show ?case by simp
next
  case (Cons e es)
  obtain o1 b1 where p: "place fits add fresh c e b = (o1, b1)" by fastforce
  obtain o2 b2 where q: "place_all fits add fresh c es b1 = (o2, b2)" by fastforce
  have "good b1" "\<forall>x \<in> set o1. good x \<and> content x \<noteq> []"
    using place_good [OF _ _ p] Cons.prems by auto
  moreover from this(1) q Cons.prems(1) have "good b2 \<and> (\<forall>x \<in> set o2. good x \<and> content x \<noteq> [])"
    by (intro Cons.IH [of b1 o2 b2]) auto
  ultimately show ?case using Cons.prems p q by auto
qed

lemma place_all_content:
  "place_all fits add fresh c es b = (out, b') \<Longrightarrow> concat (map content out) @ content b' = content b @ es"
proof (induction es arbitrary: b out b')
  case Nil
  then show ?case by simp
next
  case (Cons e es)
  obtain o1 b1 where p: "place fits add fresh c e b = (o1, b1)" by fastforce
  obtain o2 b2 where q: "place_all fits add fresh c es b1 = (o2, b2)" by fastforce
  have "concat (map content o2) @ content b2 = content b1 @ es" by (rule Cons.IH [OF q])
  moreover have "concat (map content o1) @ content b1 = content b @ [e]" by (rule place_content [OF p])
  ultimately have "concat (map content (o1 @ o2)) @ content b2 = content b @ e # es"
    by (metis append.assoc append_Cons append_Nil concat_append map_append)
  with Cons.prems p q show ?case by simp
qed

end

end
