(* ===== verification/OtlpLogs.thy ===== *)
theory OtlpLogs
  imports Batching
begin

text \<open>
  The OTLP log pipeline to CloudWatch: the batch processor that cuts the drained queue into requests
  by estimated size (\<open>exporter/otlp/aws/logs/_aws_cw_otlp_batch_log_record_processor.py\<close>) and the
  exporter with its retry loop (\<open>otlp_aws_logs_exporter.py\<close>).

  Lists and mappings of a log are Python objects with identity: a value refers to them by \<open>id\<close>, and
  \<open>store\<close> maps an \<open>id\<close> to the object, so shared and cyclic structures are values of the
  model. \<open>str\<close> of a float, the SDK's \<open>_should_export_batch\<close> and \<open>OTLPLogExporter._retryable\<close>, the
  HTTP session and \<open>float(text)\<close> are parameters.
\<close>

section \<open>Size of a log\<close>

datatype any_value = VNone | VBytes "nat list" | VStr string | VInt int | VFloat rat | VBool bool
  | VRef nat

datatype node = Sequence "any_value list" | Mapping "(string \<times> any_value) list"

record log_data =
  body :: any_value
  attributes :: any_value

record objects =
  store :: "nat \<Rightarrow> node"
  float_str :: "rat \<Rightarrow> string"

definition base_log_buffer_byte_size :: int where "base_log_buffer_byte_size = 2000"
definition max_log_request_byte_size :: int where "max_log_request_byte_size = 1048576"

definition estimate_utf8_size :: "string \<Rightarrow> int" where
  "estimate_utf8_size s =
     (let ascii_count = int (length (filter (\<lambda>c. ord c < 128) s));
          non_ascii_count = int (length (filter (\<lambda>c. \<not> ord c < 128) s))
      in ascii_count + non_ascii_count * 4)"

text \<open>The size a scalar adds; a reference adds nothing itself.\<close>

definition scalar_size :: "objects \<Rightarrow> any_value \<Rightarrow> int" where
  "scalar_size ob v =
     (case v of
        VNone \<Rightarrow> 0
      | VBytes bs \<Rightarrow> int (length bs)
      | VStr s \<Rightarrow> estimate_utf8_size s
      | VInt i \<Rightarrow> estimate_utf8_size (int_str i)
      | VFloat q \<Rightarrow> estimate_utf8_size (float_str ob q)
      | VBool b \<Rightarrow> estimate_utf8_size (if b then ''True'' else ''False'')
      | VRef _ \<Rightarrow> 0)"

type_synonym work = "(any_value \<times> int) list"

definition key_sizes :: "node \<Rightarrow> int" where
  "key_sizes n =
     (case n of Sequence _ \<Rightarrow> 0 | Mapping ps \<Rightarrow> sum_list (map (\<lambda>p. int (length (fst p))) ps))"

definition contents :: "node \<Rightarrow> any_value list" where
  "contents n = (case n of Sequence vs \<Rightarrow> vs | Mapping ps \<Rightarrow> map snd ps)"

text \<open>
  One round of the \<open>while\<close> loop, over the items of \<open>queue\<close>: \<open>Inl\<close> is the early return. With
  \<open>cap = None\<close> there is no early return.
\<close>

fun scan :: "int option \<Rightarrow> objects \<Rightarrow> int \<Rightarrow> work \<Rightarrow> int \<Rightarrow> nat list \<Rightarrow> work
    \<Rightarrow> int + (int \<times> nat list \<times> work)" where
  "scan cap ob depth [] sz visited new_queue = Inr (sz, visited, new_queue)"
| "scan cap ob depth ((v, current_depth) # queue) sz visited new_queue =
     (if (case cap of Some m \<Rightarrow> sz \<ge> m | None \<Rightarrow> False) then Inl sz
      else case v of
        VRef i \<Rightarrow>
          if current_depth \<le> depth \<and> i \<notin> set visited
          then scan cap ob depth queue (sz + key_sizes (store ob i)) (i # visited)
                 (new_queue @ map (\<lambda>c. (c, current_depth + 1)) (contents (store ob i)))
          else scan cap ob depth queue sz visited new_queue
      | _ \<Rightarrow> scan cap ob depth queue (sz + scalar_size ob v) visited new_queue)"

lemma scan_depths:
  "scan cap ob depth q sz vis new = Inr (s, vis', new') \<Longrightarrow> (v, d) \<in> set new' \<Longrightarrow>
   (v, d) \<in> set new \<or> (\<exists>w e. (w, e) \<in> set q \<and> e \<le> depth \<and> d = e + 1)"
proof (induction cap ob depth q sz vis new rule: scan.induct)
  case (1 cap ob depth sz vis new)
  then show ?case by simp
next
  case (2 cap ob depth v0 d0 queue sz vis new)
  show ?case
  proof (cases v0)
    case (VRef i)
    with 2 show ?thesis by (fastforce split: if_splits option.splits)
  qed (use 2 in \<open>fastforce split: if_splits option.splits\<close>)+
qed

definition rounds_left :: "int \<Rightarrow> work \<Rightarrow> nat" where
  "rounds_left depth q = (if q = [] then 0 else Suc (nat (depth + 2 - Min (snd ` set q))))"

lemma rounds_decrease:
  assumes "scan cap ob depth q sz vis [] = Inr (s, vis', q')" "q \<noteq> []"
  shows "rounds_left depth q' < rounds_left depth q"
proof (cases "q' = []")
  case True
  with assms(2) show ?thesis by (simp add: rounds_left_def)
next
  case False
  have fin: "finite (snd ` set q)" "snd ` set q \<noteq> {}" "finite (snd ` set q')" "snd ` set q' \<noteq> {}"
    using assms(2) False by auto
  obtain v d where d: "(v, d) \<in> set q'" "d = Min (snd ` set q')"
    using Min_in [OF fin(3,4)] by force
  with scan_depths [OF assms(1), of v d] obtain w e where e: "(w, e) \<in> set q" "e \<le> depth" "d = e + 1"
    by auto
  have "Min (snd ` set q) \<le> e" using fin e(1) by (intro Min_le) force+
  with d e have "nat (depth + 2 - Min (snd ` set q')) < nat (depth + 2 - Min (snd ` set q))"
    by linarith
  with assms(2) False show ?thesis by (simp only: rounds_left_def if_False Suc_less_eq)
qed

function estimate_rounds :: "int option \<Rightarrow> objects \<Rightarrow> int \<Rightarrow> work \<Rightarrow> int \<Rightarrow> nat list \<Rightarrow> int" where
  "estimate_rounds cap ob depth queue sz visited =
     (if queue = [] then sz
      else case scan cap ob depth queue sz visited [] of
             Inl s \<Rightarrow> s
           | Inr (s, visited', new_queue) \<Rightarrow> estimate_rounds cap ob depth new_queue s visited')"
  by pat_completeness auto

termination
  by (relation "measure (\<lambda>(cap, ob, depth, queue, sz, visited). rounds_left depth queue)")
     (auto intro: rounds_decrease)

declare estimate_rounds.simps [simp del]

definition estimate_log_size :: "objects \<Rightarrow> log_data \<Rightarrow> int" where
  "estimate_log_size ob rec =
     estimate_rounds (Some max_log_request_byte_size) ob 3
       [(body rec, 0), (attributes rec, -1)] base_log_buffer_byte_size []"

subsection \<open>The early return changes nothing below the limit\<close>

lemma estimate_utf8_size_nonneg [simp]: "0 \<le> estimate_utf8_size s"
  by (simp add: estimate_utf8_size_def)

lemma scalar_size_nonneg [simp]: "0 \<le> scalar_size ob v"
  by (simp add: scalar_size_def split: any_value.splits)

lemma key_sizes_nonneg [simp]: "0 \<le> key_sizes n"
  by (cases n) (auto simp: key_sizes_def intro!: sum_list_nonneg)

lemma scan_full: "\<exists>s vis' q'. scan None ob depth q sz vis new = Inr (s, vis', q') \<and> sz \<le> s"
proof (induction q arbitrary: sz vis new)
  case Nil
  then show ?case by simp
next
  case (Cons x q)
  obtain v d where x: "x = (v, d)" by (cases x)
  have more: "\<exists>s vis' q'. scan None ob depth q (sz + k) vis1 new1 = Inr (s, vis', q') \<and> sz \<le> s"
    if "0 \<le> k" for k vis1 new1
    using Cons.IH [of "sz + k" vis1 new1] that by (auto intro: order_trans)
  show ?case
  proof (cases v)
    case (VRef i)
    with more [OF key_sizes_nonneg] Cons.IH show ?thesis by (simp add: x)
  qed (use more [OF scalar_size_nonneg, of ob v] in \<open>simp_all add: x\<close>)
qed

lemma scan_cap:
  "scan None ob depth q sz vis new = Inr (s, vis', q') \<Longrightarrow>
   scan (Some m) ob depth q sz vis new = Inr (s, vis', q')
    \<or> (\<exists>t. scan (Some m) ob depth q sz vis new = Inl t \<and> m \<le> t \<and> t \<le> s)"
proof (induction q arbitrary: sz vis new)
  case Nil
  then show ?case by simp
next
  case (Cons x q)
  obtain v d where x: "x = (v, d)" by (cases x)
  show ?case
  proof (cases "sz \<ge> m")
    case True
    obtain s1 v1 q1 where "scan None ob depth (x # q) sz vis new = Inr (s1, v1, q1)" "sz \<le> s1"
      using scan_full by blast
    with True Cons.prems show ?thesis by (simp add: x)
  next
    case False
    show ?thesis
    proof (cases v)
      case (VRef i)
      with False Cons show ?thesis by (cases "d \<le> depth \<and> i \<notin> set vis") (auto simp: x)
    qed (use False Cons in \<open>simp_all add: x\<close>)
  qed
qed

lemma rounds_grow: "sz \<le> estimate_rounds None ob depth q sz vis"
proof (induction "None :: int option" ob depth q sz vis rule: estimate_rounds.induct)
  case (1 ob depth q sz vis)
  obtain s v1 q1 where "scan None ob depth q sz vis [] = Inr (s, v1, q1)" "sz \<le> s"
    using scan_full by blast
  with 1 show ?case by (subst estimate_rounds.simps) (auto intro: order_trans)
qed

lemma estimate_cap:
  "estimate_rounds (Some m) ob depth q sz vis = estimate_rounds None ob depth q sz vis
   \<or> m \<le> estimate_rounds (Some m) ob depth q sz vis
      \<and> estimate_rounds (Some m) ob depth q sz vis \<le> estimate_rounds None ob depth q sz vis"
proof (induction "None :: int option" ob depth q sz vis rule: estimate_rounds.induct)
  case (1 ob depth q sz vis)
  show ?case
  proof (cases "q = []")
    case True
    then show ?thesis by (simp add: estimate_rounds.simps)
  next
    case False
    obtain s v1 q1 where s: "scan None ob depth q sz vis [] = Inr (s, v1, q1)"
      using scan_full by blast
    have full: "estimate_rounds None ob depth q sz vis = estimate_rounds None ob depth q1 s v1"
      using False s by (subst estimate_rounds.simps) simp
    from scan_cap [OF s, of m] show ?thesis
    proof (elim disjE exE conjE)
      assume c: "scan (Some m) ob depth q sz vis [] = Inr (s, v1, q1)"
      have "estimate_rounds (Some m) ob depth q sz vis = estimate_rounds (Some m) ob depth q1 s v1"
        using False c by (subst estimate_rounds.simps) simp
      with full 1(1) [OF False s refl refl] show ?thesis by simp
    next
      fix t assume c: "scan (Some m) ob depth q sz vis [] = Inl t" "m \<le> t" "t \<le> s"
      have "estimate_rounds (Some m) ob depth q sz vis = t"
        using False c by (subst estimate_rounds.simps) simp
      with full c rounds_grow [of s ob depth q1 v1] show ?thesis by simp
    qed
  qed
qed

subsection \<open>What is counted\<close>

text \<open>
  A log value without sharing, as a tree: the objects it is made of, the size of everything in it,
  and whether its objects lie within the depth limit.
\<close>

datatype tree = Leaf any_value | SeqTree nat "tree list" | MapTree nat "(string \<times> tree) list"

fun value_of :: "tree \<Rightarrow> any_value" where
  "value_of (Leaf v) = v"
| "value_of (SeqTree i ts) = VRef i"
| "value_of (MapTree i ps) = VRef i"

fun subtrees :: "tree \<Rightarrow> tree list" where
  "subtrees (Leaf v) = []"
| "subtrees (SeqTree i ts) = ts"
| "subtrees (MapTree i ps) = map snd ps"

fun ids :: "tree \<Rightarrow> nat list" where
  "ids (Leaf v) = []"
| "ids (SeqTree i ts) = i # concat (map ids ts)"
| "ids (MapTree i ps) = i # concat (map (\<lambda>(k, t). ids t) ps)"

fun weight :: "objects \<Rightarrow> tree \<Rightarrow> int" where
  "weight ob (Leaf v) = scalar_size ob v"
| "weight ob (SeqTree i ts) = sum_list (map (weight ob) ts)"
| "weight ob (MapTree i ps) = sum_list (map (\<lambda>(k, t). int (length k) + weight ob t) ps)"

fun stored :: "objects \<Rightarrow> tree \<Rightarrow> bool" where
  "stored ob (Leaf v) \<longleftrightarrow> (\<forall>i. v \<noteq> VRef i)"
| "stored ob (SeqTree i ts) \<longleftrightarrow> store ob i = Sequence (map value_of ts) \<and> (\<forall>t \<in> set ts. stored ob t)"
| "stored ob (MapTree i ps) \<longleftrightarrow> store ob i = Mapping (map (\<lambda>(k, t). (k, value_of t)) ps)
     \<and> (\<forall>(k, t) \<in> set ps. stored ob t)"

fun in_depth :: "int \<Rightarrow> int \<Rightarrow> tree \<Rightarrow> bool" where
  "in_depth depth d (Leaf v) \<longleftrightarrow> True"
| "in_depth depth d (SeqTree i ts) \<longleftrightarrow> d \<le> depth \<and> (\<forall>t \<in> set ts. in_depth depth (d + 1) t)"
| "in_depth depth d (MapTree i ps) \<longleftrightarrow> d \<le> depth \<and> (\<forall>(k, t) \<in> set ps. in_depth depth (d + 1) t)"

lemma children [simp]:
  "(\<lambda>(t, d). ids t) \<circ> (\<lambda>u. (u, k)) = ids"
  "(\<lambda>(t, d). weight ob t) \<circ> (\<lambda>u. (u, k)) = weight ob"
  by auto

lemma object_weight:
  assumes "stored ob t" "value_of t = VRef i"
  shows "contents (store ob i) = map value_of (subtrees t)"
    and "weight ob t = key_sizes (store ob i) + sum_list (map (weight ob) (subtrees t))"
    and "\<forall>u \<in> set (subtrees t). stored ob u"
    and "ids t = i # concat (map ids (subtrees t))"
  using assms
  by (cases t; force simp: contents_def key_sizes_def case_prod_beta' comp_def sum_list_addf)+

lemma object_within:
  "in_depth depth d t \<Longrightarrow> value_of t = VRef i \<Longrightarrow> stored ob t \<Longrightarrow>
   d \<le> depth \<and> (\<forall>u \<in> set (subtrees t). in_depth depth (d + 1) u)"
  by (cases t) auto

text \<open>A queue of trees, each with its depth.\<close>

definition queue_of :: "(tree \<times> int) list \<Rightarrow> work" where
  "queue_of ts = map (\<lambda>(t, d). (value_of t, d)) ts"

abbreviation weights :: "objects \<Rightarrow> (tree \<times> int) list \<Rightarrow> int" where
  "weights ob ts \<equiv> sum_list (map (\<lambda>(t, d). weight ob t) ts)"

abbreviation all_ids :: "(tree \<times> int) list \<Rightarrow> nat list" where
  "all_ids ts \<equiv> concat (map (\<lambda>(t, d). ids t) ts)"

definition proper :: "objects \<Rightarrow> int \<Rightarrow> (tree \<times> int) list \<Rightarrow> bool" where
  "proper ob depth ts \<longleftrightarrow> (\<forall>(t, d) \<in> set ts. stored ob t \<and> in_depth depth d t)"

lemma scan_leaf:
  "\<forall>i. v \<noteq> VRef i \<Longrightarrow>
   scan None ob depth ((v, d) # q) sz vis new = scan None ob depth q (sz + scalar_size ob v) vis new"
  by (cases v) simp_all

lemma scan_trees:
  assumes "proper ob depth ts" "proper ob depth new"
    and "distinct (all_ids ts @ all_ids new @ vis)"
  shows "\<exists>vis' new'. scan None ob depth (queue_of ts) sz vis (queue_of new)
      = Inr (sz + weights ob ts + weights ob new - weights ob new', vis', queue_of new')
    \<and> proper ob depth new' \<and> distinct (all_ids new' @ vis')"
  using assms
proof (induction ts arbitrary: sz vis new)
  case Nil
  then show ?case by (auto simp: queue_of_def)
next
  case (Cons x ts)
  obtain t d where x: "x = (t, d)" by (cases x)
  have t: "stored ob t" "in_depth depth d t" and ts: "proper ob depth ts"
    using Cons.prems(1) by (auto simp: x proper_def)
  show ?case
  proof (cases "\<exists>i. value_of t = VRef i")
    case True
    then obtain i where VRef: "value_of t = VRef i" by blast
    note ob = object_weight [OF t(1) VRef] and wi = object_within [OF t(2) VRef t(1)]
    let ?new = "new @ map (\<lambda>u. (u, d + 1)) (subtrees t)"
    have w: "weights ob ?new = weights ob new + sum_list (map (weight ob) (subtrees t))" by simp
    have "proper ob depth ?new" using Cons.prems(2) ob(3) wi by (auto simp: proper_def)
    moreover have "distinct (all_ids ts @ all_ids ?new @ i # vis)" "i \<notin> set vis"
      using Cons.prems(3) by (auto simp: x ob(4) simp del: set_concat)
    ultimately obtain vis' new' where n:
      "scan None ob depth (queue_of ts) (sz + key_sizes (store ob i)) (i # vis) (queue_of ?new)
        = Inr (sz + key_sizes (store ob i) + weights ob ts + weights ob ?new - weights ob new', vis',
            queue_of new')"
      "proper ob depth new'" "distinct (all_ids new' @ vis')"
      using Cons.IH [OF ts, of ?new] by blast
    have "queue_of (x # ts) = (VRef i, d) # queue_of ts" by (simp add: queue_of_def x VRef)
    moreover have "queue_of ?new = queue_of new @ map (\<lambda>c. (c, d + 1)) (contents (store ob i))"
      by (simp add: queue_of_def ob(1) comp_def)
    ultimately show ?thesis
      using n wi \<open>i \<notin> set vis\<close> w ob(2) by (intro exI [of _ vis'] exI [of _ new']) (simp add: x)
  next
    case False
    then obtain v where v: "t = Leaf v" "\<forall>i. v \<noteq> VRef i" by (cases t) auto
    have "queue_of (x # ts) = (v, d) # queue_of ts" by (simp add: queue_of_def x v)
    then have "scan None ob depth (queue_of (x # ts)) sz vis (queue_of new)
        = scan None ob depth (queue_of ts) (sz + scalar_size ob v) vis (queue_of new)"
      by (simp only: scan_leaf [OF v(2)])
    moreover have "distinct (all_ids ts @ all_ids new @ vis)" using Cons.prems(3) by (simp add: x v)
    from Cons.IH [OF ts Cons.prems(2) this, of "sz + scalar_size ob v"] obtain vis' new' where
      "scan None ob depth (queue_of ts) (sz + scalar_size ob v) vis (queue_of new)
        = Inr (sz + scalar_size ob v + weights ob ts + weights ob new - weights ob new', vis', queue_of new')"
      "proper ob depth new'" "distinct (all_ids new' @ vis')" by blast
    ultimately show ?thesis by (intro exI [of _ vis'] exI [of _ new'] conjI) (simp_all add: x v)
  qed
qed

lemma rounds_trees:
  "proper ob depth ts \<Longrightarrow> distinct (all_ids ts @ vis) \<Longrightarrow>
   estimate_rounds None ob depth (queue_of ts) sz vis = sz + weights ob ts"
proof (induction "None :: int option" ob depth "queue_of ts" sz vis arbitrary: ts rule: estimate_rounds.induct)
  case (1 ob depth sz vis)
  show ?case
  proof (cases "ts = []")
    case True
    then show ?thesis by (simp add: estimate_rounds.simps queue_of_def)
  next
    case False
    then have q: "queue_of ts \<noteq> []" by (simp add: queue_of_def)
    obtain vis' new' where n: "scan None ob depth (queue_of ts) sz vis [] =
        Inr (sz + weights ob ts - weights ob new', vis', queue_of new')"
      "proper ob depth new'" "distinct (all_ids new' @ vis')"
      using scan_trees [OF 1(2), of "[]" vis sz] 1(3) by (auto simp: proper_def queue_of_def)
    have "estimate_rounds None ob depth (queue_of ts) sz vis
        = estimate_rounds None ob depth (queue_of new') (sz + weights ob ts - weights ob new') vis'"
      using q n(1) by (subst estimate_rounds.simps) simp
    with 1(1) [OF q n(1) refl refl n(2,3)] show ?thesis by simp
  qed
qed

text \<open>C22: For a log whose body and attributes share no object and whose objects lie within the depth
  limit, the estimate is exactly 2000 plus the sizes of all scalars and keys in it when that is below
  1048576; otherwise the early return delivers a value of at least 1048576 that is not above it, so
  that the comparison with the request limit is never changed by the early return.\<close>

theorem estimate_counts_everything:
  assumes "stored ob b" "stored ob a" "distinct (ids b @ ids a)"
    and "in_depth 3 0 b" "in_depth 3 (-1) a"
  shows "let total = 2000 + weight ob b + weight ob a;
             estimate = estimate_log_size ob \<lparr>body = value_of b, attributes = value_of a\<rparr>
         in (total < 1048576 \<longrightarrow> estimate = total)
            \<and> (1048576 \<le> total \<longrightarrow> 1048576 \<le> estimate \<and> estimate \<le> total)"
proof -
  let ?ts = "[(b, 0), (a, -1)]"
  have "estimate_rounds None ob 3 (queue_of ?ts) 2000 [] = 2000 + weights ob ?ts"
    using assms by (intro rounds_trees) (auto simp: proper_def)
  then have "estimate_rounds None ob 3 [(value_of b, 0), (value_of a, -1)] 2000 [] = 2000 + weight ob b + weight ob a"
    by (simp add: queue_of_def)
  with estimate_cap [of 1048576 ob 3 "[(value_of b, 0), (value_of a, -1)]" 2000 "[]"] show ?thesis
    by (auto simp: estimate_log_size_def max_log_request_byte_size_def base_log_buffer_byte_size_def Let_def)
qed

definition demo_objects :: objects where
  "demo_objects =
     \<lparr>store = (\<lambda>i. if i = 1 then Mapping [(''content'', VStr ''Hi''), (''n'', VInt 42)]
               else if i = 2 then Sequence [VRef 1, VBool True] else Mapping [(''k'', VNone)]),
      float_str = (\<lambda>q. ''0.5'')\<rparr>"

theorem estimate_counts_everything_witness:
  "estimate_log_size demo_objects \<lparr>body = VRef 2, attributes = VRef 3\<rparr> = 2017"
  using estimate_counts_everything
    [of demo_objects "SeqTree 2 [MapTree 1 [(''content'', Leaf (VStr ''Hi'')), (''n'', Leaf (VInt 42))], Leaf (VBool True)]"
      "MapTree 3 [(''k'', Leaf VNone)]"]
  by (simp add: demo_objects_def scalar_size_def estimate_utf8_size_def int_str_def nat_str.simps)
section \<open>Sub-batches\<close>

text \<open>
  A sub-batch is its estimated size and its logs. The queue is the SDK's deque, oldest log first;
  \<open>raises\<close> says for the n-th call of the exporter whether it raises, which ends the round and loses
  the logs popped but not exported. The loop over the batch returns the exported batches, the rest of
  the queue and the number of exporter calls so far.
\<close>

type_synonym 'l sub_batch = "int \<times> 'l list"

definition sub_batch_fits :: "('l \<Rightarrow> int) \<Rightarrow> unit \<Rightarrow> 'l sub_batch \<Rightarrow> 'l \<Rightarrow> bool" where
  "sub_batch_fits est u b l \<longleftrightarrow> \<not> (snd b \<noteq> [] \<and> fst b + est l > max_log_request_byte_size)"

definition sub_batch_add :: "('l \<Rightarrow> int) \<Rightarrow> 'l \<Rightarrow> 'l sub_batch \<Rightarrow> 'l sub_batch" where
  "sub_batch_add est l b = (fst b + est l, snd b @ [l])"

definition empty_sub_batch :: "unit \<Rightarrow> 'l sub_batch" where
  "empty_sub_batch u = (0, [])"

fun drain :: "('l \<Rightarrow> int) \<Rightarrow> (nat \<Rightarrow> bool) \<Rightarrow> nat \<Rightarrow> 'l list \<Rightarrow> 'l sub_batch \<Rightarrow> nat
    \<Rightarrow> 'l list list \<times> 'l list \<times> nat" where
  "drain est raises 0 queue b n =
     (if snd b \<noteq> [] then ([snd b], queue, Suc n) else ([], queue, n))"
| "drain est raises (Suc k) [] b n = ([], [], n)"
| "drain est raises (Suc k) (l # queue) b n =
     (if sub_batch_fits est () b l then drain est raises k queue (sub_batch_add est l b) n
      else if raises n then ([snd b], queue, Suc n)
      else (case drain est raises k queue (sub_batch_add est l (empty_sub_batch ())) (Suc n) of
              (out, rest, m) \<Rightarrow> (snd b # out, rest, m)))"

text \<open>
  \<open>_export\<close>: rounds as long as the SDK's \<open>_should_export_batch\<close> (of the iteration and the queue)
  says so. Each round drains at most \<open>_max_export_batch_size\<close> logs.
\<close>

partial_function (option) export_rounds ::
    "('l \<Rightarrow> int) \<Rightarrow> (nat \<Rightarrow> bool) \<Rightarrow> (nat \<Rightarrow> 'l list \<Rightarrow> bool) \<Rightarrow> nat \<Rightarrow> nat \<Rightarrow> 'l list \<Rightarrow> nat
      \<Rightarrow> ('l list list \<times> 'l list) option" where
  "export_rounds est raises should max_size iteration queue n =
     (if should iteration queue
      then (case drain est raises (min max_size (length queue)) queue (empty_sub_batch ()) n of
              (out, rest, m) \<Rightarrow>
                Option.bind (export_rounds est raises should max_size (Suc iteration) rest m)
                  (\<lambda>(outs, final). Some (out @ outs, final)))
      else Some ([], queue))"

definition export_logs ::
    "objects \<Rightarrow> (nat \<Rightarrow> bool) \<Rightarrow> (nat \<Rightarrow> log_data list \<Rightarrow> bool) \<Rightarrow> nat \<Rightarrow> log_data list
      \<Rightarrow> (log_data list list \<times> log_data list) option" where
  "export_logs ob raises should max_size queue =
     export_rounds (estimate_log_size ob) raises should max_size 0 queue 0"

text \<open>\<open>force_flush\<close>: nothing after shutdown.\<close>

definition force_flush ::
    "objects \<Rightarrow> (nat \<Rightarrow> bool) \<Rightarrow> (nat \<Rightarrow> log_data list \<Rightarrow> bool) \<Rightarrow> nat \<Rightarrow> bool \<Rightarrow> log_data list
      \<Rightarrow> (bool \<times> log_data list list \<times> log_data list) option" where
  "force_flush ob raises should max_size shut_down queue =
     (if shut_down then Some (False, [], queue)
      else map_option (\<lambda>r. (True, r)) (export_logs ob raises should max_size queue))"

definition sub_batch_ok :: "('l \<Rightarrow> int) \<Rightarrow> 'l sub_batch \<Rightarrow> bool" where
  "sub_batch_ok est b \<longleftrightarrow>
     fst b = sum_list (map est (snd b)) \<and> (fst b \<le> max_log_request_byte_size \<or> length (snd b) \<le> 1)"

interpretation otlp: batcher snd "sub_batch_fits est" "sub_batch_add est" empty_sub_batch
    "sub_batch_ok est" "\<lambda>l. True" for est
  by unfold_locales
     (auto simp: sub_batch_ok_def sub_batch_fits_def sub_batch_add_def empty_sub_batch_def
        max_log_request_byte_size_def)

definition request_fits :: "('l \<Rightarrow> int) \<Rightarrow> 'l list \<Rightarrow> bool" where
  "request_fits est logs \<longleftrightarrow>
     logs \<noteq> [] \<and> (sum_list (map est logs) \<le> max_log_request_byte_size \<or> length logs = 1)"

lemma request_fits_ok: "sub_batch_ok est b \<Longrightarrow> snd b \<noteq> [] \<Longrightarrow> request_fits est (snd b)"
  by (cases "snd b") (auto simp: sub_batch_ok_def request_fits_def)

text \<open>The loop is the placement of the interface, as long as the exporter does not raise.\<close>

lemma drain_place_all:
  "\<forall>m. \<not> raises m \<Longrightarrow> k \<le> length queue \<Longrightarrow>
   drain est raises k queue b n =
     (case place_all (sub_batch_fits est) (sub_batch_add est) empty_sub_batch () (take k queue) b of
        (out, b') \<Rightarrow>
          (map snd out @ (if snd b' = [] then [] else [snd b']), drop k queue,
           n + length out + (if snd b' = [] then 0 else 1)))"
  by (induction est raises k queue b n rule: drain.induct) (auto simp: place_def split: prod.splits)

lemma drain_requests:
  "sub_batch_ok est b \<Longrightarrow> drain est raises k queue b n = (out, rest, m) \<Longrightarrow>
   (\<forall>logs \<in> set out. request_fits est logs) \<and> subseq (concat out @ rest) (snd b @ queue)
     \<and> length rest \<le> length queue - (if queue = [] then 0 else min 1 k)"
proof (induction est raises k queue b n arbitrary: out rest m rule: drain.induct)
  case (1 est raises queue b n)
  then show ?case by (auto simp: request_fits_ok split: if_splits)
next
  case (2 est raises k b n)
  then show ?case by auto
next
  case (3 est raises k l queue b n)
  show ?case
  proof (cases "sub_batch_fits est () b l")
    case True
    with 3(1,4) otlp.add_good [OF _ 3(3) True] 3(3) show ?thesis
      by (auto simp: sub_batch_add_def split: if_splits)
  next
    case False
    then have b: "snd b \<noteq> []" by (simp add: sub_batch_fits_def)
    show ?thesis
    proof (cases "raises n")
      case True
      have "subseq (snd b @ queue) (snd b @ l # queue)"
        by (simp only: subseq_append' list_emb_Cons subseq_order.order_refl)
      with True False 3(4) b show ?thesis by (auto simp: request_fits_ok [OF 3(3)])
    next
      case no: False
      obtain out' rest' m' where r: "drain est raises k queue (sub_batch_add est l (empty_sub_batch ())) (Suc n)
          = (out', rest', m')" by (cases "drain est raises k queue (sub_batch_add est l (empty_sub_batch ())) (Suc n)") auto
      from 3(2) [OF False no otlp.first_good r] False no r 3(4) b show ?thesis
        by (auto simp: request_fits_ok [OF 3(3)] sub_batch_add_def empty_sub_batch_def subseq_append' split: if_splits)
    qed
  qed
qed

lemma drain_complete:
  "\<forall>m. \<not> raises m \<Longrightarrow> k \<le> length queue \<Longrightarrow> drain est raises k queue b n = (out, rest, m) \<Longrightarrow>
   concat out @ rest = snd b @ queue"
proof -
  assume a: "\<forall>m. \<not> raises m" "k \<le> length queue" "drain est raises k queue b n = (out, rest, m)"
  obtain o1 b1 where p: "place_all (sub_batch_fits est) (sub_batch_add est) empty_sub_batch () (take k queue) b
      = (o1, b1)" by (meson surj_pair)
  from otlp.place_all_content [OF p] have "concat (map snd o1) @ snd b1 = snd b @ take k queue" .
  moreover from a p drain_place_all [OF a(1,2), of est b n]
  have "concat out = concat (map snd o1) @ snd b1" "rest = drop k queue" by auto
  ultimately show ?thesis by simp
qed

lemma export_rounds_spec:
  assumes "\<And>i. \<not> should i []" "0 < max_size"
  shows "\<exists>out rest. export_rounds est raises should max_size i queue n = Some (out, rest)
    \<and> (\<forall>logs \<in> set out. request_fits est logs) \<and> subseq (concat out @ rest) queue
    \<and> ((\<forall>m. \<not> raises m) \<longrightarrow> concat out @ rest = queue)"
proof (induction "length queue" arbitrary: i queue n rule: less_induct)
  case less
  show ?case
  proof (cases "should i queue")
    case False
    then show ?thesis by (subst export_rounds.simps) simp
  next
    case True
    then have q: "queue \<noteq> []" using assms(1) by auto
    obtain o1 r1 m where d: "drain est raises (min max_size (length queue)) queue (empty_sub_batch ()) n
        = (o1, r1, m)" by (cases "drain est raises (min max_size (length queue)) queue (empty_sub_batch ()) n") auto
    from drain_requests [OF otlp.fresh_good d] q assms(2)
    have one: "\<forall>logs \<in> set o1. request_fits est logs" "subseq (concat o1 @ r1) queue"
      and shorter: "length r1 < length queue"
      by (cases queue; auto simp: empty_sub_batch_def)+
    obtain out rest where ih: "export_rounds est raises should max_size (Suc i) r1 m = Some (out, rest)"
      "\<forall>logs \<in> set out. request_fits est logs" "subseq (concat out @ rest) r1"
      "(\<forall>m. \<not> raises m) \<longrightarrow> concat out @ rest = r1"
      using less [OF shorter] by blast
    have "subseq (concat o1 @ concat out @ rest) (concat o1 @ r1)"
      using ih(3) by (simp only: subseq_append')
    with one(2) have "subseq (concat o1 @ concat out @ rest) queue"
      by (rule subseq_order.order_trans [rotated])
    moreover have "(\<forall>m. \<not> raises m) \<longrightarrow> concat o1 @ r1 = queue"
      using drain_complete [OF _ _ d] by (auto simp: empty_sub_batch_def)
    ultimately show ?thesis
      using True d ih one by (subst export_rounds.simps) auto
  qed
qed

text \<open>C8: The processor's export terminates and cuts the queue well: if the SDK never asks for another
  round on an empty queue and the batch size is positive, it returns; every batch handed to the
  exporter is non-empty and its estimated size is at most 1048576 unless it is a single log; the
  exported logs followed by the rest of the queue are a subsequence of the queue (order kept, nothing
  duplicated), and the whole queue when no exporter call raises.\<close>

theorem exported_requests_bounded:
  assumes "\<And>i. \<not> should i []" "0 < max_size"
  shows "\<exists>out rest. export_logs ob raises should max_size queue = Some (out, rest)
    \<and> (\<forall>logs \<in> set out. logs \<noteq> [] \<and>
         (sum_list (map (estimate_log_size ob) logs) \<le> 1048576 \<or> length logs = 1))
    \<and> subseq (concat out @ rest) queue
    \<and> ((\<forall>m. \<not> raises m) \<longrightarrow> concat out @ rest = queue)"
  using export_rounds_spec [of should max_size "estimate_log_size ob" raises 0 queue 0, OF assms]
  by (simp add: export_logs_def request_fits_def max_log_request_byte_size_def)

theorem exported_requests_bounded_witness:
  "\<exists>out rest. export_logs demo_objects (\<lambda>n. n = 1) (\<lambda>i q. q \<noteq> []) 512
      [\<lparr>body = VRef 2, attributes = VRef 3\<rparr>] = Some (out, rest)
    \<and> subseq (concat out @ rest) [\<lparr>body = VRef 2, attributes = VRef 3\<rparr>]"
  using exported_requests_bounded [of "\<lambda>i q. q \<noteq> []" 512 demo_objects "\<lambda>n. n = 1"
    "[\<lparr>body = VRef 2, attributes = VRef 3\<rparr>]"] by auto

section \<open>The exporter\<close>

text \<open>Headers: the group and stream are merged into the caller's dictionary, or make one of their own.\<close>

definition log_headers ::
    "string option \<Rightarrow> string option \<Rightarrow> (string \<times> string) list option \<Rightarrow> (string \<times> string) list option" where
  "log_headers log_group log_stream headers =
     (case (log_group, log_stream) of
        (Some g, Some s) \<Rightarrow>
          if g \<noteq> [] \<and> s \<noteq> []
          then (let own = [(''x-aws-log-group'', g), (''x-aws-log-stream'', s)]
                in case headers of
                     Some (h # hs) \<Rightarrow> Some (foldl (\<lambda>d (k, v). AList.update k v d) (h # hs) own)
                   | _ \<Rightarrow> Some own)
          else headers
      | _ \<Rightarrow> headers)"

text \<open>Python floats that \<open>float(text)\<close> can return.\<close>

datatype pyfloat = Fin rat | PosInf | NegInf | NaN

definition non_negative :: "pyfloat \<Rightarrow> bool" where
  "non_negative v = (case v of Fin q \<Rightarrow> 0 \<le> q | PosInf \<Rightarrow> True | _ \<Rightarrow> False)"

definition exceeds :: "pyfloat \<Rightarrow> rat \<Rightarrow> bool" where
  "exceeds v q = (case v of Fin p \<Rightarrow> p > q | PosInf \<Rightarrow> True | _ \<Rightarrow> False)"

definition parse_retryable_header :: "(string \<Rightarrow> pyfloat option) \<Rightarrow> string option \<Rightarrow> pyfloat" where
  "parse_retryable_header to_float retry_header =
     (case retry_header of
        None \<Rightarrow> Fin (-1)
      | Some h \<Rightarrow>
          if h = [] then Fin (-1)
          else (case to_float h of
                  None \<Rightarrow> Fin (-1)
                | Some val \<Rightarrow> if non_negative val then val else Fin (-1)))"

definition get_retry_delay_sec ::
    "(string \<Rightarrow> pyfloat option) \<Rightarrow> rat \<Rightarrow> string option \<Rightarrow> nat \<Rightarrow> pyfloat" where
  "get_retry_delay_sec to_float jitter retry_after retry_num =
     (let retry_after_delay = parse_retryable_header to_float retry_after
      in if exceeds retry_after_delay (-1) then retry_after_delay
         else Fin (2 ^ retry_num * jitter))"

record response =
  ok :: bool
  status_code :: int
  retry_after :: "string option"

text \<open>
  What one attempt meets: the clock before it and after it, the answers of the (at most two) posts,
  the random factor, and whether shutdown interrupts the wait. A connection error on the first post
  is tried once more; any other exception, or one of the second post, escapes.
\<close>

record attempt =
  now_before :: rat
  first_post :: "response res"
  second_post :: "response res"
  now_after :: rat
  jitter :: rat
  interrupted :: bool

definition connection_error :: exn where
  "connection_error = Foreign ''ConnectionError''"

definition send :: "attempt \<Rightarrow> response res \<times> nat" where
  "send a = (if first_post a = Inl connection_error then (second_post a, 2) else (first_post a, 1))"

definition is_retryable :: "(response \<Rightarrow> bool) \<Rightarrow> response \<Rightarrow> bool" where
  "is_retryable upstream resp \<longleftrightarrow> status_code resp \<in> {429, 503} \<or> upstream resp"

datatype export_result = SUCCESS | FAILURE

definition max_retrys :: nat where "max_retrys = 6"

text \<open>The \<open>while True\<close> loop, with the waits it made and the number of its posts.\<close>

type_synonym outcome = "export_result res \<times> pyfloat list \<times> nat"

partial_function (option) attempt_loop ::
    "(string \<Rightarrow> pyfloat option) \<Rightarrow> (response \<Rightarrow> bool) \<Rightarrow> (nat \<Rightarrow> attempt) \<Rightarrow> rat \<Rightarrow> nat \<Rightarrow> outcome option" where
  "attempt_loop to_float upstream attempts deadline retry_num =
     (let a = attempts retry_num
      in if deadline - now_before a \<le> 0 then Some (Inr FAILURE, [], 0)
         else case send a of
           (Inl e, posts) \<Rightarrow> Some (Inl e, [], posts)
         | (Inr resp, posts) \<Rightarrow>
             if ok resp then Some (Inr SUCCESS, [], posts)
             else
               let backoff = get_retry_delay_sec to_float (jitter a) (retry_after resp) retry_num
               in if \<not> is_retryable upstream resp \<or> retry_num + 1 = max_retrys
                     \<or> exceeds backoff (deadline - now_after a)
                  then Some (Inr FAILURE, [], posts)
                  else if interrupted a then Some (Inr FAILURE, [backoff], posts)
                  else Option.bind (attempt_loop to_float upstream attempts deadline (retry_num + 1))
                         (\<lambda>(r, waits, n). Some (r, backoff # waits, posts + n)))"

definition export_batch ::
    "(string \<Rightarrow> pyfloat option) \<Rightarrow> (response \<Rightarrow> bool) \<Rightarrow> bool \<Rightarrow> rat \<Rightarrow> rat \<Rightarrow> (nat \<Rightarrow> attempt) \<Rightarrow> outcome option" where
  "export_batch to_float upstream shut_down start timeout attempts =
     (if shut_down then Some (Inr FAILURE, [], 0)
      else attempt_loop to_float upstream attempts (start + timeout) 0)"

text \<open>What a finished loop guarantees about its attempts, from attempt \<open>k\<close> on.\<close>

definition retried :: "(response \<Rightarrow> bool) \<Rightarrow> attempt \<Rightarrow> bool" where
  "retried upstream a \<longleftrightarrow> (\<exists>resp. fst (send a) = Inr resp \<and> \<not> ok resp \<and> is_retryable upstream resp)"

definition delay_of :: "(string \<Rightarrow> pyfloat option) \<Rightarrow> (nat \<Rightarrow> attempt) \<Rightarrow> nat \<Rightarrow> pyfloat" where
  "delay_of to_float attempts k =
     (case fst (send (attempts k)) of
        Inr resp \<Rightarrow> get_retry_delay_sec to_float (jitter (attempts k)) (retry_after resp) k
      | Inl e \<Rightarrow> Fin 0)"

lemma send_posts: "send a = (r, posts) \<Longrightarrow> posts = 1 \<or> posts = 2"
  by (auto simp: send_def split: if_splits)

lemma attempt_loop_spec:
  assumes "k < max_retrys"
  shows "\<exists>r waits posts. attempt_loop to_float upstream attempts deadline k = Some (r, waits, posts)
    \<and> length waits < max_retrys - k
    \<and> posts \<le> 2 * (max_retrys - k)
    \<and> waits = map (\<lambda>i. delay_of to_float attempts (k + i)) [0..<length waits]
    \<and> (\<forall>i < length waits. retried upstream (attempts (k + i))
         \<and> \<not> exceeds (delay_of to_float attempts (k + i)) (deadline - now_after (attempts (k + i))))
    \<and> (r = Inr SUCCESS \<longrightarrow> (\<exists>resp. fst (send (attempts (k + length waits))) = Inr resp \<and> ok resp))"
  using assms
proof (induction "max_retrys - k" arbitrary: k rule: less_induct)
  case less
  let ?a = "attempts k"
  obtain s posts where s: "send ?a = (s, posts)" by (cases "send ?a") auto
  note p = send_posts [OF s]
  have room: "2 \<le> 2 * (max_retrys - k)" using less(2) by simp
  show ?case
  proof (cases "deadline - now_before ?a \<le> 0")
    case True
    with less(2) show ?thesis by (subst attempt_loop.simps) (simp add: Let_def)
  next
    case time: False
    show ?thesis
    proof (cases s)
      case (Inl e)
      with time s p room less(2) show ?thesis by (subst attempt_loop.simps) (auto simp: Let_def)
    next
      case (Inr resp)
      let ?backoff = "get_retry_delay_sec to_float (jitter ?a) (retry_after resp) k"
      have d: "delay_of to_float attempts k = ?backoff" by (simp add: delay_of_def s Inr)
      consider (done_) "ok resp"
        | (fail) "\<not> ok resp" "\<not> is_retryable upstream resp \<or> k + 1 = max_retrys
            \<or> exceeds ?backoff (deadline - now_after ?a)"
        | (again) "\<not> ok resp" "is_retryable upstream resp" "k + 1 \<noteq> max_retrys"
            "\<not> exceeds ?backoff (deadline - now_after ?a)" by blast
      then show ?thesis
      proof cases
        case done_
        with time s Inr p room less(2) show ?thesis by (subst attempt_loop.simps) (auto simp: Let_def)
      next
        case fail
        with time s Inr p room less(2) show ?thesis by (subst attempt_loop.simps) (auto simp: Let_def)
      next
        case again
        have ret: "retried upstream ?a" using again s Inr by (simp add: retried_def)
        have k: "k + 1 < max_retrys" using less(2) again(3) by simp
        then have step: "max_retrys - (k + 1) < max_retrys - k" by simp
        show ?thesis
        proof (cases "interrupted ?a")
          case True
          with time s Inr again p room k d ret show ?thesis
            by (subst attempt_loop.simps) (auto simp: Let_def)
        next
          case False
          obtain r waits n where ih:
            "attempt_loop to_float upstream attempts deadline (k + 1) = Some (r, waits, n)"
            "length waits < max_retrys - (k + 1)" "n \<le> 2 * (max_retrys - (k + 1))"
            "waits = map (\<lambda>i. delay_of to_float attempts (k + 1 + i)) [0..<length waits]"
            "\<forall>i < length waits. retried upstream (attempts (k + 1 + i))
              \<and> \<not> exceeds (delay_of to_float attempts (k + 1 + i)) (deadline - now_after (attempts (k + 1 + i)))"
            "r = Inr SUCCESS \<longrightarrow> (\<exists>resp. fst (send (attempts (k + 1 + length waits))) = Inr resp \<and> ok resp)"
            using less(1) [OF step k] by blast
          have loop: "attempt_loop to_float upstream attempts deadline k = Some (r, ?backoff # waits, posts + n)"
            using time s Inr again False ih(1) by (subst attempt_loop.simps) (simp add: Let_def)
          have "map (\<lambda>i. delay_of to_float attempts (k + i)) [0..<Suc (length waits)] = ?backoff # waits"
            by (subst ih(4)) (simp add: upt_conv_Cons d map_Suc_upt [symmetric] del: upt_Suc)
          moreover have "\<forall>i < Suc (length waits). retried upstream (attempts (k + i))
              \<and> \<not> exceeds (delay_of to_float attempts (k + i)) (deadline - now_after (attempts (k + i)))"
            using ih(5) ret again(4) d by (auto simp: less_Suc_eq_0_disj)
          ultimately show ?thesis
            using loop ih(2,3,6) p k by auto
        qed
      qed
    qed
  qed
qed

text \<open>C23: The retry loop of the exporter always ends with a result: at most six attempts (at most twelve
  posts) are made, and every wait between two attempts is the \<open>Retry-After\<close> value of the response
  when it parses to a non-negative number and the jittered power of two otherwise, fits into the
  time left before the deadline, and follows a response that is an error and retryable (429 and 503
  included). Success is only reported after a successful response; after shutdown nothing is sent.\<close>

theorem export_retries_bounded:
  "\<exists>r waits posts. export_batch to_float upstream shut_down start timeout attempts = Some (r, waits, posts)
    \<and> length waits < 6 \<and> posts \<le> 12
    \<and> (shut_down \<longrightarrow> r = Inr FAILURE \<and> posts = 0)
    \<and> (\<forall>i < length waits.
         (\<exists>resp. fst (send (attempts i)) = Inr resp \<and> \<not> ok resp
            \<and> (status_code resp = 429 \<or> status_code resp = 503 \<or> upstream resp)
            \<and> waits ! i = get_retry_delay_sec to_float (jitter (attempts i)) (retry_after resp) i
            \<and> \<not> exceeds (waits ! i) (start + timeout - now_after (attempts i))))
    \<and> (r = Inr SUCCESS \<longrightarrow> (\<exists>resp. fst (send (attempts (length waits))) = Inr resp \<and> ok resp))"
proof (cases shut_down)
  case True
  then show ?thesis by (simp add: export_batch_def)
next
  case False
  obtain r waits posts where l:
    "attempt_loop to_float upstream attempts (start + timeout) 0 = Some (r, waits, posts)"
    "length waits < 6" "posts \<le> 12"
    "waits = map (delay_of to_float attempts) [0..<length waits]"
    "\<forall>i < length waits. retried upstream (attempts i)
       \<and> \<not> exceeds (delay_of to_float attempts i) (start + timeout - now_after (attempts i))"
    "r = Inr SUCCESS \<longrightarrow> (\<exists>resp. fst (send (attempts (length waits))) = Inr resp \<and> ok resp)"
    using attempt_loop_spec [of 0 to_float upstream attempts "start + timeout"]
    by (auto simp: max_retrys_def)
  have "waits ! i = delay_of to_float attempts i" if "i < length waits" for i
    using that by (subst l(4)) simp
  with l(5) have "\<forall>i < length waits.
      (\<exists>resp. fst (send (attempts i)) = Inr resp \<and> \<not> ok resp
         \<and> (status_code resp = 429 \<or> status_code resp = 503 \<or> upstream resp)
         \<and> waits ! i = get_retry_delay_sec to_float (jitter (attempts i)) (retry_after resp) i
         \<and> \<not> exceeds (waits ! i) (start + timeout - now_after (attempts i)))"
    by (fastforce simp: retried_def is_retryable_def delay_of_def)
  with l(1,2,3,6) False show ?thesis by (simp add: export_batch_def)
qed

text \<open>A throttled request that succeeds on the second attempt, and the retry delays themselves.\<close>

definition demo_attempts :: "nat \<Rightarrow> attempt" where
  "demo_attempts k =
     \<lparr>now_before = of_nat k,
      first_post = (if k = 0 then Inr \<lparr>ok = False, status_code = 429, retry_after = Some ''3''\<rparr>
                    else Inl connection_error),
      second_post = Inr \<lparr>ok = True, status_code = 200, retry_after = None\<rparr>,
      now_after = of_nat k, jitter = 1, interrupted = False\<rparr>"

definition demo_float :: "string \<Rightarrow> pyfloat option" where
  "demo_float s = (if s = ''3'' then Some (Fin 3) else if s = ''nan'' then Some NaN else None)"

lemma demo_export:
  "export_batch demo_float (\<lambda>r. False) False 0 10 demo_attempts = Some (Inr SUCCESS, [Fin 3], 3)"
  unfolding export_batch_def
  by (simp add: attempt_loop.simps demo_attempts_def send_def connection_error_def is_retryable_def
      get_retry_delay_sec_def parse_retryable_header_def demo_float_def non_negative_def exceeds_def
      max_retrys_def)

theorem export_retries_bounded_witness:
  "\<exists>resp. fst (send (demo_attempts 0)) = Inr resp \<and> \<not> ok resp
     \<and> Fin 3 = get_retry_delay_sec demo_float (jitter (demo_attempts 0)) (retry_after resp) 0
     \<and> \<not> exceeds (Fin 3) (0 + 10 - now_after (demo_attempts 0))"
  using export_retries_bounded [of demo_float "\<lambda>r. False" False 0 10 demo_attempts]
  by (auto simp: demo_export)

end
