(* ===== verification/Json.thy ===== *)
theory Json
  imports Spans
begin

text \<open>
  The JSON values the exporters build and the text \<open>json.dumps\<close> makes of them with its default
  settings (\<open>ensure_ascii\<close>, separators \<open>", "\<close> and \<open>": "\<close>), and the flags of \<open>_utils.py\<close> read from the
  environment. \<open>repr\<close> of a float is the runtime's. A value of a class the encoder does not know (a
  member of an enumeration) raises \<open>TypeError\<close>.
\<close>

section \<open>Values\<close>

datatype json = JStr string | JInt int | JFloat rat | JBool bool | JNull | JList "json list"
  | JObj "(string \<times> json) list" | JUnknown

fun json_of :: "aval \<Rightarrow> json" where
  "json_of (AStr s) = JStr s"
| "json_of (ABool b) = JBool b"
| "json_of (AInt i) = JInt i"
| "json_of (AFloat q) = JFloat q"
| "json_of (ASeq vs) = JList (map json_of vs)"
| "json_of (AEnum n) = JUnknown"

definition hex_digit :: "nat \<Rightarrow> char" where
  "hex_digit n = (if n < 10 then char_of (48 + n) else char_of (87 + n))"

definition json_char :: "char \<Rightarrow> string" where
  "json_char c =
     (if ord c = 34 then [char_of (92::nat), char_of (34::nat)]
      else if ord c = 92 then [char_of (92::nat), char_of (92::nat)]
      else if 32 \<le> ord c \<and> ord c \<le> 126 then [c]
      else if ord c = 10 then char_of (92::nat) # ''n''
      else if ord c = 13 then char_of (92::nat) # ''r''
      else if ord c = 9 then char_of (92::nat) # ''t''
      else if ord c = 12 then char_of (92::nat) # ''f''
      else if ord c = 8 then char_of (92::nat) # ''b''
      else char_of (92::nat) # ''u00'' @ [hex_digit (ord c div 16), hex_digit (ord c mod 16)])"

definition json_text :: "string \<Rightarrow> string" where
  "json_text s = [char_of (34::nat)] @ concat (map json_char s) @ [char_of (34::nat)]"

fun dumps :: "runtime \<Rightarrow> json \<Rightarrow> string res"
  and dumps_list :: "runtime \<Rightarrow> json list \<Rightarrow> string list res"
  and dumps_fields :: "runtime \<Rightarrow> (string \<times> json) list \<Rightarrow> string list res" where
  "dumps rt (JStr s) = Inr (json_text s)"
| "dumps rt (JInt i) = Inr (int_str i)"
| "dumps rt (JFloat q) = Inr (py_str rt (AFloat q))"
| "dumps rt (JBool b) = Inr (if b then ''true'' else ''false'')"
| "dumps rt JNull = Inr ''null''"
| "dumps rt (JList vs) = bindr (dumps_list rt vs) (\<lambda>ts. Inr (''['' @ py_join '', '' ts @ '']''))"
| "dumps rt (JObj fs) = bindr (dumps_fields rt fs) (\<lambda>ts. Inr (''{'' @ py_join '', '' ts @ ''}''))"
| "dumps rt JUnknown = Inl TypeError"
| "dumps_list rt [] = Inr []"
| "dumps_list rt (v # vs) = bindr (dumps rt v) (\<lambda>t. bindr (dumps_list rt vs) (\<lambda>ts. Inr (t # ts)))"
| "dumps_fields rt [] = Inr []"
| "dumps_fields rt ((k, v) # fs) =
     bindr (dumps rt v) (\<lambda>t.
     bindr (dumps_fields rt fs) (\<lambda>ts. Inr ((json_text k @ '': '' @ t) # ts)))"

section \<open>Flags\<close>

text \<open>\<open>os.environ.get(name, default)\<close>.\<close>

definition env_or :: "runtime \<Rightarrow> string \<Rightarrow> string \<Rightarrow> string" where
  "env_or rt name other = (case map_of (environ rt) name of Some v \<Rightarrow> v | None \<Rightarrow> other)"

definition is_agent_observability_enabled :: "runtime \<Rightarrow> bool" where
  "is_agent_observability_enabled rt \<longleftrightarrow>
     py_lower (env_or rt ''AGENT_OBSERVABILITY_ENABLED'' ''false'') = ''true''"

definition should_add_application_signals_dimensions :: "runtime \<Rightarrow> bool" where
  "should_add_application_signals_dimensions rt \<longleftrightarrow>
     py_lower (env_or rt ''OTEL_METRICS_ADD_APPLICATION_SIGNALS_DIMENSIONS'' ''true'') = ''true''"

text \<open>
  \<open>get_aws_region\<close>: with botocore, the region of the environment or else the one botocore finds
  (its configuration, a parameter); without botocore, none.
\<close>

definition get_aws_region :: "runtime \<Rightarrow> bool \<Rightarrow> string option \<Rightarrow> string option" where
  "get_aws_region rt botocore_installed botocore_region =
     (if botocore_installed
      then (let region = (case map_of (environ rt) ''AWS_REGION'' of
                            Some (c # cs) \<Rightarrow> Some (c # cs)
                          | _ \<Rightarrow> map_of (environ rt) ''AWS_DEFAULT_REGION'')
            in case region of
                 Some (c # cs) \<Rightarrow> Some (c # cs)
               | _ \<Rightarrow> botocore_region)
      else None)"

end
