(* ===== verification/LogClient.thy ===== *)
theory LogClient
  imports Batching
begin

text \<open>
  The CloudWatch Logs client, \<open>exporter/aws/metrics/_cloudwatch_log_client.py\<close>: the event
  batch, the validation of an event, the limits of a request, the lazy creation of the log group
  and stream, and the two entry points \<open>send_log_event\<close> and \<open>flush_pending_events\<close>.

  Times are milliseconds. \<open>time.time()\<close> is read at up to four places of one call; the values
  read are the fields of \<open>readings\<close>. The botocore client is a parameter: \<open>aws_answers\<close> holds what
  its calls answer (\<open>None\<close> for success), so every statement holds for every behaviour of
  the service. The readings used only for log texts are left out.
\<close>

section \<open>Event batches\<close>

record log_event =
  message :: "string option"
  timestamp :: "int option"

record event_batch =
  log_events :: "log_event list"
  byte_total :: int
  min_timestamp_ms :: int
  max_timestamp_ms :: int
  created_timestamp_ms :: int

definition new_batch :: "int \<Rightarrow> event_batch" where
  "new_batch now = \<lparr>log_events = [], byte_total = 0, min_timestamp_ms = 0, max_timestamp_ms = 0,
     created_timestamp_ms = now\<rparr>"

definition time_of :: "log_event \<Rightarrow> int" where
  "time_of ev = (case timestamp ev of Some t \<Rightarrow> t | None \<Rightarrow> 0)"

definition add_event :: "log_event \<Rightarrow> int \<Rightarrow> event_batch \<Rightarrow> event_batch" where
  "add_event ev event_size b =
     b\<lparr>log_events := log_events b @ [ev],
       byte_total := byte_total b + event_size,
       min_timestamp_ms :=
         (if min_timestamp_ms b = 0 \<or> time_of ev < min_timestamp_ms b then time_of ev
          else min_timestamp_ms b),
       max_timestamp_ms :=
         (if time_of ev > max_timestamp_ms b then time_of ev else max_timestamp_ms b)\<rparr>"

definition is_empty :: "event_batch \<Rightarrow> bool" where
  "is_empty b \<longleftrightarrow> log_events b = []"

definition batch_size :: "event_batch \<Rightarrow> int" where
  "batch_size b = int (length (log_events b))"

definition clear :: "int \<Rightarrow> event_batch \<Rightarrow> event_batch" where
  "clear now b = b\<lparr>log_events := [], byte_total := 0, min_timestamp_ms := 0, max_timestamp_ms := 0,
     created_timestamp_ms := now\<rparr>"

lemma clear_is_new: "clear now b = new_batch now"
  by (simp add: clear_def new_batch_def)

section \<open>Limits\<close>

definition cw_max_event_payload_bytes :: int where "cw_max_event_payload_bytes = 256 * 1024"
definition cw_max_request_event_count :: int where "cw_max_request_event_count = 10000"
definition cw_per_event_header_bytes :: int where "cw_per_event_header_bytes = 26"
definition batch_flush_interval :: int where "batch_flush_interval = 60 * 1000"
definition cw_max_request_payload_bytes :: int where "cw_max_request_payload_bytes = 1 * 1024 * 1024"
definition cw_truncated_suffix :: string where "cw_truncated_suffix = ''[Truncated...]''"
definition cw_event_timestamp_limit_past :: int where
  "cw_event_timestamp_limit_past = 14 * 24 * 60 * 60 * 1000"
definition cw_event_timestamp_limit_future :: int where
  "cw_event_timestamp_limit_future = 2 * 60 * 60 * 1000"
definition day_ms :: int where "day_ms = 24 * 3600 * 1000"

lemmas limit_defs = cw_max_event_payload_bytes_def cw_max_request_event_count_def
  cw_per_event_header_bytes_def batch_flush_interval_def cw_max_request_payload_bytes_def
  cw_event_timestamp_limit_past_def cw_event_timestamp_limit_future_def day_ms_def

section \<open>Validation\<close>

text \<open>\<open>message[:max_message_size] + CW_TRUNCATED_SUFFIX\<close> when the event is too large.\<close>

definition truncate_message :: "string \<Rightarrow> string" where
  "truncate_message m =
     (if int (length m) + cw_per_event_header_bytes > cw_max_event_payload_bytes
      then take (nat (cw_max_event_payload_bytes - cw_per_event_header_bytes
                      - int (length cw_truncated_suffix))) m @ cw_truncated_suffix
      else m)"

text \<open>The verdict, and the event after the call, which truncates its message in place.\<close>

definition validate_log_event :: "int \<Rightarrow> log_event \<Rightarrow> bool \<times> log_event" where
  "validate_log_event now ev =
     (case message ev of
        None \<Rightarrow> (False, ev)
      | Some m \<Rightarrow>
          if m = [] \<or> py_strip m = [] then (False, ev)
          else
            let ev' = (if int (length m) + cw_per_event_header_bytes > cw_max_event_payload_bytes
                       then ev\<lparr>message := Some (truncate_message m)\<rparr> else ev);
                time_diff = now - time_of ev
            in (\<not> (time_diff > cw_event_timestamp_limit_past
                   \<or> time_diff < - cw_event_timestamp_limit_future), ev'))"

definition event_batch_exceeds_limit :: "event_batch \<Rightarrow> int \<Rightarrow> bool" where
  "event_batch_exceeds_limit b next_event_size \<longleftrightarrow>
     batch_size b \<ge> cw_max_request_event_count
     \<or> byte_total b + next_event_size > cw_max_request_payload_bytes"

definition is_batch_active :: "int \<Rightarrow> event_batch \<Rightarrow> int \<Rightarrow> bool" where
  "is_batch_active now b target \<longleftrightarrow>
     (if min_timestamp_ms b = 0 \<or> max_timestamp_ms b = 0 then True
      else if target - min_timestamp_ms b > day_ms then False
      else if max_timestamp_ms b - target > day_ms then False
      else \<not> (now - created_timestamp_ms b \<ge> batch_flush_interval))"

section \<open>Requests\<close>

datatype aws_call = PutLogEvents string string "log_event list"
  | CreateLogGroup string | CreateLogStream string string

text \<open>A trace: the calls in order, each with the exception it raised, if any.\<close>

type_synonym trace = "(aws_call \<times> exn option) list"

record aws_answers =
  first_put :: "exn option"
  create_group :: "exn option"
  create_stream :: "exn option"
  second_put :: "exn option"

record client =
  log_group_name :: string
  log_stream_name :: string
  pending :: "event_batch option"

definition generate_log_stream_name :: "string \<Rightarrow> string" where
  "generate_log_stream_name uuid4 = ''otel-python-'' @ take 8 uuid4"

definition new_client :: "string \<Rightarrow> string \<Rightarrow> string option \<Rightarrow> client" where
  "new_client uuid4 log_group log_stream =
     \<lparr>log_group_name = log_group,
      log_stream_name =
        (case log_stream of
           Some s \<Rightarrow> if s \<noteq> [] then s else generate_log_stream_name uuid4
         | None \<Rightarrow> generate_log_stream_name uuid4),
      pending = None\<rparr>"

definition already_exists :: "exn option \<Rightarrow> exn option" where
  "already_exists answer =
     (if answer = Some (ClientError ''ResourceAlreadyExistsException'') then None else answer)"

definition create_log_group_if_needed :: "aws_answers \<Rightarrow> client \<Rightarrow> exn option \<times> trace" where
  "create_log_group_if_needed aws cl =
     (already_exists (create_group aws), [(CreateLogGroup (log_group_name cl), create_group aws)])"

definition create_log_stream_if_needed :: "aws_answers \<Rightarrow> client \<Rightarrow> exn option \<times> trace" where
  "create_log_stream_if_needed aws cl =
     (already_exists (create_stream aws),
      [(CreateLogStream (log_group_name cl) (log_stream_name cl), create_stream aws)])"

definition sort_log_events :: "event_batch \<Rightarrow> event_batch res" where
  "sort_log_events b =
     (if list_all (\<lambda>ev. timestamp ev \<noteq> None) (log_events b)
      then Inr (b\<lparr>log_events := sort_key (\<lambda>ev. the (timestamp ev)) (log_events b)\<rparr>)
      else Inl KeyError)"

definition send_log_batch ::
    "aws_answers \<Rightarrow> client \<Rightarrow> event_batch \<Rightarrow> exn option \<times> event_batch \<times> trace" where
  "send_log_batch aws cl b =
     (if is_empty b then (None, b, [])
      else case sort_log_events b of
        Inl e \<Rightarrow> (Some e, b, [])
      | Inr b' \<Rightarrow>
          let put = PutLogEvents (log_group_name cl) (log_stream_name cl) (log_events b')
          in if first_put aws = Some (ClientError ''ResourceNotFoundException'')
             then (let (group_error, calls1) = create_log_group_if_needed aws cl
                   in if group_error \<noteq> None
                      then (group_error, b', (put, first_put aws) # calls1)
                      else let (stream_error, calls2) = create_log_stream_if_needed aws cl
                           in if stream_error \<noteq> None
                              then (stream_error, b', (put, first_put aws) # calls1 @ calls2)
                              else (second_put aws, b',
                                    (put, first_put aws) # calls1 @ calls2 @ [(put, second_put aws)]))
             else (first_put aws, b', [(put, first_put aws)]))"

section \<open>Entry points\<close>

record readings =
  at_validate :: int
  at_create :: int
  at_check :: int
  at_replace :: int

definition event_size :: "log_event \<Rightarrow> int" where
  "event_size ev = int (length (the (message ev))) + cw_per_event_header_bytes"

text \<open>Whether the current batch has to go out first; reading \<open>log_event["timestamp"]\<close> may raise.\<close>

definition must_send :: "int \<Rightarrow> event_batch \<Rightarrow> log_event \<Rightarrow> bool res" where
  "must_send now b ev =
     (if event_batch_exceeds_limit b (event_size ev) then Inr True
      else case timestamp ev of
             None \<Rightarrow> Inl KeyError
           | Some target \<Rightarrow> Inr (\<not> is_batch_active now b target))"

definition send_log_event ::
    "readings \<Rightarrow> aws_answers \<Rightarrow> log_event \<Rightarrow> client \<Rightarrow> exn option \<times> client \<times> trace" where
  "send_log_event t aws ev cl =
     (let (valid, ev') = validate_log_event (at_validate t) ev
      in if \<not> valid then (None, cl, [])
         else
           let b = (case pending cl of None \<Rightarrow> new_batch (at_create t) | Some b \<Rightarrow> b)
           in case must_send (at_check t) b ev' of
                Inl e \<Rightarrow> (Some e, cl\<lparr>pending := Some b\<rparr>, [])
              | Inr False \<Rightarrow> (None, cl\<lparr>pending := Some (add_event ev' (event_size ev') b)\<rparr>, [])
              | Inr True \<Rightarrow>
                  (case send_log_batch aws cl b of
                     (Some e, b', calls) \<Rightarrow> (Some e, cl\<lparr>pending := Some b'\<rparr>, calls)
                   | (None, b', calls) \<Rightarrow>
                       (None,
                        cl\<lparr>pending := Some (add_event ev' (event_size ev') (new_batch (at_replace t)))\<rparr>,
                        calls)))"

definition flush_pending_events ::
    "readings \<Rightarrow> aws_answers \<Rightarrow> client \<Rightarrow> exn option \<times> client \<times> trace" where
  "flush_pending_events t aws cl =
     (case pending cl of
        None \<Rightarrow> (None, cl, [])
      | Some b \<Rightarrow>
          if is_empty b then (None, cl, [])
          else (case send_log_batch aws cl b of
                  (Some e, b', calls) \<Rightarrow> (Some e, cl\<lparr>pending := Some b'\<rparr>, calls)
                | (None, b', calls) \<Rightarrow> (None, cl\<lparr>pending := Some (new_batch (at_replace t))\<rparr>, calls)))"

text \<open>A history of the client: each entry is one call with its clock and the service's answers.\<close>

datatype operation = Send readings aws_answers log_event | Flush readings aws_answers

fun perform :: "operation \<Rightarrow> client \<Rightarrow> exn option \<times> client \<times> trace" where
  "perform (Send t aws ev) cl = send_log_event t aws ev cl"
| "perform (Flush t aws) cl = flush_pending_events t aws cl"

text \<open>What an operation took over: the event of a call that validated it and did not raise.\<close>

fun taken :: "operation \<Rightarrow> exn option \<Rightarrow> log_event list" where
  "taken (Send t aws ev) error =
     (let (valid, ev') = validate_log_event (at_validate t) ev
      in if valid \<and> error = None then [ev'] else [])"
| "taken (Flush t aws) error = []"

fun history :: "operation list \<Rightarrow> client \<Rightarrow> client \<times> trace \<times> log_event list" where
  "history [] cl = (cl, [], [])"
| "history (op # ops) cl =
     (let (error, cl1, calls) = perform op cl;
          (cl2, calls', accepted) = history ops cl1
      in (cl2, calls @ calls', taken op error @ accepted))"

text \<open>The events of the successful put requests of a trace, in order.\<close>

fun delivered :: "trace \<Rightarrow> log_event list" where
  "delivered [] = []"
| "delivered ((PutLogEvents g s evs, None) # calls) = evs @ delivered calls"
| "delivered (call # calls) = delivered calls"

definition waiting :: "client \<Rightarrow> log_event list" where
  "waiting cl = (case pending cl of None \<Rightarrow> [] | Some b \<Rightarrow> log_events b)"

lemma waiting_pending [simp]: "waiting (cl\<lparr>pending := Some b\<rparr>) = log_events b"
  by (simp add: waiting_def)

lemma delivered_append [simp]: "delivered (xs @ ys) = delivered xs @ delivered ys"
  by (induction xs rule: delivered.induct) auto

lemma delivered_failed [simp]: "delivered ((call, Some e) # calls) = delivered calls"
  by (cases call) auto

lemma delivered_create [simp]:
  "delivered ((CreateLogGroup g, a) # calls) = delivered calls"
  "delivered ((CreateLogStream g s, a) # calls) = delivered calls"
  by (cases a; simp)+

lemma delivered_put: "delivered ((PutLogEvents g s evs, a) # calls)
    = (if a = None then evs @ delivered calls else delivered calls)"
  by (cases a) auto

section \<open>No event is lost or sent twice\<close>

lemma sort_log_events_mset: "sort_log_events b = Inr b' \<Longrightarrow> mset (log_events b') = mset (log_events b)"
  by (auto simp: sort_log_events_def split: if_splits)

lemmas send_batch_defs = send_log_batch_def create_log_group_if_needed_def create_log_stream_if_needed_def

lemma send_log_batch_events:
  assumes "send_log_batch aws cl b = (error, b', calls)"
  shows "mset (log_events b') = mset (log_events b)"
    and "mset (delivered calls) = (if error = None then mset (log_events b) else {#})"
proof -
  have "mset (log_events b') = mset (log_events b)
      \<and> mset (delivered calls) = (if error = None then mset (log_events b) else {#})"
  proof (cases "is_empty b")
    case True
    with assms show ?thesis by (simp add: send_log_batch_def is_empty_def)
  next
    case False
    show ?thesis
    proof (cases "sort_log_events b")
      case (Inl e)
      with False assms show ?thesis by (auto simp: send_log_batch_def)
    next
      case (Inr s)
      with False assms sort_log_events_mset [OF Inr] show ?thesis
        by (auto simp: send_batch_defs delivered_put Let_def split: if_splits)
    qed
  qed
  then show "mset (log_events b') = mset (log_events b)"
    and "mset (delivered calls) = (if error = None then mset (log_events b) else {#})"
    by simp_all
qed

lemma add_event_events [simp]: "log_events (add_event ev n b) = log_events b @ [ev]"
  by (simp add: add_event_def)

lemma new_batch_events [simp]: "log_events (new_batch now) = []"
  by (simp add: new_batch_def)

lemma perform_conserves:
  assumes "perform op cl = (error, cl', calls)"
  shows "mset (delivered calls) + mset (waiting cl') = mset (waiting cl) + mset (taken op error)"
proof (cases op)
  case (Send t aws ev)
  obtain valid ev' where v: "validate_log_event (at_validate t) ev = (valid, ev')" by fastforce
  define b where "b = (case pending cl of None \<Rightarrow> new_batch (at_create t) | Some b \<Rightarrow> b)"
  have w: "waiting cl = log_events b"
    by (simp add: waiting_def b_def split: option.splits)
  obtain r1 b1 c1 where s: "send_log_batch aws cl b = (r1, b1, c1)"
    by (cases "send_log_batch aws cl b") auto
  show ?thesis
  proof (cases valid)
    case False
    with assms show ?thesis by (auto simp: Send send_log_event_def v)
  next
    case True
    show ?thesis
    proof (cases "must_send (at_check t) b ev'")
      case (Inl e)
      with assms True show ?thesis
        by (auto simp: Send send_log_event_def v w b_def [symmetric])
    next
      case (Inr m)
      with assms True send_log_batch_events [OF s] show ?thesis
        by (cases m; cases r1)
           (auto simp: Send send_log_event_def v w s b_def [symmetric])
    qed
  qed
next
  case (Flush t aws)
  show ?thesis
  proof (cases "pending cl")
    case None
    with assms show ?thesis by (auto simp: Flush flush_pending_events_def waiting_def)
  next
    case (Some b)
    obtain r1 b1 c1 where s: "send_log_batch aws cl b = (r1, b1, c1)"
      by (cases "send_log_batch aws cl b") auto
    with assms Some send_log_batch_events [OF s] show ?thesis
      by (cases r1) (auto simp: Flush flush_pending_events_def waiting_def split: if_splits)
  qed
qed

lemma history_conserves:
  "history ops cl = (cl', calls, accepted) \<Longrightarrow>
   mset (delivered calls) + mset (waiting cl') = mset (waiting cl) + mset accepted"
proof (induction ops arbitrary: cl calls accepted)
  case Nil
  then show ?case by auto
next
  case (Cons op ops)
  obtain error cl1 c1 where p: "perform op cl = (error, cl1, c1)" by (cases "perform op cl") auto
  obtain cl2 c2 a2 where h: "history ops cl1 = (cl2, c2, a2)" by (cases "history ops cl1") auto
  from Cons.prems p h have e: "cl2 = cl'" "calls = c1 @ c2" "accepted = taken op error @ a2" by auto
  from h have "mset (delivered c2) + mset (waiting cl') = mset (waiting cl1) + mset a2"
    using Cons.IH by (simp add: e)
  with perform_conserves [OF p] e show ?case
    by (simp add: algebra_simps)
qed

text \<open>C4: Events are neither lost nor duplicated. Over every sequence of \<open>send_log_event\<close> and
  \<open>flush_pending_events\<close> calls, for every clock and every answer of the service (errors of any of
  its operations included), the events of the successful \<open>PutLogEvents\<close> requests together with the
  events still pending are, as a multiset, exactly the validated events of the calls that did not
  raise.\<close>

theorem log_client_conservation:
  "case history ops (new_client uuid4 log_group log_stream) of (cl, calls, accepted) \<Rightarrow>
     mset (delivered calls) + mset (waiting cl) = mset accepted"
proof -
  obtain cl calls accepted where h: "history ops (new_client uuid4 log_group log_stream) = (cl, calls, accepted)"
    by (cases "history ops (new_client uuid4 log_group log_stream)") auto
  have "waiting (new_client uuid4 log_group log_stream) = []" by (simp add: waiting_def new_client_def)
  with history_conserves [OF h] h show ?thesis by simp
qed

section \<open>Requests respect the limits of the service\<close>

definition event_ok :: "log_event \<Rightarrow> bool" where
  "event_ok ev \<longleftrightarrow>
     (\<exists>m t. message ev = Some m \<and> m \<noteq> [] \<and> timestamp ev = Some t \<and> t > 0
        \<and> event_size ev \<le> cw_max_event_payload_bytes)"

definition request_ok :: "log_event list \<Rightarrow> bool" where
  "request_ok evs \<longleftrightarrow>
     evs \<noteq> [] \<and> list_all event_ok evs
     \<and> int (length evs) \<le> cw_max_request_event_count
     \<and> sum_list (map event_size evs) \<le> cw_max_request_payload_bytes
     \<and> sorted (map time_of evs)
     \<and> (\<forall>e \<in> set evs. \<forall>e' \<in> set evs. time_of e - time_of e' \<le> day_ms)"

definition span_ok :: "event_batch \<Rightarrow> bool" where
  "span_ok b \<longleftrightarrow>
     (if log_events b = [] then min_timestamp_ms b = 0 \<and> max_timestamp_ms b = 0
      else 0 < min_timestamp_ms b \<and> max_timestamp_ms b - min_timestamp_ms b \<le> day_ms
        \<and> (\<forall>e \<in> set (log_events b). min_timestamp_ms b \<le> time_of e \<and> time_of e \<le> max_timestamp_ms b))"

definition batch_ok :: "event_batch \<Rightarrow> bool" where
  "batch_ok b \<longleftrightarrow>
     list_all event_ok (log_events b)
     \<and> int (length (log_events b)) \<le> cw_max_request_event_count
     \<and> byte_total b = sum_list (map event_size (log_events b))
     \<and> byte_total b \<le> cw_max_request_payload_bytes
     \<and> span_ok b"

definition fits_batch :: "readings \<Rightarrow> event_batch \<Rightarrow> log_event \<Rightarrow> bool" where
  "fits_batch t b ev \<longleftrightarrow> must_send (at_check t) b ev = Inr False"

lemma event_ok_time: "event_ok ev \<Longrightarrow> \<exists>t. timestamp ev = Some t \<and> time_of ev = t \<and> 0 < t"
  by (auto simp: event_ok_def time_of_def)

lemma event_ok_size: "event_ok ev \<Longrightarrow> event_size ev \<le> cw_max_event_payload_bytes"
  by (auto simp: event_ok_def)

lemma batch_ok_new: "batch_ok (new_batch now)"
  by (simp add: batch_ok_def span_ok_def new_batch_def limit_defs)

lemma span_ok_add:
  assumes "event_ok ev" "span_ok b"
    and "is_batch_active now b (time_of ev)"
  shows "span_ok (add_event ev n b)"
proof -
  have pos: "0 < time_of ev" using event_ok_time [OF assms(1)] by auto
  show ?thesis
  proof (cases "log_events b = []")
    case True
    with assms(2) pos show ?thesis by (simp add: span_ok_def add_event_def day_ms_def)
  next
    case False
    then obtain e where e: "e \<in> set (log_events b)" by (cases "log_events b") auto
    from assms(2) False have b: "0 < min_timestamp_ms b" "max_timestamp_ms b - min_timestamp_ms b \<le> day_ms"
      "\<forall>e \<in> set (log_events b). min_timestamp_ms b \<le> time_of e \<and> time_of e \<le> max_timestamp_ms b"
      by (simp_all add: span_ok_def)
    with e have "0 < max_timestamp_ms b" by force
    with assms(3) b(1) have near: "time_of ev - min_timestamp_ms b \<le> day_ms"
      "max_timestamp_ms b - time_of ev \<le> day_ms"
      by (auto simp: is_batch_active_def split: if_splits)
    from b e have "min_timestamp_ms b \<le> max_timestamp_ms b" by force
    with near b pos show ?thesis by (auto simp: span_ok_def add_event_def)
  qed
qed

lemma batch_ok_add:
  assumes "event_ok ev" "batch_ok b" "fits_batch t b ev"
  shows "batch_ok (add_event ev (event_size ev) b)"
proof -
  from assms(3) event_ok_time [OF assms(1)]
  have "\<not> event_batch_exceeds_limit b (event_size ev)" "is_batch_active (at_check t) b (time_of ev)"
    by (auto simp: fits_batch_def must_send_def split: if_splits)
  with span_ok_add [OF assms(1)] assms show ?thesis
    by (auto simp: batch_ok_def event_batch_exceeds_limit_def batch_size_def)
       (simp_all add: add_event_def)
qed

lemma batch_ok_first: "event_ok ev \<Longrightarrow> batch_ok (add_event ev (event_size ev) (new_batch now))"
  using event_ok_time [of ev] event_ok_size [of ev]
  by (auto simp: batch_ok_def span_ok_def add_event_def new_batch_def limit_defs)

lemma empty_batch_fits: "event_ok ev \<Longrightarrow> batch_ok b \<Longrightarrow> log_events b = [] \<Longrightarrow> fits_batch t b ev"
  using event_ok_time [of ev] event_ok_size [of ev]
  by (auto simp: fits_batch_def must_send_def event_batch_exceeds_limit_def batch_size_def batch_ok_def
      span_ok_def is_batch_active_def limit_defs)

interpretation cw: batcher log_events fits_batch "\<lambda>ev. add_event ev (event_size ev)"
    "\<lambda>t. new_batch (at_replace t)" batch_ok event_ok
  by unfold_locales (auto intro: batch_ok_new batch_ok_first batch_ok_add empty_batch_fits)

lemma event_ok_decides: "event_ok ev \<Longrightarrow> must_send now b ev \<noteq> Inl e"
  using event_ok_time [of ev] by (auto simp: must_send_def)

lemma blank_free: "py_strip m \<noteq> [] \<Longrightarrow> m \<noteq> []"
  by (auto simp: py_strip_def)

lemma truncated_size:
  "int (length (truncate_message m)) + cw_per_event_header_bytes \<le> cw_max_event_payload_bytes"
  by (simp add: truncate_message_def limit_defs cw_truncated_suffix_def)

lemma validated_event_ok:
  assumes "validate_log_event now ev = (True, ev')" "cw_event_timestamp_limit_past < now"
  shows "event_ok ev'"
proof -
  obtain m where m: "message ev = Some m" "m \<noteq> []" "py_strip m \<noteq> []"
    using assms(1) by (auto simp: validate_log_event_def split: option.splits if_splits)
  have "now - time_of ev \<le> cw_event_timestamp_limit_past"
    using assms(1) m by (auto simp: validate_log_event_def Let_def)
  with assms(2) have "0 < time_of ev" by simp
  then obtain t where t: "timestamp ev = Some t" "0 < t"
    by (auto simp: time_of_def split: option.splits)
  have "ev' = ev\<lparr>message := Some (truncate_message m)\<rparr>"
    using assms(1) m by (auto simp: validate_log_event_def truncate_message_def Let_def)
  moreover have "truncate_message m \<noteq> []"
    using m by (simp add: truncate_message_def cw_truncated_suffix_def)
  ultimately show ?thesis
    using t truncated_size [of m] by (simp add: event_ok_def event_size_def)
qed

lemma sum_list_sort: "sum_list (map f (sort_key g xs)) = sum_list (map (f :: _ \<Rightarrow> int) xs)"
  by (metis mset_map mset_sort sum_mset_sum_list)

lemma sorted_batch:
  assumes "batch_ok b"
  obtains b' where "sort_log_events b = Inr b'" "batch_ok b'"
    and "log_events b \<noteq> [] \<Longrightarrow> request_ok (log_events b')"
proof -
  let ?xs = "sort_key (\<lambda>ev. the (timestamp ev)) (log_events b)"
  have ok: "list_all event_ok (log_events b)" using assms by (simp add: batch_ok_def)
  then have times: "\<forall>e \<in> set (log_events b). timestamp e = Some (time_of e)"
    using event_ok_time by (fastforce simp: list_all_iff)
  then have "sort_log_events b = Inr (b\<lparr>log_events := ?xs\<rparr>)"
    by (auto simp: sort_log_events_def list_all_iff)
  moreover from assms have "batch_ok (b\<lparr>log_events := ?xs\<rparr>)"
    by (simp add: batch_ok_def span_ok_def sum_list_sort list_all_iff flip: set_empty)
  moreover have "request_ok ?xs" if "log_events b \<noteq> []"
  proof -
    have "map time_of ?xs = map (\<lambda>ev. the (timestamp ev)) ?xs" using times by simp
    then have "sorted (map time_of ?xs)" by (simp only: sorted_sort_key)
    moreover have "\<forall>e \<in> set ?xs. \<forall>e' \<in> set ?xs. time_of e - time_of e' \<le> day_ms"
    proof (intro ballI)
      fix e e' assume "e \<in> set ?xs" "e' \<in> set ?xs"
      with assms that have "time_of e \<le> max_timestamp_ms b" "min_timestamp_ms b \<le> time_of e'"
        "max_timestamp_ms b - min_timestamp_ms b \<le> day_ms"
        by (auto simp: batch_ok_def span_ok_def)
      then show "time_of e - time_of e' \<le> day_ms" by simp
    qed
    ultimately show ?thesis
      using assms that ok by (auto simp: request_ok_def batch_ok_def sum_list_sort list_all_iff simp flip: set_empty)
  qed
  ultimately show ?thesis using that by simp
qed

text \<open>The put requests of a trace go to the client's stream and respect the limits.\<close>

definition puts_ok :: "client \<Rightarrow> trace \<Rightarrow> bool" where
  "puts_ok cl calls \<longleftrightarrow>
     (\<forall>g s evs a. (PutLogEvents g s evs, a) \<in> set calls \<longrightarrow>
        g = log_group_name cl \<and> s = log_stream_name cl \<and> request_ok evs)"

lemma puts_ok_append: "puts_ok cl (xs @ ys) \<longleftrightarrow> puts_ok cl xs \<and> puts_ok cl ys"
  unfolding puts_ok_def set_append by blast

lemma puts_ok_Nil: "puts_ok cl []"
  by (simp add: puts_ok_def)

lemma send_log_batch_ok:
  assumes "batch_ok b" "send_log_batch aws cl b = (error, b', calls)"
  shows "batch_ok b'" and "puts_ok cl calls"
proof -
  obtain s where s: "sort_log_events b = Inr s" "batch_ok s" "log_events b \<noteq> [] \<Longrightarrow> request_ok (log_events s)"
    using sorted_batch [OF assms(1)] by metis
  have "batch_ok b' \<and> puts_ok cl calls"
  proof (cases "is_empty b")
    case True
    with assms show ?thesis by (auto simp: send_log_batch_def puts_ok_def)
  next
    case False
    with s assms(2) show ?thesis
      by (auto simp: send_batch_defs is_empty_def puts_ok_def Let_def split: if_splits)
  qed
  then show "batch_ok b'" and "puts_ok cl calls" by simp_all
qed

definition client_ok :: "client \<Rightarrow> bool" where
  "client_ok cl \<longleftrightarrow> (case pending cl of None \<Rightarrow> True | Some b \<Rightarrow> batch_ok b)"

fun clock_plausible :: "operation \<Rightarrow> bool" where
  "clock_plausible (Send t aws ev) = (cw_event_timestamp_limit_past < at_validate t)"
| "clock_plausible (Flush t aws) = True"

lemma perform_ok:
  assumes "client_ok cl" "clock_plausible op" "perform op cl = (error, cl', calls)"
  shows "client_ok cl' \<and> puts_ok cl calls
    \<and> log_group_name cl' = log_group_name cl \<and> log_stream_name cl' = log_stream_name cl"
proof (cases op)
  case (Send t aws ev)
  obtain valid ev' where v: "validate_log_event (at_validate t) ev = (valid, ev')" by fastforce
  define b where "b = (case pending cl of None \<Rightarrow> new_batch (at_create t) | Some b \<Rightarrow> b)"
  have b: "batch_ok b"
    using assms(1) by (auto simp: client_ok_def b_def batch_ok_new split: option.splits)
  obtain r1 b1 c1 where s: "send_log_batch aws cl b = (r1, b1, c1)"
    by (cases "send_log_batch aws cl b") auto
  note sent = send_log_batch_ok [OF b s]
  show ?thesis
  proof (cases valid)
    case False
    with assms show ?thesis by (auto simp: Send send_log_event_def v puts_ok_Nil)
  next
    case True
    have ev': "event_ok ev'"
      using validated_event_ok [of "at_validate t" ev ev'] assms(2) v True by (simp add: Send)
    obtain m where m: "must_send (at_check t) b ev' = Inr m"
      using event_ok_decides [OF ev'] by (cases "must_send (at_check t) b ev'") auto
    show ?thesis
    proof (cases m)
      case True
      with assms(3) m \<open>valid\<close> v s sent cw.first_good [OF ev', of t] show ?thesis
        by (cases r1) (auto simp: Send send_log_event_def b_def [symmetric] client_ok_def)
    next
      case False
      with m have "fits_batch t b ev'" by (simp add: fits_batch_def)
      with assms(3) m False \<open>valid\<close> v cw.add_good [OF ev' b, of t] show ?thesis
        by (auto simp: Send send_log_event_def b_def [symmetric] client_ok_def puts_ok_Nil)
    qed
  qed
next
  case (Flush t aws)
  show ?thesis
  proof (cases "pending cl")
    case None
    with assms show ?thesis by (auto simp: Flush flush_pending_events_def puts_ok_Nil)
  next
    case (Some b)
    with assms(1) have b: "batch_ok b" by (simp add: client_ok_def)
    obtain r1 b1 c1 where s: "send_log_batch aws cl b = (r1, b1, c1)"
      by (cases "send_log_batch aws cl b") auto
    with assms Some send_log_batch_ok [OF b s] show ?thesis
      by (cases r1)
         (auto simp: Flush flush_pending_events_def client_ok_def puts_ok_Nil batch_ok_new split: if_splits)
  qed
qed

lemma history_ok:
  "client_ok cl \<Longrightarrow> list_all clock_plausible ops \<Longrightarrow> history ops cl = (cl', calls, accepted) \<Longrightarrow>
   client_ok cl' \<and> puts_ok cl calls"
proof (induction ops arbitrary: cl calls accepted)
  case Nil
  then show ?case by (auto simp: puts_ok_Nil)
next
  case (Cons op ops)
  obtain error cl1 c1 where p: "perform op cl = (error, cl1, c1)" by (cases "perform op cl") auto
  obtain cl2 c2 a2 where h: "history ops cl1 = (cl2, c2, a2)" by (cases "history ops cl1") auto
  from Cons.prems p h have e: "cl2 = cl'" "calls = c1 @ c2" by auto
  have step: "client_ok cl1" "puts_ok cl c1"
      "log_group_name cl1 = log_group_name cl" "log_stream_name cl1 = log_stream_name cl"
    using perform_ok [OF Cons.prems(1) _ p] Cons.prems(2) by auto
  moreover have "client_ok cl' \<and> puts_ok cl1 c2"
    using Cons.IH [of cl1 c2 a2] step Cons.prems h e by simp
  ultimately show ?case by (simp add: e puts_ok_append) (simp add: puts_ok_def)
qed

text \<open>C11: Every \<open>PutLogEvents\<close> request of a client, the retried and the failing ones included, goes to
  its own group and stream, holds between 1 and 10000 non-empty events with positive times, none
  above 262144, at most 1048576 in total (a character counts as one byte, 26 for the header), sorted
  by time and spanning at most 24 hours, provided the clock shows more than 14 days after the epoch,
  over every sequence of calls and every answer of the service.\<close>

theorem requests_within_limits:
  assumes "list_all clock_plausible ops"
    and "history ops (new_client uuid4 log_group log_stream) = (cl, calls, accepted)"
    and "(PutLogEvents g s evs, answer) \<in> set calls"
  shows "g = log_group \<and> s = log_stream_name (new_client uuid4 log_group log_stream) \<and> request_ok evs"
proof -
  let ?cl = "new_client uuid4 log_group log_stream"
  have "client_ok ?cl" by (simp add: client_ok_def new_client_def)
  from history_ok [OF this assms(1,2)] have "puts_ok ?cl calls" by simp
  with assms(3) show ?thesis by (auto simp: puts_ok_def new_client_def)
qed

definition demo_readings :: readings where
  "demo_readings = \<lparr>at_validate = 2000000000, at_create = 2000000000, at_check = 2000000001,
     at_replace = 2000000002\<rparr>"

definition all_fine :: aws_answers where
  "all_fine = \<lparr>first_put = None, create_group = None, create_stream = None, second_put = None\<rparr>"

definition demo_operations :: "operation list" where
  "demo_operations =
     [Send demo_readings all_fine \<lparr>message = Some ''b'', timestamp = Some 1999999999\<rparr>,
      Send demo_readings all_fine \<lparr>message = Some ''a'', timestamp = Some 1999999998\<rparr>,
      Flush demo_readings (all_fine\<lparr>first_put := Some (ClientError ''ResourceNotFoundException'')\<rparr>)]"

theorem requests_within_limits_witness:
  "request_ok [\<lparr>message = Some ''a'', timestamp = Some 1999999998\<rparr>,
     \<lparr>message = Some ''b'', timestamp = Some 1999999999\<rparr>]"
proof -
  have "list_all clock_plausible demo_operations"
    by (simp add: demo_operations_def demo_readings_def limit_defs)
  moreover have "history demo_operations (new_client ''0123456789'' ''g'' None)
      = (new_client ''0123456789'' ''g'' None\<lparr>pending := Some (new_batch 2000000002)\<rparr>,
         [(PutLogEvents ''g'' ''otel-python-01234567''
             [\<lparr>message = Some ''a'', timestamp = Some 1999999998\<rparr>,
              \<lparr>message = Some ''b'', timestamp = Some 1999999999\<rparr>],
           Some (ClientError ''ResourceNotFoundException'')),
          (CreateLogGroup ''g'', None), (CreateLogStream ''g'' ''otel-python-01234567'', None),
          (PutLogEvents ''g'' ''otel-python-01234567''
             [\<lparr>message = Some ''a'', timestamp = Some 1999999998\<rparr>,
              \<lparr>message = Some ''b'', timestamp = Some 1999999999\<rparr>], None)],
         [\<lparr>message = Some ''b'', timestamp = Some 1999999999\<rparr>,
          \<lparr>message = Some ''a'', timestamp = Some 1999999998\<rparr>])"
    by code_simp
  ultimately show ?thesis
    using requests_within_limits [of demo_operations "''0123456789''" "''g''" None _ _ _ "''g''"
        "''otel-python-01234567''" _ None] by simp
qed

end
