(* ===== verification/EmfExporter.thy ===== *)
theory EmfExporter
  imports Json LogClient
begin

text \<open>
  The CloudWatch embedded metric format exporters: \<open>exporter/aws/metrics/base_emf_exporter.py\<close>,
  \<open>aws_cloudwatch_emf_exporter.py\<close> and \<open>console_emf_exporter.py\<close>.

  A number of a data point is an integer or a float (its rational). \<open>time.time()\<close> is a field of the
  data point (what the clock shows when the point is converted) and an argument of
  \<open>create_emf_log\<close>. \<open>math.pow\<close> is a parameter that returns a float or raises, so the
  statements hold for its rounding; the midpoint of a bucket is taken exactly. \<open>repr\<close> of the sorted
  attribute items, the grouping key, is a parameter.
\<close>

section \<open>Metrics\<close>

datatype num = NInt int | NFloat rat

definition num_json :: "num \<Rightarrow> json" where
  "num_json v = (case v of NInt i \<Rightarrow> JInt i | NFloat q \<Rightarrow> JFloat q)"

record data_point =
  dp_attributes :: attrs
  time_unix_nano :: "int option"
  read_at :: int

record number_point = data_point +
  dp_value :: num

record histogram_point = data_point +
  dp_count :: num
  dp_sum :: num
  dp_min :: num
  dp_max :: num

record exp_histogram_point = histogram_point +
  exp_scale :: int
  zero_count :: int
  positive :: "(int \<times> int list) option"
  negative :: "(int \<times> int list) option"

datatype metric_data = NumberData "number_point list" | HistogramData "histogram_point list"
  | ExpHistogramData "exp_histogram_point list" | OtherData | NoData

record metric =
  metric_name :: string
  metric_unit :: "string option"
  metric_description :: string
  metric_points :: metric_data

record metric_record =
  rec_name :: string
  rec_unit :: "string option"
  rec_description :: string
  rec_timestamp :: int
  rec_attributes :: attrs
  rec_value :: "num option"
  histogram_data :: "json option"
  exp_histogram_data :: "json option"

section \<open>Names, units and dimensions\<close>

definition emf_supported_units :: "string list" where
  "emf_supported_units =
     [''Seconds'', ''Microseconds'', ''Milliseconds'', ''Bytes'', ''Kilobytes'', ''Megabytes'',
      ''Gigabytes'', ''Terabytes'', ''Bits'', ''Kilobits'', ''Megabits'', ''Gigabits'', ''Terabits'',
      ''Percent'', ''Count'', ''Bytes/Second'', ''Kilobytes/Second'', ''Megabytes/Second'',
      ''Gigabytes/Second'', ''Terabytes/Second'', ''Bits/Second'', ''Kilobits/Second'',
      ''Megabits/Second'', ''Gigabits/Second'', ''Terabits/Second'', ''Count/Second'', ''None'']"

definition unit_mapping :: "(string \<times> string) list" where
  "unit_mapping = [(''1'', ''''), (''ns'', ''''), (''ms'', ''Milliseconds''), (''s'', ''Seconds''),
     (''us'', ''Microseconds''), (''By'', ''Bytes''), (''bit'', ''Bits'')]"

definition get_metric_name :: "metric_record \<Rightarrow> string option" where
  "get_metric_name r = (if rec_name r \<noteq> [] then Some (rec_name r) else None)"

definition get_unit :: "metric_record \<Rightarrow> string option" where
  "get_unit r =
     (case rec_unit r of
        None \<Rightarrow> None
      | Some u \<Rightarrow>
          if u = [] then None
          else if u \<in> set emf_supported_units then Some u
          else map_of unit_mapping u)"

definition get_dimension_names :: "attrs \<Rightarrow> string list" where
  "get_dimension_names ats = map fst ats"

definition has_dimension_case_insensitive :: "string list \<Rightarrow> string \<Rightarrow> bool" where
  "has_dimension_case_insensitive names name \<longleftrightarrow> (\<exists>d \<in> set names. py_lower d = py_lower name)"

text \<open>A value looked up in the resource that Python treats as true.\<close>

definition non_empty :: "attrs \<Rightarrow> string \<Rightarrow> aval option" where
  "non_empty d key = (case map_of d key of Some v \<Rightarrow> if truthy v then Some v else None | None \<Rightarrow> None)"

definition get_deployment_environment :: "runtime \<Rightarrow> attrs \<Rightarrow> string" where
  "get_deployment_environment rt res =
     (case non_empty res ''deployment.environment.name'' of
        Some v \<Rightarrow> py_str rt v
      | None \<Rightarrow>
          (case non_empty res ''deployment.environment'' of
             Some v \<Rightarrow> py_str rt v
           | None \<Rightarrow>
               (case non_empty res ''cloud.platform'' of
                  None \<Rightarrow> ''generic:default''
                | Some platform \<Rightarrow>
                    (case map_of [(''aws_ec2'', ''ec2:default''), (''aws_ecs'', ''ecs:default''),
                              (''aws_eks'', ''eks:default''), (''aws_lambda'', ''lambda:default'')]
                            (py_str rt platform) of
                       Some d \<Rightarrow> d
                     | None \<Rightarrow> ''generic:default''))))"

definition service_dimension :: "runtime \<Rightarrow> attrs \<Rightarrow> json" where
  "service_dimension rt res =
     (case non_empty res ''service.name'' of
        None \<Rightarrow> JStr ''UnknownService''
      | Some v \<Rightarrow>
          if py_str rt v = ''unknown_service'' \<or> py_startswith ''unknown_service:'' (py_str rt v)
          then JStr ''UnknownService'' else json_of v)"

type_synonym fields = "(string \<times> json) list"

definition add_application_signals_dimensions ::
    "runtime \<Rightarrow> attrs \<Rightarrow> string list \<times> fields \<Rightarrow> string list \<times> fields" where
  "add_application_signals_dimensions rt res = (\<lambda>(names, emf).
     if \<not> should_add_application_signals_dimensions rt then (names, emf)
     else
       let (names1, emf1) =
             (if has_dimension_case_insensitive names ''Service'' then (names, emf)
              else (names @ [''Service''], AList.update ''Service'' (service_dimension rt res) emf))
       in if has_dimension_case_insensitive names1 ''Environment'' then (names1, emf1)
          else (names1 @ [''Environment''],
                AList.update ''Environment'' (JStr (get_deployment_environment rt res)) emf1))"

section \<open>Conversion of data points\<close>

definition normalize_timestamp :: "int \<Rightarrow> int" where
  "normalize_timestamp ns = ns div 1000000"

definition create_metric_record :: "metric \<Rightarrow> metric_record" where
  "create_metric_record m =
     \<lparr>rec_name = metric_name m, rec_unit = metric_unit m, rec_description = metric_description m,
      rec_timestamp = 0, rec_attributes = [], rec_value = None, histogram_data = None,
      exp_histogram_data = None\<rparr>"

definition base_record :: "metric \<Rightarrow> 'a data_point_scheme \<Rightarrow> metric_record" where
  "base_record m dp =
     (create_metric_record m)
       \<lparr>rec_timestamp := (case time_unix_nano dp of
                            Some ns \<Rightarrow> normalize_timestamp ns | None \<Rightarrow> read_at dp),
        rec_attributes := dp_attributes dp\<rparr>"

definition convert_gauge_and_sum :: "metric \<Rightarrow> number_point \<Rightarrow> metric_record" where
  "convert_gauge_and_sum m dp = (base_record m dp)\<lparr>rec_value := Some (dp_value dp)\<rparr>"

definition convert_histogram :: "metric \<Rightarrow> histogram_point \<Rightarrow> metric_record" where
  "convert_histogram m dp =
     (base_record m dp)\<lparr>histogram_data := Some (JObj
        [(''Count'', num_json (dp_count dp)), (''Sum'', num_json (dp_sum dp)),
         (''Min'', num_json (dp_min dp)), (''Max'', num_json (dp_max dp))])\<rparr>"

text \<open>
  The loop over the positive buckets: \<open>bucket_begin\<close> and \<open>bucket_end\<close> are carried from one bucket to
  the next, zero meaning "not set yet". It appends to the arrays of values and counts.
\<close>

fun positive_buckets ::
    "(rat \<Rightarrow> rat \<Rightarrow> rat res) \<Rightarrow> rat \<Rightarrow> int \<Rightarrow> int list \<Rightarrow> rat \<Rightarrow> rat \<Rightarrow> rat list \<times> rat list
      \<Rightarrow> (rat list \<times> rat list) res" where
  "positive_buckets pow base index [] bucket_begin bucket_end acc = Inr acc"
| "positive_buckets pow base index (n # counts) bucket_begin bucket_end acc =
     bindr (if bucket_begin = 0 then pow base (of_int index) else Inr bucket_end) (\<lambda>bucket_begin'.
     bindr (pow base (of_int (index + 1))) (\<lambda>bucket_end'.
       positive_buckets pow base (index + 1) counts bucket_begin' bucket_end'
         (if n > 0 then (fst acc @ [(bucket_begin' + bucket_end') / 2], snd acc @ [of_int n]) else acc)))"

fun negative_buckets ::
    "(rat \<Rightarrow> rat \<Rightarrow> rat res) \<Rightarrow> rat \<Rightarrow> int \<Rightarrow> int list \<Rightarrow> rat \<Rightarrow> rat \<Rightarrow> rat list \<times> rat list
      \<Rightarrow> (rat list \<times> rat list) res" where
  "negative_buckets pow base index [] bucket_begin bucket_end acc = Inr acc"
| "negative_buckets pow base index (n # counts) bucket_begin bucket_end acc =
     bindr (if bucket_end = 0 then bindr (pow base (of_int index)) (\<lambda>x. Inr (- x))
            else Inr bucket_begin) (\<lambda>bucket_end'.
     bindr (pow base (of_int (index + 1))) (\<lambda>x.
       negative_buckets pow base (index + 1) counts (- x) bucket_end'
         (if n > 0 then (fst acc @ [(- x + bucket_end') / 2], snd acc @ [of_int n]) else acc)))"

definition exp_base :: "(rat \<Rightarrow> rat \<Rightarrow> rat res) \<Rightarrow> int \<Rightarrow> rat res" where
  "exp_base pow scale = bindr (pow 2 (- of_int scale)) (\<lambda>e. pow 2 e)"

definition exp_arrays ::
    "(rat \<Rightarrow> rat \<Rightarrow> rat res) \<Rightarrow> exp_histogram_point \<Rightarrow> (rat list \<times> rat list) res" where
  "exp_arrays pow dp =
     bindr (exp_base pow (exp_scale dp)) (\<lambda>base.
     bindr (case positive dp of
              Some (offset, counts) \<Rightarrow> positive_buckets pow base offset counts 0 0 ([], [])
            | None \<Rightarrow> Inr ([], [])) (\<lambda>acc.
     let acc' = (if zero_count dp > 0
                 then (fst acc @ [0], snd acc @ [of_int (zero_count dp)]) else acc)
     in (case negative dp of
           Some (offset, counts) \<Rightarrow> negative_buckets pow base offset counts 0 0 acc'
         | None \<Rightarrow> Inr acc')))"

definition convert_exp_histogram ::
    "(rat \<Rightarrow> rat \<Rightarrow> rat res) \<Rightarrow> metric \<Rightarrow> exp_histogram_point \<Rightarrow> metric_record res" where
  "convert_exp_histogram pow m dp =
     bindr (exp_arrays pow dp) (\<lambda>(array_values, array_counts).
       Inr ((base_record m dp)\<lparr>exp_histogram_data := Some (JObj
         [(''Values'', JList (map JFloat array_values)), (''Counts'', JList (map JFloat array_counts)),
          (''Count'', num_json (dp_count dp)), (''Sum'', num_json (dp_sum dp)),
          (''Max'', num_json (dp_max dp)), (''Min'', num_json (dp_min dp))])\<rparr>))"

section \<open>Grouping\<close>

definition get_attributes_key :: "(attrs \<Rightarrow> string) \<Rightarrow> attrs \<Rightarrow> string" where
  "get_attributes_key repr_items ats = repr_items (sort_key fst ats)"

definition group_by_attributes_and_timestamp ::
    "(attrs \<Rightarrow> string) \<Rightarrow> metric_record \<Rightarrow> string \<times> int" where
  "group_by_attributes_and_timestamp repr_items r =
     (get_attributes_key repr_items (rec_attributes r), rec_timestamp r)"

text \<open>\<open>grouped[key].append(record)\<close> on a \<open>defaultdict(list)\<close>.\<close>

fun group_append :: "'k \<Rightarrow> 'r \<Rightarrow> ('k \<times> 'r list) list \<Rightarrow> ('k \<times> 'r list) list" where
  "group_append k r [] = [(k, [r])]"
| "group_append k r ((k', rs) # gs) =
     (if k = k' then (k', rs @ [r]) # gs else (k', rs) # group_append k r gs)"

definition records_of :: "(rat \<Rightarrow> rat \<Rightarrow> rat res) \<Rightarrow> metric \<Rightarrow> metric_record list res" where
  "records_of pow m =
     (case metric_points m of
        NumberData dps \<Rightarrow> Inr (map (convert_gauge_and_sum m) dps)
      | HistogramData dps \<Rightarrow> Inr (map (convert_histogram m) dps)
      | ExpHistogramData dps \<Rightarrow> map_res (convert_exp_histogram pow m) dps
      | OtherData \<Rightarrow> Inr []
      | NoData \<Rightarrow> Inr [])"

type_synonym groups = "((string \<times> int) \<times> metric_record list) list"

definition group_records :: "(attrs \<Rightarrow> string) \<Rightarrow> metric_record list \<Rightarrow> groups" where
  "group_records repr_items rs =
     foldl (\<lambda>gs r. group_append (group_by_attributes_and_timestamp repr_items r) r gs) [] rs"

definition scope_groups ::
    "(rat \<Rightarrow> rat \<Rightarrow> rat res) \<Rightarrow> (attrs \<Rightarrow> string) \<Rightarrow> metric list \<Rightarrow> groups res" where
  "scope_groups pow repr_items ms =
     bindr (map_res (records_of pow) ms) (\<lambda>rss. Inr (group_records repr_items (concat rss)))"

section \<open>The EMF document\<close>

definition metric_definition :: "metric_record \<Rightarrow> string \<Rightarrow> json" where
  "metric_definition r name =
     JObj ((''Name'', JStr name) # (case get_unit r of
        Some (c # cs) \<Rightarrow> [(''Unit'', JStr (c # cs))] | _ \<Rightarrow> []))"

definition record_value :: "metric_record \<Rightarrow> json option" where
  "record_value r =
     (case exp_histogram_data r of
        Some d \<Rightarrow> Some d
      | None \<Rightarrow>
          (case histogram_data r of
             Some d \<Rightarrow> Some d
           | None \<Rightarrow> map_option num_json (rec_value r)))"

definition add_record :: "fields \<times> json list \<Rightarrow> metric_record \<Rightarrow> fields \<times> json list" where
  "add_record = (\<lambda>(emf, definitions) r.
     case (get_metric_name r, record_value r) of
       (Some name, Some v) \<Rightarrow> (AList.update name v emf, definitions @ [metric_definition r name])
     | _ \<Rightarrow> (emf, definitions))"

text \<open>\<open>emf_log["_aws"]["CloudWatchMetrics"].append(m)\<close>.\<close>

definition append_metrics :: "json \<Rightarrow> fields \<Rightarrow> fields res" where
  "append_metrics m emf =
     (case map_of emf ''_aws'' of
        None \<Rightarrow> Inl KeyError
      | Some (JObj fs) \<Rightarrow>
          (case map_of fs ''CloudWatchMetrics'' of
             None \<Rightarrow> Inl KeyError
           | Some (JList ms) \<Rightarrow>
               Inr (AList.update ''_aws'' (JObj (AList.update ''CloudWatchMetrics'' (JList (ms @ [m])) fs)) emf)
           | Some _ \<Rightarrow> Inl AttributeError)
      | Some _ \<Rightarrow> Inl TypeError)"

definition emf_skeleton :: "runtime \<Rightarrow> attrs option \<Rightarrow> int \<Rightarrow> int \<Rightarrow> fields" where
  "emf_skeleton rt res timestamp_ms now =
     foldl (\<lambda>d (k, v). AList.update (''otel.resource.'' @ k) (JStr (py_str rt v)) d)
       [(''_aws'', JObj [(''Timestamp'', JInt (if timestamp_ms \<noteq> 0 then timestamp_ms else now)),
                        (''CloudWatchMetrics'', JList [])]),
        (''Version'', JStr ''1'')]
       (case res of Some ats \<Rightarrow> ats | None \<Rightarrow> [])"

definition create_emf_log ::
    "runtime \<Rightarrow> string \<Rightarrow> metric_record list \<Rightarrow> attrs option \<Rightarrow> int \<Rightarrow> int \<Rightarrow> fields res" where
  "create_emf_log rt namespace records res timestamp_ms now =
     (let (emf1, definitions) = foldl add_record (emf_skeleton rt res timestamp_ms now, []) records;
          all_attributes = (case records of [] \<Rightarrow> [] | r # _ \<Rightarrow> rec_attributes r);
          emf2 = foldl (\<lambda>d (k, v). AList.update k (JStr (py_str rt v)) d) emf1 all_attributes;
          (dimension_names, emf3) =
            add_application_signals_dimensions rt (case res of Some ats \<Rightarrow> ats | None \<Rightarrow> [])
              (get_dimension_names all_attributes, emf2)
      in if definitions = [] then Inr emf3
         else append_metrics
                (JObj ([(''Namespace'', JStr namespace), (''Metrics'', JList definitions)]
                   @ (if dimension_names \<noteq> []
                      then [(''Dimensions'', JList [JList (map JStr dimension_names)])] else [])))
                emf3)"

section \<open>Export\<close>

text \<open>
  \<open>export\<close> is generic in the destination, as \<open>BaseEmfExporter\<close> is in its abstract \<open>_export\<close>:
  \<open>deliver\<close> takes one log event and the state of the destination and may raise. An exception, of a
  conversion, of the encoder or of the destination, ends the export with \<open>FAILURE\<close>; what was
  delivered before stays delivered.
\<close>

type_synonym 's destination = "log_event \<Rightarrow> 's \<Rightarrow> exn option \<times> 's"

record emf_exporter =
  run :: runtime
  emf_namespace :: string
  math_pow :: "rat \<Rightarrow> rat \<Rightarrow> rat res"
  repr_items :: "attrs \<Rightarrow> string"
  now_ms :: int

datatype metric_export_result = ExportSuccess | ExportFailure

definition group_event ::
    "emf_exporter \<Rightarrow> attrs option \<Rightarrow> (string \<times> int) \<times> metric_record list \<Rightarrow> log_event res" where
  "group_event x res = (\<lambda>((attrs_key, timestamp_ms), records).
     bindr (create_emf_log (run x) (emf_namespace x) records res timestamp_ms (now_ms x)) (\<lambda>emf.
     bindr (dumps (run x) (JObj emf)) (\<lambda>text.
       Inr \<lparr>message = Some text, timestamp = Some timestamp_ms\<rparr>)))"

fun deliver_groups ::
    "emf_exporter \<Rightarrow> 's destination \<Rightarrow> attrs option \<Rightarrow> groups \<Rightarrow> 's \<Rightarrow> exn option \<times> 's" where
  "deliver_groups x deliver res [] s = (None, s)"
| "deliver_groups x deliver res (g # gs) s =
     (case group_event x res g of
        Inl e \<Rightarrow> (Some e, s)
      | Inr event \<Rightarrow>
          (case deliver event s of
             (Some e, s') \<Rightarrow> (Some e, s')
           | (None, s') \<Rightarrow> deliver_groups x deliver res gs s'))"

fun deliver_scopes ::
    "emf_exporter \<Rightarrow> 's destination \<Rightarrow> (attrs option \<times> metric list) list \<Rightarrow> 's \<Rightarrow> exn option \<times> 's" where
  "deliver_scopes x deliver [] s = (None, s)"
| "deliver_scopes x deliver ((res, ms) # scopes) s =
     (case scope_groups (math_pow x) (repr_items x) ms of
        Inl e \<Rightarrow> (Some e, s)
      | Inr gs \<Rightarrow>
          (case deliver_groups x deliver res gs s of
             (Some e, s') \<Rightarrow> (Some e, s')
           | (None, s') \<Rightarrow> deliver_scopes x deliver scopes s'))"

text \<open>The resource metrics: a resource and the metrics of each of its scopes.\<close>

type_synonym resource_metrics = "attrs option \<times> metric list list"

definition export_metrics ::
    "emf_exporter \<Rightarrow> 's destination \<Rightarrow> resource_metrics list \<Rightarrow> 's \<Rightarrow> metric_export_result \<times> 's" where
  "export_metrics x deliver data s =
     (case deliver_scopes x deliver (concat (map (\<lambda>(res, scopes). map (Pair res) scopes) data)) s of
        (None, s') \<Rightarrow> (ExportSuccess, s')
      | (Some e, s') \<Rightarrow> (ExportFailure, s'))"

subsection \<open>Destinations\<close>

text \<open>CloudWatch: the log client, with the clock and the service's answers of each of its calls.\<close>

record cloudwatch =
  cw_client :: client
  cw_trace :: trace
  cw_calls :: nat

definition cloudwatch_export :: "(nat \<Rightarrow> readings \<times> aws_answers) \<Rightarrow> cloudwatch destination" where
  "cloudwatch_export env ev s =
     (let (t, aws) = env (cw_calls s);
          (error, cl, calls) = send_log_event t aws ev (cw_client s)
      in (error, \<lparr>cw_client = cl, cw_trace = cw_trace s @ calls, cw_calls = Suc (cw_calls s)\<rparr>))"

definition cloudwatch_force_flush ::
    "(nat \<Rightarrow> readings \<times> aws_answers) \<Rightarrow> cloudwatch \<Rightarrow> bool res \<times> cloudwatch" where
  "cloudwatch_force_flush env s =
     (let (t, aws) = env (cw_calls s);
          (error, cl, calls) = flush_pending_events t aws (cw_client s)
      in (case error of None \<Rightarrow> Inr True | Some e \<Rightarrow> Inl e,
          \<lparr>cw_client = cl, cw_trace = cw_trace s @ calls, cw_calls = Suc (cw_calls s)\<rparr>))"

definition cloudwatch_shutdown ::
    "(nat \<Rightarrow> readings \<times> aws_answers) \<Rightarrow> cloudwatch \<Rightarrow> bool res \<times> cloudwatch" where
  "cloudwatch_shutdown env s = cloudwatch_force_flush env s"

text \<open>
  The console: the lines printed. \<open>print\<close> may raise (a closed pipe, \<open>broken\<close>), which is caught.
\<close>

definition console_export :: "(string \<Rightarrow> bool) \<Rightarrow> string list destination" where
  "console_export broken ev lines =
     (case message ev of
        Some m \<Rightarrow> (None, if m \<noteq> [] \<and> \<not> broken m then lines @ [m] else lines)
      | None \<Rightarrow> (None, lines))"

text \<open>
  What the destination is offered: the events of the groups in order, until the first that cannot be
  encoded.
\<close>

definition events_of :: "emf_exporter \<Rightarrow> attrs option \<times> metric list \<Rightarrow> log_event list res" where
  "events_of x = (\<lambda>(res, ms).
     bindr (scope_groups (math_pow x) (repr_items x) ms) (\<lambda>gs. map_res (group_event x res) gs))"

section \<open>Grouping is a partition\<close>

lemma group_append_mset:
  "mset (concat (map snd (group_append k r gs))) = mset (concat (map snd gs)) + {#r#}"
  by (induction gs) (auto simp: ac_simps)

lemma group_append_keys:
  "fst ` set (group_append k r gs) = insert k (fst ` set gs)"
  by (induction k r gs rule: group_append.induct) (simp_all add: insert_commute)

lemma group_append_distinct:
  "distinct (map fst gs) \<Longrightarrow> distinct (map fst (group_append k r gs))"
  by (induction k r gs rule: group_append.induct) (simp_all add: group_append_keys)

lemma group_append_member:
  "(k', rs) \<in> set (group_append k r gs) \<Longrightarrow>
   (k', rs) \<in> set gs \<or> k' = k \<and> (rs = [r] \<or> (\<exists>rs'. (k, rs') \<in> set gs \<and> rs = rs' @ [r]))"
  by (induction gs) (auto split: if_splits)

definition grouped_by :: "('r \<Rightarrow> 'k) \<Rightarrow> ('k \<times> 'r list) list \<Rightarrow> bool" where
  "grouped_by key gs \<longleftrightarrow>
     distinct (map fst gs) \<and> (\<forall>k rs. (k, rs) \<in> set gs \<longrightarrow> rs \<noteq> [] \<and> (\<forall>r \<in> set rs. key r = k))"

lemma grouped_append:
  assumes "grouped_by key gs"
  shows "grouped_by key (group_append (key r) r gs)"
  unfolding grouped_by_def
proof (intro conjI allI impI)
  show "distinct (map fst (group_append (key r) r gs))"
    using assms by (simp only: grouped_by_def group_append_distinct)
next
  fix k rs assume "(k, rs) \<in> set (group_append (key r) r gs)"
  from group_append_member [OF this] assms have "rs \<noteq> [] \<and> (\<forall>r \<in> set rs. key r = k)"
    by (auto simp: grouped_by_def)
  then show "rs \<noteq> []" "\<forall>r \<in> set rs. key r = k" by simp_all
qed

lemma grouped_fold:
  "grouped_by key gs \<Longrightarrow>
   grouped_by key (foldl (\<lambda>gs r. group_append (key r) r gs) gs rs)
   \<and> mset (concat (map snd (foldl (\<lambda>gs r. group_append (key r) r gs) gs rs)))
       = mset (concat (map snd gs)) + mset rs"
proof (induction rs arbitrary: gs)
  case Nil
  then show ?case by simp
next
  case (Cons r rs)
  from Cons.IH [OF grouped_append [OF Cons.prems]] show ?case
    by (simp only: foldl_Cons group_append_mset mset.simps ac_simps) simp
qed

text \<open>Two dictionaries have the same items in some order when their sorted items agree.\<close>

lemma sorted_items_inject:
  assumes "distinct (map fst d)" "distinct (map fst e)"
  shows "sort_key fst d = sort_key fst e \<longleftrightarrow> set d = set e"
proof
  assume "set d = set e"
  moreover have "distinct (map fst (sort_key fst c))" if "distinct (map fst c)" for c :: attrs
    using that by (metis distinct_map distinct_sort set_sort)
  ultimately show "sort_key fst d = sort_key fst e"
    using assms by (intro map_sorted_distinct_set_unique [of fst]) (auto simp: distinct_map)
qed (metis set_sort)

text \<open>C15: The exporter's grouping is a partition by attributes and time. If \<open>repr\<close> separates the
  attribute sets that occur, then the groups of a list of records hold every record exactly once, no
  group is empty, two records share a group exactly when they have the same attributes (whatever the
  order of the keys) and the same millisecond, and no two groups have the same key.\<close>

theorem emf_grouping:
  assumes "inj_on rp (sort_key fst ` rec_attributes ` set rs)"
    and "\<forall>r \<in> set rs. distinct (map fst (rec_attributes r))"
  shows "let gs = group_records rp rs in
    mset (concat (map snd gs)) = mset rs \<and> distinct (map fst gs) \<and> (\<forall>g \<in> set gs. snd g \<noteq> [])
    \<and> (\<forall>g \<in> set gs. \<forall>h \<in> set gs. \<forall>r \<in> set (snd g). \<forall>r' \<in> set (snd h).
         g = h \<longleftrightarrow> set (rec_attributes r) = set (rec_attributes r') \<and> rec_timestamp r = rec_timestamp r')"
proof -
  let ?key = "group_by_attributes_and_timestamp rp"
  define gs where "gs = group_records rp rs"
  have "grouped_by ?key []" by (simp add: grouped_by_def)
  from grouped_fold [OF this, of rs] have g: "grouped_by ?key gs" "mset (concat (map snd gs)) = mset rs"
    by (simp_all add: gs_def group_records_def)
  have "g = h \<longleftrightarrow> set (rec_attributes r) = set (rec_attributes r') \<and> rec_timestamp r = rec_timestamp r'"
    if gh: "g \<in> set gs" "h \<in> set gs" and r: "r \<in> set (snd g)" "r' \<in> set (snd h)" for g h r r'
  proof -
    have in_rs: "r \<in> set rs" "r' \<in> set rs"
      using gh r mset_eq_setD [OF g(2)] by auto
    have "?key r = fst g" "?key r' = fst h"
      using g(1) gh r unfolding grouped_by_def by (metis prod.collapse)+
    moreover have "g = h \<longleftrightarrow> fst g = fst h"
      using g(1) gh by (auto simp: grouped_by_def distinct_map inj_on_def)
    ultimately have "g = h \<longleftrightarrow> ?key r = ?key r'" by simp
    also have "\<dots> \<longleftrightarrow> sort_key fst (rec_attributes r) = sort_key fst (rec_attributes r')
        \<and> rec_timestamp r = rec_timestamp r'"
      using inj_onD [OF assms(1)] in_rs
      by (auto simp: group_by_attributes_and_timestamp_def get_attributes_key_def)
    finally show ?thesis using assms(2) in_rs by (simp add: sorted_items_inject)
  qed
  with g show ?thesis unfolding Let_def gs_def [symmetric]
    by (auto simp: grouped_by_def)
qed

definition demo_metric :: metric where
  "demo_metric = \<lparr>metric_name = ''m'', metric_unit = Some ''ms'', metric_description = [],
     metric_points = NoData\<rparr>"

definition demo_records :: "metric_record list" where
  "demo_records = map (\<lambda>dp. (base_record demo_metric dp)\<lparr>rec_value := Some (NInt 7)\<rparr>)
     [\<lparr>dp_attributes = [(''a'', AInt 1), (''b'', AInt 2)], time_unix_nano = Some 1000000, read_at = 0\<rparr>,
      \<lparr>dp_attributes = [(''a'', AInt 1)], time_unix_nano = Some 1000000, read_at = 0\<rparr>,
      \<lparr>dp_attributes = [(''b'', AInt 2), (''a'', AInt 1)], time_unix_nano = Some 1999999, read_at = 0\<rparr>]"

theorem emf_grouping_witness:
  "mset (concat (map snd (group_records (\<lambda>d. concat (map fst d)) demo_records))) = mset demo_records
   \<and> map (\<lambda>g. length (snd g)) (group_records (\<lambda>d. concat (map fst d)) demo_records) = [2, 1]"
proof
  have items: "sort_key fst ` rec_attributes ` set demo_records
      = {[(''a'', AInt 1), (''b'', AInt 2)], [(''a'', AInt 1)]}"
    by code_simp
  have "inj_on (\<lambda>d. concat (map fst d)) (sort_key fst ` rec_attributes ` set demo_records)"
    unfolding items by (simp add: inj_on_def)
  moreover have "\<forall>r \<in> set demo_records. distinct (map fst (rec_attributes r))"
    by (simp add: demo_records_def base_record_def)
  ultimately show "mset (concat (map snd (group_records (\<lambda>d. concat (map fst d)) demo_records))) = mset demo_records"
    using emf_grouping [of "\<lambda>d. concat (map fst d)" demo_records] by (simp add: Let_def)
  show "map (\<lambda>g. length (snd g)) (group_records (\<lambda>d. concat (map fst d)) demo_records) = [2, 1]"
    by code_simp
qed

section \<open>Exponential histograms\<close>

text \<open>The buckets with a positive count, with their indices, and the bounds \<open>p i\<close> of bucket \<open>i\<close>.\<close>

fun kept :: "int \<Rightarrow> int list \<Rightarrow> (int \<times> int) list" where
  "kept i [] = []"
| "kept i (n # ns) = (if n > 0 then [(i, n)] else []) @ kept (i + 1) ns"

definition midpoint :: "(int \<Rightarrow> rat) \<Rightarrow> int \<Rightarrow> rat" where
  "midpoint p i = (p i + p (i + 1)) / 2"

lemma kept_total: "\<forall>n \<in> set counts. 0 \<le> n \<Longrightarrow> sum_list (map snd (kept i counts)) = sum_list counts"
  by (induction i counts rule: kept.induct) auto

lemma positive_buckets_spec:
  "bucket_begin = 0 \<or> bucket_end = p index \<Longrightarrow>
   \<forall>i. index \<le> i \<and> i \<le> index + int (length counts) \<longrightarrow> pow base (of_int i) = Inr (p i) \<Longrightarrow>
   positive_buckets pow base index counts bucket_begin bucket_end acc
     = Inr (fst acc @ map (\<lambda>(i, n). midpoint p i) (kept index counts),
            snd acc @ map (\<lambda>(i, n). of_int n) (kept index counts))"
proof (induction counts arbitrary: index bucket_begin bucket_end acc)
  case Nil
  then show ?case by simp
next
  case (Cons n counts)
  have p: "pow base (of_int index) = Inr (p index)" "pow base (of_int index + 1) = Inr (p (index + 1))"
    using Cons.prems(2) [rule_format, of index] Cons.prems(2) [rule_format, of "index + 1"] by simp_all
  have "\<forall>i. index + 1 \<le> i \<and> i \<le> index + 1 + int (length counts) \<longrightarrow> pow base (of_int i) = Inr (p i)"
    using Cons.prems(2) by auto
  note IH = Cons.IH [OF _ this]
  show ?case using p Cons.prems(1) by (auto simp: IH midpoint_def)
qed

lemma negative_buckets_spec:
  "bucket_end = 0 \<or> bucket_begin = - p index \<Longrightarrow>
   \<forall>i. index \<le> i \<and> i \<le> index + int (length counts) \<longrightarrow> pow base (of_int i) = Inr (p i) \<Longrightarrow>
   negative_buckets pow base index counts bucket_begin bucket_end acc
     = Inr (fst acc @ map (\<lambda>(i, n). - midpoint p i) (kept index counts),
            snd acc @ map (\<lambda>(i, n). of_int n) (kept index counts))"
proof (induction counts arbitrary: index bucket_begin bucket_end acc)
  case Nil
  then show ?case by simp
next
  case (Cons n counts)
  have p: "pow base (of_int index) = Inr (p index)" "pow base (of_int index + 1) = Inr (p (index + 1))"
    using Cons.prems(2) [rule_format, of index] Cons.prems(2) [rule_format, of "index + 1"] by simp_all
  have "\<forall>i. index + 1 \<le> i \<and> i \<le> index + 1 + int (length counts) \<longrightarrow> pow base (of_int i) = Inr (p i)"
    using Cons.prems(2) by auto
  note IH = Cons.IH [OF _ this]
  have "(- p (index + 1) - p index) / 2 = - midpoint p index" by (simp add: midpoint_def field_simps)
  with p Cons.prems(1) show ?case by (auto simp: IH)
qed

text \<open>The bucket bounds the conversion asks for: those of the given buckets exist.\<close>

definition bounds_exist ::
    "(rat \<Rightarrow> rat \<Rightarrow> rat res) \<Rightarrow> rat \<Rightarrow> (int \<Rightarrow> rat) \<Rightarrow> (int \<times> int list) option \<Rightarrow> bool" where
  "bounds_exist pow base p buckets \<longleftrightarrow>
     (case buckets of
        None \<Rightarrow> True
      | Some (offset, counts) \<Rightarrow>
          \<forall>i. offset \<le> i \<and> i \<le> offset + int (length counts) \<longrightarrow> pow base (of_int i) = Inr (p i))"

definition kept_of :: "(int \<times> int list) option \<Rightarrow> (int \<times> int) list" where
  "kept_of buckets = (case buckets of None \<Rightarrow> [] | Some (offset, counts) \<Rightarrow> kept offset counts)"

definition total_count :: "(int \<times> int list) option \<Rightarrow> int" where
  "total_count buckets = (case buckets of None \<Rightarrow> 0 | Some (offset, counts) \<Rightarrow> sum_list counts)"

definition counts_non_negative :: "(int \<times> int list) option \<Rightarrow> bool" where
  "counts_non_negative buckets =
     (case buckets of None \<Rightarrow> True | Some (offset, counts) \<Rightarrow> list_all (\<lambda>n. 0 \<le> n) counts)"

lemma kept_of_total:
  "counts_non_negative b \<Longrightarrow> sum_list (map (\<lambda>(i, n). (of_int n :: rat)) (kept_of b)) = of_int (total_count b)"
proof -
  assume a: "counts_non_negative b"
  have "sum_list (map (\<lambda>(i, n). (of_int n :: rat)) ps) = of_int (sum_list (map snd ps))"
    for ps :: "(int \<times> int) list"
    by (induction ps) auto
  with a show ?thesis
    by (cases b) (auto simp: kept_of_def total_count_def counts_non_negative_def kept_total list_all_iff)
qed


text \<open>A power function that is exact on integer exponents of two, for a concrete run at scale 0.\<close>

definition demo_pow :: "rat \<Rightarrow> rat \<Rightarrow> rat res" where
  "demo_pow a b = Inr (if b = 0 then 1 else if b = 1 then a else if b = 2 then a * a else 0)"

definition demo_exp_point :: exp_histogram_point where
  "demo_exp_point =
     \<lparr>dp_attributes = [], time_unix_nano = Some 5000000, read_at = 0, dp_count = NInt 6, dp_sum = NInt 8,
      dp_min = NInt (-2), dp_max = NInt 4, exp_scale = 0, zero_count = 1,
      positive = Some (0, [2, 1]), negative = Some (0, [2])\<rparr>"


section \<open>The document of a group\<close>

lemma foldl_update_map:
  "foldl (\<lambda>d (k, v). AList.update (f k) (g v) d) d ps
     = foldl (\<lambda>d (k, v). AList.update k v d) d (map (\<lambda>(k, v). (f k, g v)) ps)"
  by (induction ps arbitrary: d) auto

lemma keys_foldl_put:
  "fst ` set (foldl (\<lambda>d (k, v). AList.update (f k) (g v) d) d ps) = fst ` set d \<union> f ` fst ` set ps"
  by (induction ps arbitrary: d) (simp_all add: case_prod_beta)

lemma foldl_put_other:
  "k \<notin> f ` fst ` set ps \<Longrightarrow>
   map_of (foldl (\<lambda>d (k, v). AList.update (f k) (g v) d) d ps) k = map_of d k"
  by (induction ps arbitrary: d) (auto simp: fun_upd_apply)

definition valid_record :: "metric_record \<Rightarrow> bool" where
  "valid_record r \<longleftrightarrow> rec_name r \<noteq> [] \<and> record_value r \<noteq> None"

lemma add_record_valid:
  "add_record (emf, defs) r =
     (if valid_record r
      then (AList.update (rec_name r) (the (record_value r)) emf, defs @ [metric_definition r (rec_name r)])
      else (emf, defs))"
  by (auto simp: add_record_def valid_record_def get_metric_name_def split: option.splits)

lemma add_records:
  "foldl add_record (emf, defs) rs = (emf', defs') \<Longrightarrow>
   defs' = defs @ map (\<lambda>r. metric_definition r (rec_name r)) (filter valid_record rs)
   \<and> fst ` set emf' = fst ` set emf \<union> rec_name ` set (filter valid_record rs)
   \<and> (\<forall>k. k \<notin> rec_name ` set rs \<longrightarrow> map_of emf' k = map_of emf k)"
proof (induction rs arbitrary: emf defs)
  case Nil
  then show ?case by simp
next
  case (Cons r rs)
  have step: "foldl add_record (add_record (emf, defs) r) rs = (emf', defs')" using Cons.prems by simp
  show ?case
  proof (cases "valid_record r")
    case True
    from step have "foldl add_record (AList.update (rec_name r) (the (record_value r)) emf,
        defs @ [metric_definition r (rec_name r)]) rs = (emf', defs')"
      by (simp add: add_record_valid True)
    from Cons.IH [OF this] True show ?thesis by (simp add: keys_update)
  next
    case False
    with step have "foldl add_record (emf, defs) rs = (emf', defs')" by (simp add: add_record_valid)
    from Cons.IH [OF this] False show ?thesis by simp
  qed
qed

lemma skeleton_aws:
  "map_of (emf_skeleton rt res ts now) ''_aws'' =
     Some (JObj [(''Timestamp'', JInt (if ts \<noteq> 0 then ts else now)), (''CloudWatchMetrics'', JList [])])"
  unfolding emf_skeleton_def by (subst foldl_put_other) auto

definition add_dimension :: "string \<Rightarrow> json \<Rightarrow> string list \<times> fields \<Rightarrow> string list \<times> fields" where
  "add_dimension name v = (\<lambda>(names, emf).
     if has_dimension_case_insensitive names name then (names, emf)
     else (names @ [name], AList.update name v emf))"

lemma add_dimension_facts:
  assumes "add_dimension name v (names, emf) = (names', emf')" "name \<noteq> ''_aws''"
  shows "set names \<subseteq> set names' \<and> fst ` set emf \<subseteq> fst ` set emf'
    \<and> (set names \<subseteq> fst ` set emf \<longrightarrow> set names' \<subseteq> fst ` set emf')
    \<and> map_of emf' ''_aws'' = map_of emf ''_aws''
    \<and> has_dimension_case_insensitive names' name
    \<and> (\<forall>n. has_dimension_case_insensitive names n \<longrightarrow> has_dimension_case_insensitive names' n)"
proof (cases "has_dimension_case_insensitive names name")
  case True
  with assms show ?thesis by (simp add: add_dimension_def)
next
  case False
  with assms have "names' = names @ [name]" "emf' = AList.update name v emf"
    by (simp_all add: add_dimension_def)
  moreover have "map_of emf' ''_aws'' = map_of emf ''_aws''"
    using assms(2) calculation(2) by simp
  moreover have "fst ` set emf' = insert name (fst ` set emf)"
    using calculation(2) by (simp only: keys_update)
  ultimately show ?thesis
    by (simp only:) (simp add: has_dimension_case_insensitive_def subset_insertI subset_insertI2)
qed

lemma signals_two_dimensions:
  "should_add_application_signals_dimensions rt \<Longrightarrow>
   add_application_signals_dimensions rt res p
     = add_dimension ''Environment'' (JStr (get_deployment_environment rt res))
         (add_dimension ''Service'' (service_dimension rt res) p)"
  by (cases p) (simp add: add_application_signals_dimensions_def add_dimension_def Let_def)

lemma signals_dimensions:
  assumes "add_application_signals_dimensions rt res (names, emf) = (names', emf')"
  shows "set names \<subseteq> set names' \<and> fst ` set emf \<subseteq> fst ` set emf'
    \<and> (set names \<subseteq> fst ` set emf \<longrightarrow> set names' \<subseteq> fst ` set emf')
    \<and> map_of emf' ''_aws'' = map_of emf ''_aws''
    \<and> (should_add_application_signals_dimensions rt \<longrightarrow>
         has_dimension_case_insensitive names' ''Service'' \<and> has_dimension_case_insensitive names' ''Environment'')"
proof (cases "should_add_application_signals_dimensions rt")
  case False
  with assms show ?thesis by (simp add: add_application_signals_dimensions_def)
next
  case True
  obtain n1 e1 where one: "add_dimension ''Service'' (service_dimension rt res) (names, emf) = (n1, e1)"
    by (cases "add_dimension ''Service'' (service_dimension rt res) (names, emf)") auto
  with assms True have two:
    "add_dimension ''Environment'' (JStr (get_deployment_environment rt res)) (n1, e1) = (names', emf')"
    by (simp add: signals_two_dimensions)
  have names: "''Service'' \<noteq> ''_aws''" "''Environment'' \<noteq> ''_aws''" by simp_all
  note f = add_dimension_facts [OF one names(1)] add_dimension_facts [OF two names(2)]
  show ?thesis
  proof (intro conjI impI)
    show "set names \<subseteq> set names'" using f by (meson order_trans)
    show "fst ` set emf \<subseteq> fst ` set emf'" using f by (meson order_trans)
    show "set names' \<subseteq> fst ` set emf'" if "set names \<subseteq> fst ` set emf" using f that by meson
    show "map_of emf' ''_aws'' = map_of emf ''_aws''" using f by (simp only:)
  qed (use f in meson)+
qed

lemma append_metrics_ok:
  "map_of emf ''_aws'' = Some (JObj [(''Timestamp'', t), (''CloudWatchMetrics'', JList ms)]) \<Longrightarrow>
   append_metrics m emf = Inr (AList.update ''_aws''
     (JObj [(''Timestamp'', t), (''CloudWatchMetrics'', JList (ms @ [m]))]) emf)"
  by (simp add: append_metrics_def)

lemma unit_supported: "get_unit r = Some u \<Longrightarrow> u \<noteq> [] \<Longrightarrow> u \<in> set emf_supported_units"
  by (auto simp: get_unit_def unit_mapping_def emf_supported_units_def split: option.splits if_splits)

lemma announced_unit:
  "metric_definition m (rec_name m) = JObj [(''Name'', JStr (rec_name m)), (''Unit'', JStr u)] \<Longrightarrow> u \<in> set emf_supported_units"
  using unit_supported by (auto simp: metric_definition_def split: option.splits list.splits)

text \<open>C24: The document of a group is a valid EMF document. Unless a metric or an attribute of the group is
  called \<open>_aws\<close>, the document is built; it announces, in order, exactly the metrics of the group that
  have a name and a value (nothing at all when there are none), in the exporter's namespace, with units
  CloudWatch supports; every announced metric and every announced dimension has a field in the
  document; all attributes of the group are dimensions, and so are \<open>Service\<close> and \<open>Environment\<close> (in some
  spelling of their case) when the Application Signals dimensions are enabled.\<close>

theorem emf_log_structure:
  assumes "''_aws'' \<notin> rec_name ` set (r # rs)" "''_aws'' \<notin> fst ` set (rec_attributes r)"
  shows "\<exists>emf names metrics.
    create_emf_log rt namespace (r # rs) res ts now = Inr emf
    \<and> metrics = filter valid_record (r # rs)
    \<and> map_of emf ''_aws'' = Some (JObj
        [(''Timestamp'', JInt (if ts \<noteq> 0 then ts else now)),
         (''CloudWatchMetrics'', JList
            (if metrics = [] then []
             else [JObj ([(''Namespace'', JStr namespace),
                         (''Metrics'', JList (map (\<lambda>r. metric_definition r (rec_name r)) metrics))]
                       @ (if names \<noteq> [] then [(''Dimensions'', JList [JList (map JStr names)])] else []))]))])
    \<and> rec_name ` set metrics \<union> set names \<subseteq> fst ` set emf
    \<and> fst ` set (rec_attributes r) \<subseteq> set names
    \<and> (should_add_application_signals_dimensions rt \<longrightarrow>
         has_dimension_case_insensitive names ''Service'' \<and> has_dimension_case_insensitive names ''Environment'')
    \<and> (\<forall>m u. metric_definition m (rec_name m) = JObj [(''Name'', JStr (rec_name m)), (''Unit'', JStr u)]
         \<longrightarrow> u \<in> set emf_supported_units)"
proof -
  let ?attrs = "rec_attributes r" and ?res = "case res of Some ats \<Rightarrow> ats | None \<Rightarrow> []"
  obtain emf1 defs where a: "foldl add_record (emf_skeleton rt res ts now, []) (r # rs) = (emf1, defs)"
    by (cases "foldl add_record (emf_skeleton rt res ts now, []) (r # rs)") auto
  define emf2 where "emf2 = foldl (\<lambda>d (k, v). AList.update k (JStr (py_str rt v)) d) emf1 ?attrs"
  obtain names emf3 where d: "add_application_signals_dimensions rt ?res (map fst ?attrs, emf2) = (names, emf3)"
    by (cases "add_application_signals_dimensions rt ?res (map fst ?attrs, emf2)") auto
  let ?metrics = "filter valid_record (r # rs)"
  note one = add_records [OF a]
  have defs: "defs = map (\<lambda>r. metric_definition r (rec_name r)) ?metrics" using one by simp
  have keys2: "fst ` set emf2 = fst ` set emf1 \<union> fst ` set ?attrs"
    using keys_foldl_put [of "\<lambda>k. k" "\<lambda>v. JStr (py_str rt v)" emf1 ?attrs] by (simp add: emf2_def)
  note three = signals_dimensions [OF d]
  have "map_of emf2 ''_aws'' = map_of emf1 ''_aws''"
    using foldl_put_other [of "''_aws''" "\<lambda>k. k" ?attrs "\<lambda>v. JStr (py_str rt v)" emf1] assms(2)
    by (simp add: emf2_def)
  moreover have "map_of emf1 ''_aws'' = map_of (emf_skeleton rt res ts now) ''_aws''"
    using one assms(1) by blast
  ultimately have aws: "map_of emf3 ''_aws'' = Some (JObj
      [(''Timestamp'', JInt (if ts \<noteq> 0 then ts else now)), (''CloudWatchMetrics'', JList [])])"
    using three skeleton_aws by simp
  have fields: "rec_name ` set ?metrics \<union> set names \<subseteq> fst ` set emf3"
    using one keys2 three by auto
  define m where "m = JObj ([(''Namespace'', JStr namespace), (''Metrics'', JList defs)]
      @ (if names \<noteq> [] then [(''Dimensions'', JList [JList (map JStr names)])] else []))"
  define emf where "emf = (if ?metrics = [] then emf3 else AList.update ''_aws'' (JObj
      [(''Timestamp'', JInt (if ts \<noteq> 0 then ts else now)), (''CloudWatchMetrics'', JList [m])]) emf3)"
  have "create_emf_log rt namespace (r # rs) res ts now = Inr emf"
    using append_metrics_ok [OF aws, of m] a d defs
    by (simp add: create_emf_log_def get_dimension_names_def emf2_def [symmetric] emf_def m_def
        del: filter.simps foldl_Cons)
  moreover have "map_of emf ''_aws'' = Some (JObj
      [(''Timestamp'', JInt (if ts \<noteq> 0 then ts else now)),
       (''CloudWatchMetrics'', JList (if ?metrics = [] then [] else [m]))])"
    using aws by (simp add: emf_def del: filter.simps)
  moreover have "rec_name ` set ?metrics \<union> set names \<subseteq> fst ` set emf"
    using fields by (auto simp: emf_def keys_update simp del: filter.simps set_filter)
  ultimately show ?thesis
    using three announced_unit m_def defs
    by (intro exI [of _ emf] exI [of _ names] exI [of _ ?metrics]) (simp del: filter.simps set_filter)
qed

definition demo_emf_runtime :: runtime where
  "demo_emf_runtime = \<lparr>environ = [], str_of = (\<lambda>v. [])\<rparr>"

theorem emf_log_structure_witness:
  "\<exists>emf. create_emf_log demo_emf_runtime ''ns'' [hd demo_records] None 1 0 = Inr emf
     \<and> {''m'', ''a'', ''b''} \<subseteq> fst ` set emf"
proof -
  let ?r = "hd demo_records"
  have r: "rec_name ?r = ''m''" "rec_attributes ?r = [(''a'', AInt 1), (''b'', AInt 2)]" "valid_record ?r"
    by (simp_all add: demo_records_def demo_metric_def base_record_def create_metric_record_def
        valid_record_def record_value_def)
  then show ?thesis
    using emf_log_structure [of ?r "[]" demo_emf_runtime "''ns''" None 1 0] by auto
qed

end
