(* ===== verification/LloHandler.thy ===== *)
theory LloHandler
  imports Json
begin

text \<open>
  The handler of large language objects, \<open>llo_handler.py\<close>: it takes the prompt and completion texts
  out of the spans and emits them as one event per span; and the span exporter that uses it,
  \<open>exporter/otlp/aws/traces/otlp_aws_span_exporter.py\<close>.

  The regular expression of an indexed pattern is \<open>^<before>(\d+)<after>$\<close>; the pattern holds the two
  literal parts. \<open>\<^bold>$\<close> also matches before a final line feed. The event logger is modelled by the events it
  receives. A collected value is an attribute value or, for an event whose name is a pattern, the
  dictionary of its llo.
\<close>

section \<open>Patterns\<close>

definition role_system :: string where "role_system = ''system''"
definition role_user :: string where "role_user = ''user''"
definition role_assistant :: string where "role_assistant = ''assistant''"
definition role_tool :: string where "role_tool = ''tool''"

datatype pattern_type = INDEXED | DIRECT

record pattern_config =
  pattern_type :: pattern_type
  regex :: "(string \<times> string) option"
  role_key :: "string option"
  fixed_role :: "string option"
  default_role :: "string option"
  source :: string

definition indexed :: "string \<Rightarrow> string \<Rightarrow> string \<Rightarrow> string \<Rightarrow> string \<Rightarrow> pattern_config" where
  "indexed before after key default_r src =
     \<lparr>pattern_type = INDEXED, regex = Some (before, after), role_key = Some key, fixed_role = None,
      default_role = Some default_r, source = src\<rparr>"

definition direct :: "string \<Rightarrow> string \<Rightarrow> pattern_config" where
  "direct r src =
     \<lparr>pattern_type = DIRECT, regex = None, role_key = None, fixed_role = Some r, default_role = None,
      source = src\<rparr>"

definition llo_patterns :: "(string \<times> pattern_config) list" where
  "llo_patterns =
     [
      (''gen_ai.prompt.{index}.content'', indexed ''gen_ai.prompt.'' ''.content'' ''gen_ai.prompt.{index}.role'' ''unknown'' ''prompt''),
      (''gen_ai.completion.{index}.content'', indexed ''gen_ai.completion.'' ''.content'' ''gen_ai.completion.{index}.role'' ''unknown'' ''completion''),
      (''llm.input_messages.{index}.message.content'', indexed ''llm.input_messages.'' ''.message.content'' ''llm.input_messages.{index}.message.role'' role_user ''input''),
      (''llm.output_messages.{index}.message.content'', indexed ''llm.output_messages.'' ''.message.content'' ''llm.output_messages.{index}.message.role'' role_assistant ''output''),
      (''traceloop.entity.input'', direct role_user ''input''),
      (''traceloop.entity.output'', direct role_assistant ''output''),
      (''crewai.crew.tasks_output'', direct role_assistant ''output''),
      (''crewai.crew.result'', direct role_assistant ''result''),
      (''gen_ai.prompt'', direct role_user ''prompt''),
      (''gen_ai.completion'', direct role_assistant ''completion''),
      (''gen_ai.content.revised_prompt'', direct role_system ''prompt''),
      (''gen_ai.agent.actual_output'', direct role_assistant ''output''),
      (''gen_ai.agent.human_input'', direct role_user ''input''),
      (''input.value'', direct role_user ''input''),
      (''output.value'', direct role_assistant ''output''),
      (''system_prompt'', direct role_system ''prompt''),
      (''tool.result'', direct role_assistant ''output''),
      (''llm.prompts'', direct role_user ''prompt''),
      (''gen_ai.user.message'', direct role_user ''prompt''),
      (''gen_ai.assistant.message'', direct role_assistant ''output''),
      (''gen_ai.system.message'', direct role_system ''prompt''),
      (''gen_ai.tool.message'', direct role_tool ''prompt''),
      (''gen_ai.choice'', direct role_assistant ''output'')]"

text \<open>\<open>_build_pattern_matchers\<close>.\<close>

definition pattern_configs :: "(string \<times> pattern_config) list" where
  "pattern_configs = filter (\<lambda>(k, c). pattern_type c = DIRECT) llo_patterns"

definition regex_patterns :: "((string \<times> string) \<times> string \<times> pattern_config) list" where
  "regex_patterns =
     List.map_filter (\<lambda>(k, c). if pattern_type c = INDEXED then map_option (\<lambda>r. (r, k, c)) (regex c) else None)
       llo_patterns"

text \<open>\<open>regex.match(key)\<close>, as the text of its group.\<close>

definition match_group :: "string \<times> string \<Rightarrow> string \<Rightarrow> string option" where
  "match_group = (\<lambda>(before, after) key.
     if prefix before key
     then let rest = drop (length before) key; digits = takeWhile is_dec rest; tail = dropWhile is_dec rest
          in if digits \<noteq> [] \<and> (tail = after \<or> tail = after @ [CHR 0x0A]) then Some digits else None
     else None)"

definition digits_value :: "string \<Rightarrow> int" where
  "digits_value ds = foldl (\<lambda>a c. 10 * a + (int (ord c) - 48)) 0 ds"

definition is_llo_attribute :: "string \<Rightarrow> bool" where
  "is_llo_attribute key \<longleftrightarrow>
     key \<in> set (map fst pattern_configs)
     \<or> (\<exists>(r, k, c) \<in> set regex_patterns. match_group r key \<noteq> None)"

section \<open>Collecting\<close>

datatype llo_value = Val aval | Dict attrs

type_synonym llo_attrs = "(string \<times> llo_value) list"

record llo_message =
  content :: llo_value
  role :: llo_value
  msg_source :: string

record span_event =
  event_name :: string
  event_attributes :: "attrs option"
  event_time :: int

record llo_span =
  span_attributes :: "attrs option"
  span_events :: "span_event list"
  scope_name :: "string option"
  span_end :: int
  ctx :: span_context

text \<open>The first indexed pattern that matches, with the index.\<close>

definition find_indexed :: "string \<Rightarrow> (string \<times> pattern_config \<times> int) option" where
  "find_indexed key =
     (case List.map_filter (\<lambda>(r, k, c). map_option (\<lambda>ds. (k, c, digits_value ds)) (match_group r key))
             regex_patterns of
        [] \<Rightarrow> None
      | m # _ \<Rightarrow> Some m)"

definition indexed_role :: "llo_attrs \<Rightarrow> pattern_config \<Rightarrow> int \<Rightarrow> llo_value" where
  "indexed_role llo c index =
     (let usual = Val (AStr (case default_role c of Some r \<Rightarrow> r | None \<Rightarrow> ''unknown''))
      in case role_key c of
           Some (x # xs) \<Rightarrow>
             (case map_of llo (py_replace ''{index}'' (int_str index) (x # xs)) of
                Some v \<Rightarrow> v | None \<Rightarrow> usual)
         | _ \<Rightarrow> usual)"

definition index_entry ::
    "llo_attrs \<Rightarrow> ((string \<times> int) \<times> llo_message) list \<Rightarrow> string \<times> llo_value
      \<Rightarrow> ((string \<times> int) \<times> llo_message) list" where
  "index_entry llo d = (\<lambda>(key, v).
     case find_indexed key of
       None \<Rightarrow> d
     | Some (pattern_key, c, index) \<Rightarrow>
         AList.update (pattern_key, index)
           \<lparr>content = v, role = indexed_role llo c index, msg_source = source c\<rparr> d)"

definition collect_indexed_messages :: "llo_attrs \<Rightarrow> llo_message list" where
  "collect_indexed_messages llo =
     (let indexed_messages = foldl (index_entry llo) [] llo
      in map (\<lambda>k. the (map_of indexed_messages k)) (sort (map fst indexed_messages)))"

definition direct_message :: "string \<times> llo_value \<Rightarrow> llo_message option" where
  "direct_message = (\<lambda>(key, v).
     map_option (\<lambda>c. \<lparr>content = v,
         role = Val (AStr (case fixed_role c of Some r \<Rightarrow> r | None \<Rightarrow> ''unknown'')),
         msg_source = source c\<rparr>)
       (map_of pattern_configs key))"

definition collect_all_llo_messages :: "llo_attrs \<Rightarrow> llo_message list" where
  "collect_all_llo_messages llo =
     List.map_filter direct_message llo @ collect_indexed_messages llo"

text \<open>The LLO entries of a dictionary are put into the collection.\<close>

definition take_llo :: "attrs option \<Rightarrow> llo_attrs \<Rightarrow> llo_attrs" where
  "take_llo ats d =
     foldl (\<lambda>d (k, v). if is_llo_attribute k then AList.update k (Val v) d else d) d
       (case ats of Some a \<Rightarrow> a | None \<Rightarrow> [])"

definition take_event :: "llo_attrs \<Rightarrow> span_event \<Rightarrow> llo_attrs" where
  "take_event d ev =
     take_llo (event_attributes ev)
       (if is_llo_attribute (event_name ev)
        then AList.update (event_name ev)
               (Dict (case event_attributes ev of Some a \<Rightarrow> a | None \<Rightarrow> [])) d
        else d)"

definition collect_llo_attributes_from_span :: "llo_span \<Rightarrow> llo_attrs" where
  "collect_llo_attributes_from_span sp =
     foldl take_event (take_llo (span_attributes sp) []) (span_events sp)"

section \<open>The event\<close>

type_synonym formatted = "llo_value \<times> llo_value"

definition output_source :: "string \<Rightarrow> bool" where
  "output_source src \<longleftrightarrow> (\<exists>key \<in> {''completion'', ''output'', ''result''}. py_in key src)"

definition is_input :: "llo_message \<Rightarrow> bool" where
  "is_input m \<longleftrightarrow>
     (if role m \<in> {Val (AStr role_system), Val (AStr role_user)} then True
      else if role m = Val (AStr role_assistant) then False
      else \<not> output_source (msg_source m))"

text \<open>A formatted message is its role and its content.\<close>

definition group_messages_by_type :: "llo_message list \<Rightarrow> formatted list \<times> formatted list" where
  "group_messages_by_type ms =
     (map (\<lambda>m. (role m, content m)) (filter is_input ms),
      map (\<lambda>m. (role m, content m)) (filter (\<lambda>m. \<not> is_input m) ms))"

record gen_ai_event =
  ev_name :: string
  ev_timestamp :: int
  ev_body :: "(string \<times> formatted list) list"
  ev_attributes :: "attrs option"
  ev_context :: span_context

definition emit_llo_attributes ::
    "llo_span \<Rightarrow> llo_attrs \<Rightarrow> int option \<Rightarrow> gen_ai_event option res" where
  "emit_llo_attributes sp llo event_timestamp =
     (if \<not> list_ex (\<lambda>(k, v). is_llo_attribute k) llo then Inr None
      else
        let all_messages = collect_all_llo_messages llo
        in if all_messages = [] then Inr None
           else
             let (input_messages, output_messages) = group_messages_by_type all_messages;
                 event_body =
                   (if input_messages \<noteq> [] then [(''input'', input_messages)] else [])
                   @ (if output_messages \<noteq> [] then [(''output'', output_messages)] else [])
             in if event_body = [] then Inr None
                else case scope_name sp of
                       None \<Rightarrow> Inl AttributeError
                     | Some name \<Rightarrow>
                         Inr (Some
                           \<lparr>ev_name = name,
                            ev_timestamp = (case event_timestamp of Some t \<Rightarrow> t | None \<Rightarrow> span_end sp),
                            ev_body = event_body,
                            ev_attributes =
                              (case span_attributes sp of
                                 Some a \<Rightarrow> map_option (\<lambda>v. [(''session.id'', v)]) (map_of a ''session.id'')
                               | None \<Rightarrow> None),
                            ev_context = ctx sp\<rparr>))"

section \<open>Filtering\<close>

definition filter_attributes :: "attrs \<Rightarrow> attrs" where
  "filter_attributes ats =
     (if \<not> list_ex (\<lambda>(k, v). is_llo_attribute k) ats then ats
      else filter (\<lambda>(k, v). \<not> is_llo_attribute k) ats)"

definition filter_event :: "span_event \<Rightarrow> span_event option" where
  "filter_event ev =
     (if is_llo_attribute (event_name ev) then None
      else case event_attributes ev of
             None \<Rightarrow> Some ev
           | Some a \<Rightarrow>
               if a = [] then Some ev
               else let updated = filter_attributes a
                    in if length updated \<noteq> length a
                       then Some (ev\<lparr>event_attributes := Some updated\<rparr>) else Some ev)"

definition filter_span_events :: "llo_span \<Rightarrow> llo_span" where
  "filter_span_events sp =
     (if span_events sp = [] then sp
      else sp\<lparr>span_events := List.map_filter filter_event (span_events sp)\<rparr>)"

text \<open>
  \<open>process_spans\<close> changes the spans in place: the result is the exception if one escaped, the spans
  as they are then, and the events emitted.
\<close>

definition process_span :: "llo_span \<Rightarrow> (llo_span \<times> gen_ai_event list) res" where
  "process_span sp =
     (let all_llo_attributes = collect_llo_attributes_from_span sp
      in bindr (if all_llo_attributes \<noteq> [] then emit_llo_attributes sp all_llo_attributes None
                else Inr None) (\<lambda>event.
         Inr (filter_span_events
                (sp\<lparr>span_attributes := map_option filter_attributes (span_attributes sp)\<rparr>),
              case event of Some ev \<Rightarrow> [ev] | None \<Rightarrow> [])))"

fun process_spans :: "llo_span list \<Rightarrow> exn option \<times> llo_span list \<times> gen_ai_event list" where
  "process_spans [] = (None, [], [])"
| "process_spans (sp # sps) =
     (case process_span sp of
        Inl e \<Rightarrow> (Some e, sp # sps, [])
      | Inr (sp', evs) \<Rightarrow>
          (case process_spans sps of (e, sps', evs') \<Rightarrow> (e, sp' # sps', evs @ evs')))"

section \<open>The span exporter\<close>

datatype span_export_result = SpanSuccess | SpanFailure

text \<open>
  The logger provider is created lazily; \<open>get_provider\<close> is the SDK's \<open>get_logger_provider()\<close>, \<open>None\<close>
  when it raises. State: whether there is a provider and whether there is a handler.
\<close>

record span_exporter =
  has_provider :: bool
  has_handler :: bool

definition ensure_llo_handler :: "runtime \<Rightarrow> bool option \<Rightarrow> span_exporter \<Rightarrow> bool \<times> span_exporter" where
  "ensure_llo_handler rt get_provider x =
     (if \<not> has_handler x \<and> is_agent_observability_enabled rt
      then if \<not> has_provider x
           then (case get_provider of
                   None \<Rightarrow> (False, x)
                 | Some provider \<Rightarrow>
                     if provider then (True, \<lparr>has_provider = True, has_handler = True\<rparr>)
                     else (False, x\<lparr>has_provider := False\<rparr>))
           else (True, x\<lparr>has_handler := True\<rparr>)
      else (has_handler x, x))"

text \<open>What is handed to the OTLP exporter of the SDK (\<open>upstream\<close>), and the events emitted.\<close>

definition aws_span_export ::
    "runtime \<Rightarrow> bool option \<Rightarrow> (llo_span list \<Rightarrow> span_export_result res) \<Rightarrow> span_exporter \<Rightarrow> llo_span list
      \<Rightarrow> span_export_result res \<times> llo_span list \<times> gen_ai_event list \<times> span_exporter" where
  "aws_span_export rt get_provider upstream x sps =
     (if is_agent_observability_enabled rt
      then (let (ready, x') = ensure_llo_handler rt get_provider x
            in if ready
               then (case process_spans sps of
                       (Some e, sps', evs) \<Rightarrow> (Inr SpanFailure, sps', evs, x')
                     | (None, sps', evs) \<Rightarrow>
                         (case upstream sps' of
                            Inl e \<Rightarrow> Inr SpanFailure | Inr r \<Rightarrow> Inr r, sps', evs, x'))
               else (upstream sps, sps, [], x'))
      else (upstream sps, sps, [], x))"

section \<open>Nothing is left behind, and only that is taken\<close>

definition plain :: "attrs \<Rightarrow> attrs" where
  "plain ats = filter (\<lambda>(k, v). \<not> is_llo_attribute k) ats"

lemma filter_attributes_plain [simp]: "filter_attributes ats = plain ats"
proof (cases "list_ex (\<lambda>(k, v). is_llo_attribute k) ats")
  case True
  then show ?thesis by (simp add: filter_attributes_def plain_def)
next
  case False
  then have "filter (\<lambda>(k, v). \<not> is_llo_attribute k) ats = ats"
    by (intro filter_True) (auto simp: list_ex_iff)
  with False show ?thesis by (simp add: filter_attributes_def plain_def)
qed

lemma plain_plain [simp]: "plain (plain ats) = plain ats"
  by (simp add: plain_def)

lemma plain_length: "length (plain a) = length a \<Longrightarrow> plain a = a"
  unfolding plain_def by (metis filter_id_conv length_filter_less order_less_irrefl)

definition plain_event :: "span_event \<Rightarrow> span_event" where
  "plain_event ev = ev\<lparr>event_attributes := map_option plain (event_attributes ev)\<rparr>"

definition plain_span :: "llo_span \<Rightarrow> llo_span" where
  "plain_span sp = sp\<lparr>span_attributes := map_option plain (span_attributes sp),
     span_events := map plain_event (filter (\<lambda>ev. \<not> is_llo_attribute (event_name ev)) (span_events sp))\<rparr>"

lemma filter_event_plain:
  "filter_event ev = (if is_llo_attribute (event_name ev) then None else Some (plain_event ev))"
proof (cases "event_attributes ev")
  case None
  then show ?thesis by (cases ev) (simp add: filter_event_def plain_event_def)
next
  case (Some a)
  then show ?thesis
    using plain_length [of a] by (cases ev) (auto simp: filter_event_def plain_event_def Let_def plain_def)
qed

lemma filter_events_plain:
  "List.map_filter filter_event evs = map plain_event (filter (\<lambda>ev. \<not> is_llo_attribute (event_name ev)) evs)"
  by (induction evs) (simp_all add: List.map_filter_simps filter_event_plain)

lemma filter_span_plain:
  "filter_span_events (sp\<lparr>span_attributes := map_option filter_attributes (span_attributes sp)\<rparr>) = plain_span sp"
proof -
  have "map_option filter_attributes (span_attributes sp) = map_option plain (span_attributes sp)"
    by (cases "span_attributes sp") simp_all
  then show ?thesis
    by (cases sp) (simp add: filter_span_events_def plain_span_def filter_events_plain)
qed

lemma process_span_plain: "process_span sp = Inr (sp', evs) \<Longrightarrow> sp' = plain_span sp"
  by (auto simp: process_span_def Let_def bindr_eq_Inr filter_span_plain)

lemma take_llo_plain: "take_llo (map_option plain a) d = d"
proof -
  have "foldl (\<lambda>d (k, v). if is_llo_attribute k then AList.update k (Val v) d else d) d (plain ats) = d" for ats
    by (induction ats arbitrary: d) (auto simp: plain_def)
  then show ?thesis by (cases a) (simp_all add: take_llo_def)
qed

lemma collect_plain: "collect_llo_attributes_from_span (plain_span sp) = []"
proof -
  have "foldl take_event d (map plain_event (filter (\<lambda>ev. \<not> is_llo_attribute (event_name ev)) evs)) = d" for d evs
    by (induction evs arbitrary: d) (simp_all add: take_event_def plain_event_def take_llo_plain)
  then show ?thesis
    by (simp add: collect_llo_attributes_from_span_def plain_span_def take_llo_plain)
qed

lemma plain_span_twice [simp]: "plain_span (plain_span sp) = plain_span sp"
proof -
  have "plain_event (plain_event ev) = plain_event ev" for ev
    by (cases "event_attributes ev") (simp_all add: plain_event_def)
  moreover have "event_name (plain_event ev) = event_name ev" for ev by (simp add: plain_event_def)
  ultimately have "map plain_event (filter (\<lambda>ev. \<not> is_llo_attribute (event_name ev))
      (map plain_event (filter (\<lambda>ev. \<not> is_llo_attribute (event_name ev)) evs)))
    = map plain_event (filter (\<lambda>ev. \<not> is_llo_attribute (event_name ev)) evs)" for evs
    by (induction evs) simp_all
  then show ?thesis by (cases "span_attributes sp") (simp_all add: plain_span_def)
qed

lemma process_plain: "process_span (plain_span sp) = Inr (plain_span sp, [])"
  by (simp add: process_span_def collect_plain filter_span_plain)

lemma process_spans_plain: "process_spans sps = (None, sps', evs) \<Longrightarrow> sps' = map plain_span sps"
  by (induction sps arbitrary: sps' evs)
     (auto simp: process_span_plain split: sum.splits prod.splits)

lemma process_spans_again: "process_spans (map plain_span sps) = (None, map plain_span sps, [])"
  by (induction sps) (simp_all add: process_plain)

text \<open>C6: No language text stays in the spans. When \<open>process_spans\<close> returns, no key of a span's
  attributes, no key of the attributes of its events and no name of its events is an LLO pattern; every
  other attribute and event is kept, unchanged and in order, and so is everything else of the span.
  Processing the result again changes nothing and emits nothing.\<close>

theorem llo_removed:
  assumes "process_spans sps = (None, sps', evs)"
  shows "list_all2 (\<lambda>sp sp'.
      sp' = sp\<lparr>span_attributes := map_option (filter (\<lambda>(k, v). \<not> is_llo_attribute k)) (span_attributes sp),
              span_events := map (\<lambda>ev. ev\<lparr>event_attributes :=
                  map_option (filter (\<lambda>(k, v). \<not> is_llo_attribute k)) (event_attributes ev)\<rparr>)
                (filter (\<lambda>ev. \<not> is_llo_attribute (event_name ev)) (span_events sp))\<rparr>) sps sps'
    \<and> process_spans sps' = (None, sps', [])"
proof
  have plain: "sps' = map plain_span sps" by (rule process_spans_plain [OF assms])
  have "(\<lambda>ats. filter (\<lambda>(k, v). \<not> is_llo_attribute k) ats) = plain" by (simp add: plain_def fun_eq_iff)
  then show "list_all2 (\<lambda>sp sp'.
      sp' = sp\<lparr>span_attributes := map_option (filter (\<lambda>(k, v). \<not> is_llo_attribute k)) (span_attributes sp),
              span_events := map (\<lambda>ev. ev\<lparr>event_attributes :=
                  map_option (filter (\<lambda>(k, v). \<not> is_llo_attribute k)) (event_attributes ev)\<rparr>)
                (filter (\<lambda>ev. \<not> is_llo_attribute (event_name ev)) (span_events sp))\<rparr>) sps sps'"
    by (simp add: plain list_all2_map2 list_all2_same plain_span_def plain_event_def [abs_def])
  show "process_spans sps' = (None, sps', [])" by (simp add: plain process_spans_again)
qed

section \<open>Every text is emitted once\<close>

text \<open>The position an indexed key stands for.\<close>

definition slot :: "string \<Rightarrow> (string \<times> int) option" where
  "slot key = map_option (\<lambda>(k, c, i). (k, i)) (find_indexed key)"

definition is_direct :: "string \<Rightarrow> bool" where
  "is_direct key \<longleftrightarrow> map_of pattern_configs key \<noteq> None"

definition index_message :: "llo_attrs \<Rightarrow> string \<times> llo_value \<Rightarrow> llo_message" where
  "index_message llo = (\<lambda>(key, v).
     case find_indexed key of
       Some (k, c, i) \<Rightarrow> \<lparr>content = v, role = indexed_role llo c i, msg_source = source c\<rparr>
     | None \<Rightarrow> \<lparr>content = v, role = v, msg_source = []\<rparr>)"

lemma index_entry_slot:
  "index_entry llo d e =
     (case slot (fst e) of None \<Rightarrow> d | Some s \<Rightarrow> AList.update s (index_message llo e) d)"
  by (cases e) (auto simp: index_entry_def slot_def index_message_def split: option.splits prod.splits)

lemma index_fold:
  "inj_on (\<lambda>e. slot (fst e)) (set (filter (\<lambda>e. slot (fst e) \<noteq> None) es)) \<Longrightarrow> distinct es \<Longrightarrow>
   \<forall>e \<in> set es. \<forall>s. slot (fst e) = Some s \<longrightarrow> s \<notin> fst ` set d \<Longrightarrow>
   foldl (index_entry llo) d es
     = d @ map (\<lambda>e. (the (slot (fst e)), index_message llo e)) (filter (\<lambda>e. slot (fst e) \<noteq> None) es)"
proof (induction es arbitrary: d)
  case Nil
  then show ?case by simp
next
  case (Cons e es)
  show ?case
  proof (cases "slot (fst e)")
    case None
    then show ?thesis using Cons by (simp add: index_entry_slot)
  next
    case (Some s)
    let ?d = "d @ [(s, index_message llo e)]"
    have "index_entry llo d e = ?d"
    proof -
      have "s \<notin> fst ` set d" using Cons.prems(3) Some by (meson list.set_intros(1))
      then show ?thesis unfolding index_entry_slot Some option.case by (rule update_fresh)
    qed
    moreover have "\<forall>e' \<in> set es. \<forall>s'. slot (fst e') = Some s' \<longrightarrow> s' \<notin> fst ` set ?d"
    proof (intro ballI allI impI)
      fix e' s' assume e': "e' \<in> set es" "slot (fst e') = Some s'"
      have "e' \<noteq> e" using e' Cons.prems(2) by auto
      then have "s' \<noteq> s"
        using inj_onD [OF Cons.prems(1), of e' e] e' Some by auto
      moreover have "s' \<notin> fst ` set d" using Cons.prems(3) e' by (meson list.set_intros(2))
      ultimately show "s' \<notin> fst ` set ?d" by simp
    qed
    moreover have "inj_on (\<lambda>e. slot (fst e)) (set (filter (\<lambda>e. slot (fst e) \<noteq> None) es))"
      by (rule inj_on_subset [OF Cons.prems(1)]) auto
    moreover have "distinct es" using Cons.prems(2) by simp
    ultimately show ?thesis
      using Cons.IH [of ?d] Some by simp
  qed
qed

lemma lookup_sorted_keys:
  "distinct (map fst d) \<Longrightarrow> mset (map (\<lambda>k. the (map_of d k)) (sort (map fst d))) = mset (map snd d)"
proof -
  assume a: "distinct (map fst d)"
  have "map (\<lambda>k. the (map_of d k)) (map fst d) = map snd d"
    using a by (auto simp: map_of_is_SomeI)
  then have "image_mset (\<lambda>k. the (map_of d k)) (mset (map fst d)) = mset (map snd d)"
    by (simp only: mset_map [symmetric])
  then show ?thesis by (simp only: mset_map mset_sort)
qed

lemma direct_messages:
  "mset (map content (List.map_filter direct_message es)) = mset (map snd (filter (\<lambda>e. is_direct (fst e)) es))"
  by (induction es)
     (auto simp: List.map_filter_simps direct_message_def is_direct_def split: option.splits)

lemma index_content: "slot (fst e) \<noteq> None \<Longrightarrow> content (index_message llo e) = snd e"
  by (cases e) (auto simp: index_message_def slot_def split: option.splits)

lemma indexed_messages:
  assumes "distinct (map fst es)" "inj_on slot (fst ` set es \<inter> {k. slot k \<noteq> None})"
  shows "mset (map content (collect_indexed_messages es)) = mset (map snd (filter (\<lambda>e. slot (fst e) \<noteq> None) es))"
proof -
  let ?es = "filter (\<lambda>e. slot (fst e) \<noteq> None) es"
  let ?d = "map (\<lambda>e. (the (slot (fst e)), index_message es e)) ?es"
  have inj: "inj_on (\<lambda>e. slot (fst e)) (set ?es)"
  proof (rule inj_onI)
    fix e e' assume e: "e \<in> set ?es" "e' \<in> set ?es" "slot (fst e) = slot (fst e')"
    then have "fst e = fst e'" by (intro inj_onD [OF assms(2)]) auto
    with e assms(1) show "e = e'" by (auto simp: distinct_map inj_on_def)
  qed
  have d: "foldl (index_entry es) [] es = ?d"
    using index_fold [OF inj] assms(1) by (simp add: distinct_map)
  have "inj_on (\<lambda>e. the (slot (fst e))) (set ?es)"
  proof (rule inj_onI)
    fix e e' assume e: "e \<in> set ?es" "e' \<in> set ?es" "the (slot (fst e)) = the (slot (fst e'))"
    then have "slot (fst e) = slot (fst e')" by (intro option.expand) auto
    with e inj show "e = e'" by (meson inj_onD)
  qed
  then have "distinct (map fst ?d)"
    using assms(1) by (simp add: distinct_map comp_def distinct_filter)
  from lookup_sorted_keys [OF this] have "mset (collect_indexed_messages es) = mset (map (index_message es) ?es)"
    by (simp only: collect_indexed_messages_def d Let_def) (simp add: comp_def)
  then have "mset (map content (collect_indexed_messages es)) = mset (map content (map (index_message es) ?es))"
    by (simp only: mset_map)
  also have "map content (map (index_message es) ?es) = map snd ?es"
    using index_content by auto
  finally show ?thesis .
qed

lemma llo_kinds:
  "is_llo_attribute k \<longleftrightarrow> is_direct k \<or> slot k \<noteq> None"
proof -
  have "is_direct k \<longleftrightarrow> k \<in> set (map fst pattern_configs)"
    by (simp add: is_direct_def map_of_eq_None_iff)
  moreover have "slot k \<noteq> None \<longleftrightarrow> (\<exists>(r, p, c) \<in> set regex_patterns. match_group r k \<noteq> None)"
  proof -
    have "List.map_filter (\<lambda>(r, p, c). map_option (\<lambda>ds. (p, c, digits_value ds)) (match_group r k)) rs = []
        \<longleftrightarrow> \<not> (\<exists>(r, p, c) \<in> set rs. match_group r k \<noteq> None)" for rs
      by (induction rs) (auto simp: List.map_filter_simps split: option.splits)
    from this [of regex_patterns] show ?thesis
      by (cases "List.map_filter (\<lambda>(r, p, c). map_option (\<lambda>ds. (p, c, digits_value ds)) (match_group r k))
          regex_patterns") (simp_all add: slot_def find_indexed_def)
  qed
  ultimately show ?thesis by (auto simp: is_llo_attribute_def)
qed

lemma kinds_apart: "is_direct k \<Longrightarrow> slot k = None"
proof -
  have "list_all (\<lambda>k. slot k = None) (map fst pattern_configs)" by code_simp
  then have "k \<in> set (map fst pattern_configs) \<Longrightarrow> slot k = None" by (simp only: list_all_iff)
  then show "is_direct k \<Longrightarrow> slot k = None" by (simp add: is_direct_def map_of_eq_None_iff)
qed

lemma filter_mset_partition: "mset (map f (filter P xs)) + mset (map f (filter (\<lambda>x. \<not> P x) xs)) = mset (map f xs)"
  by (induction xs) auto

lemma all_messages:
  assumes "distinct (map fst es)" "inj_on slot (fst ` set es \<inter> {k. slot k \<noteq> None})"
    and "\<forall>e \<in> set es. is_llo_attribute (fst e)"
  shows "mset (map content (collect_all_llo_messages es)) = mset (map snd es)"
proof -
  have "filter (\<lambda>e. slot (fst e) \<noteq> None) es = filter (\<lambda>e. \<not> is_direct (fst e)) es"
    using assms(3) kinds_apart by (intro filter_cong) (auto simp: llo_kinds)
  with indexed_messages [OF assms(1,2)] show ?thesis
    by (simp add: collect_all_llo_messages_def direct_messages filter_mset_partition del: mset_map)
qed

text \<open>The messages of an event, the input ones first.\<close>

definition event_messages :: "gen_ai_event \<Rightarrow> formatted list" where
  "event_messages ev = concat (map snd (ev_body ev))"

text \<open>C21: Every collected text is emitted exactly once. For a non-empty dictionary of LLO attributes in
  which no two indexed keys stand for the same index, the span's event is emitted under the name of its
  instrumentation scope, at the end time of the span and with its identifiers, and the contents of its
  input and output messages are exactly the values of the dictionary, each once; without an
  instrumentation scope the emission raises.\<close>

theorem llo_messages_complete:
  assumes "llo \<noteq> []" "distinct (map fst llo)" "\<forall>e \<in> set llo. is_llo_attribute (fst e)"
    and "inj_on slot (fst ` set llo \<inter> {k. slot k \<noteq> None})"
  shows "case scope_name sp of
      None \<Rightarrow> emit_llo_attributes sp llo None = Inl AttributeError
    | Some name \<Rightarrow> (\<exists>ev. emit_llo_attributes sp llo None = Inr (Some ev)
        \<and> mset (map snd (event_messages ev)) = mset (map snd llo)
        \<and> ev_name ev = name \<and> ev_timestamp ev = span_end sp \<and> ev_context ev = ctx sp
        \<and> set (map fst (ev_body ev)) \<subseteq> {''input'', ''output''})"
proof -
  let ?ms = "collect_all_llo_messages llo"
  have mset: "mset (map content ?ms) = mset (map snd llo)" by (rule all_messages) (use assms in simp_all)
  have some: "list_ex (\<lambda>(k, v). is_llo_attribute k) llo"
    using assms(1,3) by (cases llo) auto
  have "?ms \<noteq> []" using mset assms(1) by auto
  moreover obtain ins outs where g: "group_messages_by_type ?ms = (ins, outs)"
    by (cases "group_messages_by_type ?ms") auto
  have "mset (map snd (ins @ outs)) = mset (map content ?ms)"
    using g filter_mset_partition [of content is_input ?ms]
    by (auto simp: group_messages_by_type_def comp_def simp del: mset_map)
  with mset have all: "mset (map snd (ins @ outs)) = mset (map snd llo)" by simp
  then have "ins \<noteq> [] \<or> outs \<noteq> []" using assms(1) by auto
  ultimately show ?thesis
    using some g all
    by (auto simp: emit_llo_attributes_def Let_def event_messages_def split: option.splits)
qed

text \<open>A conversation of two indexed messages, out of order, and a direct one.\<close>

definition demo_llo :: llo_attrs where
  "demo_llo =
     [(''gen_ai.completion.0.content'', Val (AStr ''Hi'')), (''gen_ai.prompt.10.content'', Val (AStr ''Hello'')),
      (''gen_ai.prompt.9.content'', Val (AStr ''You are'')), (''system_prompt'', Val (AStr ''Be brief''))]"

definition demo_llo_span :: llo_span where
  "demo_llo_span =
     \<lparr>span_attributes = Some [(''gen_ai.prompt.0.content'', AStr ''Hello''), (''gen_ai.prompt.0.role'', AStr ''user''),
        (''a'', AInt 1)],
      span_events = [\<lparr>event_name = ''gen_ai.choice'', event_attributes = Some [(''message'', AStr ''Hi'')],
        event_time = 3\<rparr>],
      scope_name = Some ''lib'', span_end = 7,
      ctx = \<lparr>ctx_trace_id = 1, ctx_span_id = 2, is_valid = True, is_remote = False, sampled = True\<rparr>\<rparr>"

lemma demo_processed:
  "process_spans [demo_llo_span] =
     (None,
      [demo_llo_span\<lparr>span_attributes := Some [(''gen_ai.prompt.0.role'', AStr ''user''), (''a'', AInt 1)],
         span_events := []\<rparr>],
      [\<lparr>ev_name = ''lib'', ev_timestamp = 7,
        ev_body = [(''input'', [(Val (AStr ''unknown''), Val (AStr ''Hello''))]),
                   (''output'', [(Val (AStr ''assistant''), Dict [(''message'', AStr ''Hi'')])])],
        ev_attributes = None, ev_context = ctx demo_llo_span\<rparr>])"
  by code_simp

theorem llo_removed_witness:
  "\<exists>sps' evs. process_spans [demo_llo_span] = (None, sps', evs) \<and> process_spans sps' = (None, sps', [])"
  using llo_removed [OF demo_processed] demo_processed by blast

theorem llo_messages_complete_witness:
  "\<exists>ev. emit_llo_attributes demo_llo_span demo_llo None = Inr (Some ev)
     \<and> mset (map snd (event_messages ev)) = mset (map snd demo_llo)"
proof -
  have "\<forall>e \<in> set demo_llo. is_llo_attribute (fst e)" by code_simp
  moreover have "map slot (map fst demo_llo)
      = [Some (''gen_ai.completion.{index}.content'', 0), Some (''gen_ai.prompt.{index}.content'', 10),
         Some (''gen_ai.prompt.{index}.content'', 9), None]"
    by code_simp
  then have "inj_on slot (fst ` set demo_llo \<inter> {k. slot k \<noteq> None})"
    by (auto simp: demo_llo_def inj_on_def)
  ultimately show ?thesis
    using llo_messages_complete [of demo_llo demo_llo_span]
    by (simp add: demo_llo_span_def) (auto simp: demo_llo_def)
qed

section \<open>Roles of indexed messages\<close>

lemma regex_patterns_eq:
  "regex_patterns =
     [((''gen_ai.prompt.'', ''.content''), ''gen_ai.prompt.{index}.content'',
        indexed ''gen_ai.prompt.'' ''.content'' ''gen_ai.prompt.{index}.role'' ''unknown'' ''prompt''),
      ((''gen_ai.completion.'', ''.content''), ''gen_ai.completion.{index}.content'',
        indexed ''gen_ai.completion.'' ''.content'' ''gen_ai.completion.{index}.role'' ''unknown'' ''completion''),
      ((''llm.input_messages.'', ''.message.content''), ''llm.input_messages.{index}.message.content'',
        indexed ''llm.input_messages.'' ''.message.content'' ''llm.input_messages.{index}.message.role''
          role_user ''input''),
      ((''llm.output_messages.'', ''.message.content''), ''llm.output_messages.{index}.message.content'',
        indexed ''llm.output_messages.'' ''.message.content'' ''llm.output_messages.{index}.message.role''
          role_assistant ''output'')]"
  by code_simp

lemma digits_value_nonneg: "list_all is_dec ds \<Longrightarrow> 0 \<le> digits_value ds"
proof -
  have "0 \<le> a \<Longrightarrow> list_all is_dec ds \<Longrightarrow> 0 \<le> foldl (\<lambda>a c. 10 * a + (int (ord c) - 48)) a ds" for a :: int
    by (induction ds arbitrary: a) (auto simp: is_dec_def)
  then show "list_all is_dec ds \<Longrightarrow> 0 \<le> digits_value ds" by (simp add: digits_value_def)
qed

lemma find_indexed_nonneg: "find_indexed key = Some (k, c, i) \<Longrightarrow> 0 \<le> i \<and> (\<exists>r. (r, k, c) \<in> set regex_patterns)"
proof -
  have dec: "list_all is_dec ds" if "match_group r key = Some ds" for r ds
    using that by (auto simp: match_group_def Let_def list_all_iff split: if_splits prod.splits dest: set_takeWhileD)
  have "List.map_filter (\<lambda>(r, k, c). map_option (\<lambda>ds. (k, c, digits_value ds)) (match_group r key)) rs
      = (k, c, i) # ms \<Longrightarrow> 0 \<le> i \<and> (\<exists>r. (r, k, c) \<in> set rs)" for rs ms
    by (induction rs) (auto simp: List.map_filter_simps dec digits_value_nonneg split: option.splits)
  then show "find_indexed key = Some (k, c, i) \<Longrightarrow> 0 \<le> i \<and> (\<exists>r. (r, k, c) \<in> set regex_patterns)"
    by (auto simp: find_indexed_def split: list.splits)
qed

lemma takeWhile_digits: "list_all is_dec ds \<Longrightarrow> takeWhile is_dec (ds @ CHR ''.'' # s) = ds"
  "list_all is_dec ds \<Longrightarrow> dropWhile is_dec (ds @ CHR ''.'' # s) = CHR ''.'' # s"
  by (auto simp: takeWhile_append dropWhile_append list_all_iff is_dec_def)

lemma role_key_plain:
  assumes "list_all is_dec ds"
  shows "\<not> is_llo_attribute (''gen_ai.prompt.'' @ ds @ ''.role'')"
    "\<not> is_llo_attribute (''gen_ai.completion.'' @ ds @ ''.role'')"
    "\<not> is_llo_attribute (''llm.input_messages.'' @ ds @ ''.message.role'')"
    "\<not> is_llo_attribute (''llm.output_messages.'' @ ds @ ''.message.role'')"
  using assms
  by (simp_all add: is_llo_attribute_def pattern_configs_def llo_patterns_def indexed_def direct_def
      regex_patterns_eq match_group_def Let_def takeWhile_digits del: append_assoc)

lemma take_llo_keys:
  "\<forall>k \<in> fst ` set d. is_llo_attribute k \<Longrightarrow> \<forall>k \<in> fst ` set (take_llo ats d). is_llo_attribute k"
proof -
  have "\<forall>k \<in> fst ` set d. is_llo_attribute k \<Longrightarrow>
      \<forall>k \<in> fst ` set (foldl (\<lambda>d (k, v). if is_llo_attribute k then AList.update k (Val v) d else d) d a).
        is_llo_attribute k" for a
  proof (induction a arbitrary: d)
    case Nil
    then show ?case by simp
  next
    case (Cons p a)
    obtain k v where p: "p = (k, v)" by (cases p)
    show ?case
    proof (cases "is_llo_attribute k")
      case True
      then have "\<forall>k \<in> fst ` set (AList.update k (Val v) d). is_llo_attribute k"
        using Cons.prems by (simp only: keys_update ball_simps simp_thms)
      from Cons.IH [OF this] True show ?thesis by (simp add: p)
    next
      case False
      with Cons.IH [OF Cons.prems] show ?thesis by (simp add: p)
    qed
  qed
  then show "\<forall>k \<in> fst ` set d. is_llo_attribute k \<Longrightarrow> \<forall>k \<in> fst ` set (take_llo ats d). is_llo_attribute k"
    by (simp add: take_llo_def)
qed

lemma take_event_keys:
  assumes "\<forall>k \<in> fst ` set d. is_llo_attribute k"
  shows "\<forall>k \<in> fst ` set (take_event d ev). is_llo_attribute k"
proof (cases "is_llo_attribute (event_name ev)")
  case True
  then have "\<forall>k \<in> fst ` set (AList.update (event_name ev) v d). is_llo_attribute k" for v
    using assms by (simp only: keys_update ball_simps simp_thms)
  then show ?thesis unfolding take_event_def if_P [OF True] by (rule take_llo_keys)
next
  case False
  show ?thesis unfolding take_event_def if_not_P [OF False] by (rule take_llo_keys) (rule assms)
qed

lemma collected_keys: "\<forall>k \<in> fst ` set (collect_llo_attributes_from_span sp). is_llo_attribute k"
proof -
  have "\<forall>k \<in> fst ` set d. is_llo_attribute k \<Longrightarrow>
      \<forall>k \<in> fst ` set (foldl take_event d evs). is_llo_attribute k" for d evs
  proof (induction evs arbitrary: d)
    case Nil
    then show ?case by simp
  next
    case (Cons ev evs)
    from Cons.IH [OF take_event_keys [OF Cons.prems]] show ?case by simp
  qed
  moreover have "\<forall>k \<in> fst ` set (take_llo (span_attributes sp) []). is_llo_attribute k"
    by (rule take_llo_keys) simp
  ultimately show ?thesis by (simp only: collect_llo_attributes_from_span_def)
qed

lemma indexed_role_default:
  assumes "\<forall>k \<in> fst ` set llo. is_llo_attribute k" "find_indexed key = Some (k, c, i)"
  shows "indexed_role llo c i = Val (AStr (the (default_role c)))"
proof -
  obtain r where r: "(r, k, c) \<in> set regex_patterns" and i: "0 \<le> i"
    using find_indexed_nonneg [OF assms(2)] by blast
  let ?ds = "int_str i"
  have ds: "list_all is_dec ?ds" using i by (simp add: int_str_def nat_str_dec)
  have none: "map_of llo key' = None" if "\<not> is_llo_attribute key'" for key'
    using assms(1) that by (auto simp: map_of_eq_None_iff)
  note absent = role_key_plain [OF ds, THEN none]
  from r absent show ?thesis
    by (auto simp: regex_patterns_eq indexed_def indexed_role_def)
qed

lemma index_messages_roles:
  "\<forall>e \<in> set d. P (snd e) \<Longrightarrow>
   (\<And>key k c i v. find_indexed key = Some (k, c, i) \<Longrightarrow>
     P \<lparr>content = v, role = indexed_role llo c i, msg_source = source c\<rparr>) \<Longrightarrow>
   \<forall>e \<in> set (foldl (index_entry llo) d es). P (snd e)"
proof (induction es arbitrary: d)
  case Nil
  then show ?case by simp
next
  case (Cons e es)
  have step: "\<forall>x \<in> set (AList.update s m d). P (snd x)" if "P m" for s m
    using that Cons.prems(1) by (induction d) auto
  have "\<forall>x \<in> set (index_entry llo d e). P (snd x)"
  proof (cases "find_indexed (fst e)")
    case None
    then show ?thesis using Cons.prems(1) by (simp add: index_entry_def case_prod_beta)
  next
    case (Some m)
    obtain k c i where m: "m = (k, c, i)" by (cases m)
    show ?thesis
      unfolding index_entry_def case_prod_beta Some m option.case fst_conv snd_conv
      by (rule step) (rule Cons.prems(2), rule Some [unfolded m])
  qed
  from Cons.IH [OF this Cons.prems(2)] show ?case by simp
qed

text \<open>The roles recorded beside indexed texts are never used. Every message that an indexed attribute
  of a span contributes carries the default role of its pattern, whatever \<open>gen_ai.prompt.<i>.role\<close> and
  its kin say: the role attributes are looked up among the collected LLO attributes, where they never
  are. (In particular a system prompt sent as \<open>gen_ai.prompt.0.content\<close> is emitted with the role
  \<open>unknown\<close>.)\<close>

theorem indexed_roles_ignored:
  "\<forall>m \<in> set (collect_indexed_messages (collect_llo_attributes_from_span sp)).
     \<exists>r k c. (r, k, c) \<in> set regex_patterns \<and> msg_source m = source c
       \<and> role m = Val (AStr (the (default_role c)))"
proof -
  let ?llo = "collect_llo_attributes_from_span sp"
  let ?P = "\<lambda>m. \<exists>r k c. (r, k, c) \<in> set regex_patterns \<and> msg_source m = source c
       \<and> role m = Val (AStr (the (default_role c)))"
  let ?d = "foldl (index_entry ?llo) [] ?llo"
  have all: "\<forall>e \<in> set ?d. ?P (snd e)"
  proof (rule index_messages_roles)
    fix key k c i v assume f: "find_indexed key = Some (k, c, i)"
    obtain r where "(r, k, c) \<in> set regex_patterns" using find_indexed_nonneg [OF f] by blast
    with indexed_role_default [OF collected_keys f]
    show "?P \<lparr>content = v, role = indexed_role ?llo c i, msg_source = source c\<rparr>"
      by (intro exI [of _ r] exI [of _ k] exI [of _ c]) simp
  qed simp
  show ?thesis
  proof
    fix m assume "m \<in> set (collect_indexed_messages ?llo)"
    then obtain k where "k \<in> fst ` set ?d" "m = the (map_of ?d k)"
      by (auto simp: collect_indexed_messages_def Let_def)
    then obtain v where "map_of ?d k = Some v" "m = v"
      by (metis image_iff map_of_eq_None_iff not_None_eq option.sel)
    then have "(k, m) \<in> set ?d" by (simp add: map_of_SomeD)
    with all show "?P m" by fastforce
  qed
qed

theorem indexed_roles_ignored_witness:
  "\<exists>m. collect_indexed_messages (collect_llo_attributes_from_span demo_llo_span) = [m]
     \<and> role m = Val (AStr ''unknown'')"
proof -
  have one: "map content (collect_indexed_messages (collect_llo_attributes_from_span demo_llo_span))
      = [Val (AStr ''Hello'')]" by code_simp
  then obtain m where m: "collect_indexed_messages (collect_llo_attributes_from_span demo_llo_span) = [m]"
    by auto
  have "msg_source m = ''prompt''"
  proof -
    have "map msg_source (collect_indexed_messages (collect_llo_attributes_from_span demo_llo_span)) = [''prompt'']"
      by code_simp
    with m show ?thesis by simp
  qed
  with m indexed_roles_ignored [of demo_llo_span] show ?thesis
    by (auto simp: regex_patterns_eq indexed_def)
qed

end
