(* ===== verification/UdpExporter.thy ===== *)
theory UdpExporter
  imports Prelude "HOL-Library.Word"
begin

text \<open>
  The UDP exporters to the X-Ray daemon and the CloudWatch agent, \<open>otlp_udp_exporter.py\<close>: the endpoint
  text, the datagram with its base64 payload, and the results of an export. Bytes are 8-bit words.
  The OTLP encoder and the socket are parameters: the bytes of a batch, and what \<open>sendto\<close> raises for
  a datagram to an address, if anything.
\<close>

section \<open>Endpoint\<close>

definition default_endpoint :: string where "default_endpoint = ''127.0.0.1:2000''"

text \<open>\<open>_parse_endpoint\<close>: any failure (no port, not a number) is a \<open>ValueError\<close>.\<close>

definition parse_endpoint :: "string \<Rightarrow> (string \<times> int) res" where
  "parse_endpoint endpoint =
     (case py_split CHR '':'' endpoint of
        host # port # _ \<Rightarrow> (case py_int port of Some p \<Rightarrow> Inr (host, p) | None \<Rightarrow> Inl ValueError)
      | _ \<Rightarrow> Inl ValueError)"

record udp_exporter =
  udp_host :: string
  udp_port :: int

definition new_udp_exporter :: "string option \<Rightarrow> udp_exporter res" where
  "new_udp_exporter endpoint =
     bindr (parse_endpoint (case endpoint of Some (c # cs) \<Rightarrow> c # cs | _ \<Rightarrow> default_endpoint))
       (\<lambda>(host, port). Inr \<lparr>udp_host = host, udp_port = port\<rparr>)"

lemma endpoint_roundtrip:
  "CHR '':'' \<notin> set host \<Longrightarrow> parse_endpoint (host @ '':'' @ nat_str p) = Inr (host, int p)"
proof -
  assume host: "CHR '':'' \<notin> set host"
  have dec: "list_all is_dec (nat_str p)" by (rule nat_str_dec)
  have "CHR '':'' \<notin> set (nat_str p)"
    using dec by (auto simp: list_all_iff is_dec_def)
  then have "py_split CHR '':'' (host @ '':'' @ nat_str p) = [host, nat_str p]"
    using host by (simp add: py_split_append py_split_no_sep)
  then show ?thesis by (simp add: parse_endpoint_def py_int_nat_str)
qed

section \<open>Base64\<close>

definition b64_alphabet :: string where
  "b64_alphabet = ''ABCDEFGHIJKLMNOPQRSTUVWXYZabcdefghijklmnopqrstuvwxyz0123456789+/''"

definition b64_char :: "nat \<Rightarrow> char" where
  "b64_char n = b64_alphabet ! n"

text \<open>\<open>base64.b64encode\<close>: three bytes make four characters, the last group is padded.\<close>

fun b64encode :: "8 word list \<Rightarrow> string" where
  "b64encode [] = []"
| "b64encode [a] =
     [b64_char (unat a div 4), b64_char (unat a mod 4 * 16), CHR ''='', CHR ''='']"
| "b64encode [a, b] =
     [b64_char (unat a div 4), b64_char (unat a mod 4 * 16 + unat b div 16),
      b64_char (unat b mod 16 * 4), CHR ''='']"
| "b64encode (a # b # c # bs) =
     [b64_char (unat a div 4), b64_char (unat a mod 4 * 16 + unat b div 16),
      b64_char (unat b mod 16 * 4 + unat c div 64), b64_char (unat c mod 64)] @ b64encode bs"

text \<open>The decoder of the receiving agent, the specification the encoder is checked against.\<close>

definition b64_value :: "char \<Rightarrow> nat option" where
  "b64_value c = find (\<lambda>n. b64_char n = c) [0..<64]"

fun b64decode :: "string \<Rightarrow> 8 word list option" where
  "b64decode [] = Some []"
| "b64decode (w # x # y # z # cs) =
     Option.bind (b64_value w) (\<lambda>w'.
     Option.bind (b64_value x) (\<lambda>x'.
       if y = CHR ''='' then Some [of_nat (w' * 4 + x' div 16)]
       else Option.bind (b64_value y) (\<lambda>y'.
         if z = CHR ''='' then Some [of_nat (w' * 4 + x' div 16), of_nat (x' mod 16 * 16 + y' div 4)]
         else Option.bind (b64_value z) (\<lambda>z'.
           map_option (\<lambda>bs. of_nat (w' * 4 + x' div 16) # of_nat (x' mod 16 * 16 + y' div 4)
                             # of_nat (y' mod 4 * 64 + z') # bs) (b64decode cs)))))"
| "b64decode _ = None"

lemma b64_value_char: "n < 64 \<Longrightarrow> b64_value (b64_char n) = Some n"
proof -
  have "list_all (\<lambda>n. b64_value (b64_char n) = Some n) [0..<64]" by code_simp
  then show "n < 64 \<Longrightarrow> b64_value (b64_char n) = Some n" by (simp add: list_all_iff)
qed

lemma b64_char_no_pad: "n < 64 \<Longrightarrow> b64_char n \<noteq> CHR ''=''"
proof -
  have "list_all (\<lambda>n. b64_char n \<noteq> CHR ''='') [0..<64]" by code_simp
  then show "n < 64 \<Longrightarrow> b64_char n \<noteq> CHR ''=''" by (simp add: list_all_iff)
qed

lemma byte_bound: "unat (a :: 8 word) < 256"
  using unsigned_less [of a] by simp

lemma decode_one: "w < 64 \<Longrightarrow> x < 64 \<Longrightarrow>
    b64decode [b64_char w, b64_char x, CHR ''='', CHR ''=''] = Some [of_nat (w * 4 + x div 16)]"
  by (simp add: b64_value_char)

lemma decode_two: "w < 64 \<Longrightarrow> x < 64 \<Longrightarrow> y < 64 \<Longrightarrow>
    b64decode [b64_char w, b64_char x, b64_char y, CHR ''='']
      = Some [of_nat (w * 4 + x div 16), of_nat (x mod 16 * 16 + y div 4)]"
  by (simp add: b64_value_char b64_char_no_pad)

lemma decode_three: "w < 64 \<Longrightarrow> x < 64 \<Longrightarrow> y < 64 \<Longrightarrow> z < 64 \<Longrightarrow>
    b64decode (b64_char w # b64_char x # b64_char y # b64_char z # cs)
      = map_option (\<lambda>bs. of_nat (w * 4 + x div 16) # of_nat (x mod 16 * 16 + y div 4)
                        # of_nat (y mod 4 * 64 + z) # bs) (b64decode cs)"
  by (simp add: b64_value_char b64_char_no_pad)

text \<open>The bytes are put together again from the pieces of the characters.\<close>

lemma pieces:
  fixes a b c :: nat
  assumes "a < 256" "b < 256" "c < 256"
  shows "a div 4 < 64" "a mod 4 * 16 < 64" "a mod 4 * 16 + b div 16 < 64" "b mod 16 * 4 < 64"
    "b mod 16 * 4 + c div 64 < 64" "c mod 64 < 64"
    and "a div 4 * 4 + a mod 4 * 16 div 16 = a"
    and "a div 4 * 4 + (a mod 4 * 16 + b div 16) div 16 = a"
    and "(a mod 4 * 16 + b div 16) mod 16 * 16 + b mod 16 * 4 div 4 = b"
    and "(a mod 4 * 16 + b div 16) mod 16 * 16 + (b mod 16 * 4 + c div 64) div 4 = b"
    and "(b mod 16 * 4 + c div 64) mod 4 * 64 + c mod 64 = c"
  using assms by auto

lemma b64decode_encode: "b64decode (b64encode bs) = Some bs"
proof (induction bs rule: b64encode.induct)
  case 1
  then show ?case by simp
next
  case (2 a)
  note p = pieces [OF byte_bound [of a] byte_bound [of a] byte_bound [of a]]
  show ?case by (simp only: b64encode.simps decode_one [OF p(1,2)] p) simp
next
  case (3 a b)
  note p = pieces [OF byte_bound [of a] byte_bound [of b] byte_bound [of b]]
  show ?case by (simp only: b64encode.simps decode_two [OF p(1,3,4)] p) simp
next
  case (4 a b c bs)
  note p = pieces [OF byte_bound [of a] byte_bound [of b] byte_bound [of c]]
  show ?case by (simp only: b64encode.simps append.simps decode_three [OF p(1,3,5,6)] p 4) simp
qed

section \<open>Datagrams\<close>

definition protocol_header :: string where
  "protocol_header = [CHR 0x7B, CHR 0x22] @ ''format'' @ [CHR 0x22] @ '':'' @ [CHR 0x22] @ ''json''
     @ [CHR 0x22] @ '','' @ [CHR 0x22] @ ''version'' @ [CHR 0x22] @ '':1'' @ [CHR 0x7D, CHR 0x0A]"

definition format_otel_metrics_binary_prefix :: string where
  "format_otel_metrics_binary_prefix = ''M1''"
definition format_otel_sampled_traces_binary_prefix :: string where
  "format_otel_sampled_traces_binary_prefix = ''T1S''"
definition format_otel_unsampled_traces_binary_prefix :: string where
  "format_otel_unsampled_traces_binary_prefix = ''T1U''"

definition datagram :: "string \<Rightarrow> 8 word list \<Rightarrow> string" where
  "datagram signal_format_prefix data = protocol_header @ signal_format_prefix @ b64encode data"

type_synonym socket = "string \<Rightarrow> string \<times> int \<Rightarrow> exn option"

definition send_data :: "socket \<Rightarrow> udp_exporter \<Rightarrow> 8 word list \<Rightarrow> string \<Rightarrow> unit res" where
  "send_data sendto x data signal_format_prefix =
     (case sendto (datagram signal_format_prefix data) (udp_host x, udp_port x) of
        None \<Rightarrow> Inr () | Some e \<Rightarrow> Inl e)"

datatype udp_result = SUCCESS | FAILURE

text \<open>The encoder runs outside the \<open>try\<close>: what it raises escapes.\<close>

definition export_data :: "socket \<Rightarrow> udp_exporter \<Rightarrow> string \<Rightarrow> 8 word list res \<Rightarrow> udp_result res" where
  "export_data sendto x signal_format_prefix serialized_data =
     bindr serialized_data (\<lambda>data.
       case send_data sendto x data signal_format_prefix of
         Inr u \<Rightarrow> Inr SUCCESS | Inl e \<Rightarrow> Inr FAILURE)"

definition metric_export :: "socket \<Rightarrow> udp_exporter \<Rightarrow> 8 word list res \<Rightarrow> udp_result res" where
  "metric_export sendto x = export_data sendto x format_otel_metrics_binary_prefix"

definition span_export :: "socket \<Rightarrow> udp_exporter \<Rightarrow> bool \<Rightarrow> 8 word list res \<Rightarrow> udp_result res" where
  "span_export sendto x is_sampled =
     export_data sendto x
       (if is_sampled then format_otel_sampled_traces_binary_prefix
        else format_otel_unsampled_traces_binary_prefix)"

text \<open>What the agent reads off a datagram: the kind of the signal and its bytes.\<close>

datatype signal = Metrics | SampledTraces | UnsampledTraces

definition signal_prefix :: "signal \<Rightarrow> string" where
  "signal_prefix g =
     (case g of Metrics \<Rightarrow> format_otel_metrics_binary_prefix
      | SampledTraces \<Rightarrow> format_otel_sampled_traces_binary_prefix
      | UnsampledTraces \<Rightarrow> format_otel_unsampled_traces_binary_prefix)"

definition receive :: "string \<Rightarrow> (signal \<times> 8 word list) option" where
  "receive s =
     (if prefix protocol_header s
      then let rest = drop (length protocol_header) s
           in case find (\<lambda>g. prefix (signal_prefix g) rest) [Metrics, SampledTraces, UnsampledTraces] of
                None \<Rightarrow> None
              | Some g \<Rightarrow> map_option (Pair g) (b64decode (drop (length (signal_prefix g)) rest))
      else None)"

lemma receive_datagram: "receive (datagram (signal_prefix g) data) = Some (g, data)"
proof -
  have "find (\<lambda>h. prefix (signal_prefix h) (signal_prefix g @ s)) [Metrics, SampledTraces, UnsampledTraces] = Some g"
    for s
    by (cases g)
       (simp_all add: signal_prefix_def format_otel_metrics_binary_prefix_def
          format_otel_sampled_traces_binary_prefix_def format_otel_unsampled_traces_binary_prefix_def)
  then show ?thesis by (simp add: receive_def datagram_def b64decode_encode)
qed

text \<open>C18: The datagram says what was exported. An export of metrics, or of sampled or unsampled spans, that
  reports success has sent one datagram to the configured address from which the receiver reads back
  the kind of the signal and exactly the encoded bytes; a socket error makes it report failure and
  never escapes, while an exception of the encoder does.\<close>

theorem udp_export_roundtrip:
  "(metric_export sendto x (Inr data) = Inr SUCCESS \<longleftrightarrow>
      (\<exists>s. receive s = Some (Metrics, data) \<and> s = datagram ''M1'' data \<and> sendto s (udp_host x, udp_port x) = None))
   \<and> (span_export sendto x b (Inr data) = Inr SUCCESS \<longleftrightarrow>
      (\<exists>s. receive s = Some (if b then SampledTraces else UnsampledTraces, data)
         \<and> s = datagram (if b then ''T1S'' else ''T1U'') data \<and> sendto s (udp_host x, udp_port x) = None))
   \<and> (\<exists>r. metric_export sendto x (Inr data) = Inr r) \<and> (\<exists>r. span_export sendto x b (Inr data) = Inr r)
   \<and> metric_export sendto x (Inl e) = Inl e \<and> span_export sendto x b (Inl e) = Inl e"
  using receive_datagram [of Metrics data] receive_datagram [of SampledTraces data]
    receive_datagram [of UnsampledTraces data]
  by (auto simp: metric_export_def span_export_def export_data_def send_data_def signal_prefix_def
      format_otel_metrics_binary_prefix_def format_otel_sampled_traces_binary_prefix_def
      format_otel_unsampled_traces_binary_prefix_def split: option.splits)

end
