(* ===== verification/Configurator.thy ===== *)
theory Configurator
  imports Json UdpExporter
begin

text \<open>
  \<open>aws_opentelemetry_configurator.py\<close>: the decisions that assemble the pipelines of the distribution
  from the environment variables. What the code builds is described by data: samplers, exporters, span
  processors, log processors, metric readers and views. The environment is a dictionary, passed on
  where the code changes it.

  What the SDK resolves (the exporters named by the environment, \<open>_import_sampler\<close>, the id generator,
  the resource detectors, \<open>float(text)\<close> and whether botocore is installed) is the record \<open>sdk_platform\<close>.
\<close>

type_synonym env = "(string \<times> string) list"

definition getenv :: "env \<Rightarrow> string \<Rightarrow> string option" where
  "getenv e name = map_of e name"

definition getenv_or :: "env \<Rightarrow> string \<Rightarrow> string \<Rightarrow> string" where
  "getenv_or e name other = (case map_of e name of Some v \<Rightarrow> v | None \<Rightarrow> other)"

definition is_true :: "string \<Rightarrow> bool" where
  "is_true s \<longleftrightarrow> py_lower s = ''true''"

section \<open>Flags\<close>

definition agent_observability :: "env \<Rightarrow> bool" where
  "agent_observability e \<longleftrightarrow> is_agent_observability_enabled \<lparr>environ = e, str_of = (\<lambda>v. [])\<rparr>"

definition is_defer_to_workers_enabled :: "env \<Rightarrow> bool" where
  "is_defer_to_workers_enabled e \<longleftrightarrow>
     is_true (py_strip (getenv_or e ''OTEL_AWS_PYTHON_DEFER_TO_WORKERS_ENABLED'' ''false''))"

definition is_wsgi_master_process :: "env \<Rightarrow> bool \<times> env" where
  "is_wsgi_master_process e =
     (if is_true (getenv_or e ''IS_WSGI_MASTER_PROCESS_ALREADY_SEEN'' ''false'') then (False, e)
      else (True, AList.update ''IS_WSGI_MASTER_PROCESS_ALREADY_SEEN'' ''true'' e))"

definition is_application_signals_enabled :: "env \<Rightarrow> bool" where
  "is_application_signals_enabled e \<longleftrightarrow>
     is_true (getenv_or e ''OTEL_AWS_APPLICATION_SIGNALS_ENABLED''
       (getenv_or e ''OTEL_AWS_APP_SIGNALS_ENABLED'' ''false''))"

definition is_application_signals_runtime_enabled :: "env \<Rightarrow> bool" where
  "is_application_signals_runtime_enabled e \<longleftrightarrow>
     is_application_signals_enabled e
     \<and> is_true (getenv_or e ''OTEL_AWS_APPLICATION_SIGNALS_RUNTIME_ENABLED'' ''true'')"

definition is_enhanced_code_attributes :: "env \<Rightarrow> bool" where
  "is_enhanced_code_attributes e \<longleftrightarrow>
     is_true (py_strip (getenv_or e ''OTEL_AWS_EXPERIMENTAL_CODE_ATTRIBUTES'' ''false''))"

definition is_lambda_environment :: "env \<Rightarrow> bool" where
  "is_lambda_environment e \<longleftrightarrow> ''AWS_LAMBDA_FUNCTION_NAME'' \<in> fst ` set e"

definition span_export_batch_size :: "env \<Rightarrow> int option" where
  "span_export_batch_size e = (if is_lambda_environment e then Some 10 else None)"

definition default_metric_export_interval :: rat where
  "default_metric_export_interval = 60000"

text \<open>\<open>float(text)\<close> is a parameter; \<open>None\<close> is its \<open>ValueError\<close>.\<close>

definition get_metric_export_interval :: "(string \<Rightarrow> rat option) \<Rightarrow> env \<Rightarrow> rat res" where
  "get_metric_export_interval to_float e =
     (case (case getenv e ''OTEL_METRIC_EXPORT_INTERVAL'' of
              Some s \<Rightarrow> to_float s | None \<Rightarrow> Some default_metric_export_interval) of
        None \<Rightarrow> Inl ValueError
      | Some v \<Rightarrow> Inr (if v > default_metric_export_interval then default_metric_export_interval else v))"

section \<open>Environment changes\<close>

definition joined_urls :: "string \<Rightarrow> string" where
  "joined_urls urls =
     (if urls \<noteq> [] then py_join '','' [urls, ''SamplingTargets,GetSamplingRules'']
      else ''SamplingTargets,GetSamplingRules'')"

text \<open>\<open>os.environ.pop(name, "")\<close> and \<open>setdefault\<close>.\<close>

definition env_pop :: "string \<Rightarrow> env \<Rightarrow> string \<times> env" where
  "env_pop name e = (getenv_or e name [], AList.delete name e)"

definition env_setdefault :: "string \<Rightarrow> string \<Rightarrow> env \<Rightarrow> env" where
  "env_setdefault name v e = (if name \<in> fst ` set e then e else AList.update name v e)"

definition exclude_urls_for_instrumentations :: "env \<Rightarrow> env" where
  "exclude_urls_for_instrumentations e =
     (let (requests_urls, e1) = env_pop ''OTEL_PYTHON_REQUESTS_EXCLUDED_URLS'' e;
          (urllib3_urls, e2) = env_pop ''OTEL_PYTHON_URLLIB3_EXCLUDED_URLS'' e1;
          requests_excluded_urls = joined_urls requests_urls;
          urllib3_excluded_urls = joined_urls urllib3_urls;
          e3 = env_setdefault ''OTEL_PYTHON_URLLIB3_EXCLUDED_URLS'' requests_excluded_urls e2
      in env_setdefault ''OTEL_PYTHON_REQUESTS_EXCLUDED_URLS'' urllib3_excluded_urls e3)"

text \<open>\<open>list.remove\<close> takes out the first occurrence only.\<close>

definition check_emf_exporter_enabled :: "env \<Rightarrow> bool \<times> env" where
  "check_emf_exporter_enabled e =
     (let exporter_value = getenv_or e ''OTEL_METRICS_EXPORTER'' []
      in if exporter_value = [] then (False, e)
         else
           let exporters = map py_strip (py_split CHR '','' exporter_value)
           in if ''awsemf'' \<notin> set exporters then (False, e)
              else
                let new_value = py_join '','' (remove1 ''awsemf'' exporters)
                in (True, if new_value \<noteq> [] then AList.update ''OTEL_METRICS_EXPORTER'' new_value e
                          else AList.delete ''OTEL_METRICS_EXPORTER'' e))"

section \<open>Samplers\<close>

datatype sampler = XRayRemote "string option" "int option" | Imported string | AlwaysRecord sampler

text \<open>\<open>endpoint\<close> and \<open>polling_interval\<close> out of \<open>OTEL_TRACES_SAMPLER_ARG\<close>; the last setting wins.\<close>

definition sampler_arg ::
    "string option \<times> int option \<Rightarrow> string \<Rightarrow> string option \<times> int option" where
  "sampler_arg = (\<lambda>(endpoint, polling_interval) arg.
     case py_split1 CHR ''='' arg of
       [key, v] \<Rightarrow>
         if key = ''endpoint'' then (Some v, polling_interval)
         else if key = ''polling_interval''
         then (case py_int v of Some n \<Rightarrow> (endpoint, Some n) | None \<Rightarrow> (endpoint, polling_interval))
         else (endpoint, polling_interval)
     | _ \<Rightarrow> (endpoint, polling_interval))"

definition custom_import_sampler :: "string option \<Rightarrow> env \<Rightarrow> sampler \<times> env" where
  "custom_import_sampler sampler_name e =
     (let name = (case sampler_name of Some n \<Rightarrow> n | None \<Rightarrow> ''parentbased_always_on'')
      in if name = ''xray''
         then (let (endpoint, polling_interval) =
                     (case getenv e ''OTEL_TRACES_SAMPLER_ARG'' of
                        None \<Rightarrow> (None, None)
                      | Some args \<Rightarrow> foldl sampler_arg (None, None) (py_split CHR '','' args))
               in (XRayRemote endpoint polling_interval, exclude_urls_for_instrumentations e))
         else (Imported name, e))"

definition customize_sampler :: "env \<Rightarrow> sampler \<Rightarrow> sampler" where
  "customize_sampler e s = (if \<not> is_application_signals_enabled e then s else AlwaysRecord s)"

section \<open>AWS endpoints and log headers\<close>

definition region_char :: "char \<Rightarrow> bool" where
  "region_char c \<longleftrightarrow> 97 \<le> ord c \<and> ord c \<le> 122 \<or> is_dec c \<or> c = CHR ''-''"

text \<open>
  \<open>re.match\<close> of \<open>https://<host>\.([a-z0-9-]+)\.amazonaws\.com<path>$\<close>; the dollar also matches before a
  final line feed.
\<close>

definition otlp_pattern_match :: "string \<Rightarrow> string \<Rightarrow> string \<Rightarrow> bool" where
  "otlp_pattern_match host route s \<longleftrightarrow>
     (let before = ''https://'' @ host @ ''.''
      in prefix before s
         \<and> (let rest = drop (length before) s; tail = dropWhile region_char rest
            in takeWhile region_char rest \<noteq> []
               \<and> tail \<in> {''.amazonaws.com'' @ route, ''.amazonaws.com'' @ route @ [CHR 0x0A]}))"

definition is_aws_otlp_endpoint :: "string option \<Rightarrow> string \<Rightarrow> bool" where
  "is_aws_otlp_endpoint otlp_endpoint service \<longleftrightarrow>
     (case otlp_endpoint of
        None \<Rightarrow> False
      | Some s \<Rightarrow>
          s \<noteq> []
          \<and> (if service = ''xray'' then otlp_pattern_match ''xray'' ''/v1/traces'' (py_lower s)
             else otlp_pattern_match ''logs'' ''/v1/logs'' (py_lower s)))"

definition extract_endpoint_and_region :: "string \<Rightarrow> (string \<times> string) res" where
  "extract_endpoint_and_region endpoint =
     (let lower = py_lower endpoint
      in case py_split CHR ''.'' lower of
           _ # region # _ \<Rightarrow> Inr (lower, region)
         | _ \<Rightarrow> Inl IndexError)"

record log_header_setting =
  log_group :: "string option"
  log_stream :: "string option"
  namespace :: "string option"

definition header_valid :: "log_header_setting \<Rightarrow> bool" where
  "header_valid h \<longleftrightarrow> log_group h \<noteq> None \<and> log_stream h \<noteq> None"

definition header_pair :: "log_header_setting \<Rightarrow> string \<Rightarrow> log_header_setting" where
  "header_pair h pair =
     (case py_split1 CHR ''='' pair of
        [key, v] \<Rightarrow>
          if key = ''x-aws-log-group'' \<and> v \<noteq> [] then h\<lparr>log_group := Some v\<rparr>
          else if key = ''x-aws-log-stream'' \<and> v \<noteq> [] then h\<lparr>log_stream := Some v\<rparr>
          else if key = ''x-aws-metric-namespace'' \<and> v \<noteq> [] then h\<lparr>namespace := Some v\<rparr>
          else h
      | _ \<Rightarrow> h)"

definition no_header :: log_header_setting where
  "no_header = \<lparr>log_group = None, log_stream = None, namespace = None\<rparr>"

text \<open>The setting is computed once; later calls return the cached one.\<close>

definition fetch_logs_header ::
    "env \<Rightarrow> log_header_setting option \<Rightarrow> log_header_setting \<times> log_header_setting option" where
  "fetch_logs_header e cache =
     (case cache of
        Some h \<Rightarrow> (h, cache)
      | None \<Rightarrow>
          (let h = (case getenv e ''OTEL_EXPORTER_OTLP_LOGS_HEADERS'' of
                      Some (c # cs) \<Rightarrow> foldl header_pair no_header (py_split CHR '','' (c # cs))
                    | _ \<Rightarrow> no_header)
           in (h, Some h)))"

section \<open>Exporters\<close>

datatype span_exporter = OtlpHttpSpans | OtherSpans string | UdpSpans string bool
  | AwsSpans string string bool | MetricAttributes span_exporter

datatype log_exporter = OtlpHttpLogs | ConsoleLogs | CompactConsoleLogs | OtherLogs string
  | AwsLogs string

datatype emf_exporter = ConsoleEmf "string option" | CloudWatchEmf "string option" string string

datatype signals_exporter = SignalsHttp string | SignalsGrpc string

text \<open>
  The SDK and the installed packages: the exporters and readers the environment names, the name of the
  sampler, whether botocore is installed (then a session exists) and whether making the log and span
  exporters works (an exception there is caught). \<open>create_resource\<close> aggregates the detected resource (with
  the EC2, EKS and ECS detectors or without) and merges the given attributes into it.
\<close>

record sdk_platform =
  import_span_exporters :: "env \<Rightarrow> span_exporter list"
  import_metric_readers :: "env \<Rightarrow> string list"
  import_log_exporters :: "env \<Rightarrow> log_exporter list"
  get_sampler :: "env \<Rightarrow> string option"
  botocore_installed :: bool
  exporters_work :: bool
  parse_float :: "string \<Rightarrow> rat option"
  distro_version :: string
  create_resource :: "bool \<Rightarrow> attrs \<Rightarrow> attrs"

text \<open>\<open>_create_aws_otlp_exporter\<close>: for spans, and for logs (which take neither endpoint nor headers).\<close>

definition create_aws_span_exporter :: "sdk_platform \<Rightarrow> env \<Rightarrow> string \<Rightarrow> string \<Rightarrow> span_exporter option" where
  "create_aws_span_exporter pf e endpoint region =
     (if \<not> botocore_installed pf \<or> \<not> exporters_work pf then None
      else Some (AwsSpans endpoint region (agent_observability e)))"

definition create_aws_log_exporter :: "sdk_platform \<Rightarrow> string \<Rightarrow> log_exporter option" where
  "create_aws_log_exporter pf region =
     (if \<not> botocore_installed pf \<or> \<not> exporters_work pf then None else Some (AwsLogs region))"

text \<open>The address of the X-Ray daemon.\<close>

definition daemon_address :: "env \<Rightarrow> string" where
  "daemon_address e = getenv_or e ''AWS_XRAY_DAEMON_ADDRESS'' ''127.0.0.1:2000''"

text \<open>\<open>_customize_span_exporter\<close>; the result may be \<open>None\<close>.\<close>

definition customize_span_exporter ::
    "sdk_platform \<Rightarrow> env \<Rightarrow> span_exporter \<Rightarrow> span_exporter option res" where
  "customize_span_exporter pf e span_exporter =
     (let traces_endpoint = getenv e ''OTEL_EXPORTER_OTLP_TRACES_ENDPOINT'';
          udp = is_lambda_environment e \<and> span_exporter = OtlpHttpSpans \<and> traces_endpoint = None;
          traces_endpoint' = (if udp then Some (daemon_address e) else traces_endpoint);
          exporter' = (if udp then UdpSpans (daemon_address e) True else span_exporter);
          usual = bindr (if udp then new_udp_exporter traces_endpoint'
                         else Inr \<lparr>udp_host = [], udp_port = 0\<rparr>) (\<lambda>_.
            Inr (Some (if is_application_signals_enabled e then MetricAttributes exporter' else exporter')))
      in if is_aws_otlp_endpoint traces_endpoint' ''xray'' \<and> exporter' = OtlpHttpSpans
         then bindr (extract_endpoint_and_region (the traces_endpoint')) (\<lambda>(endpoint, region).
                Inr (create_aws_span_exporter pf e endpoint region))
         else usual)"

definition customize_logs_exporter ::
    "sdk_platform \<Rightarrow> env \<Rightarrow> log_header_setting option \<Rightarrow> log_exporter
      \<Rightarrow> log_exporter option res \<times> log_header_setting option" where
  "customize_logs_exporter pf e cache log_exporter =
     (let logs_endpoint = getenv e ''OTEL_EXPORTER_OTLP_LOGS_ENDPOINT''
      in if is_aws_otlp_endpoint logs_endpoint ''logs'' \<and> log_exporter = OtlpHttpLogs
         then (let (h, cache') = fetch_logs_header e cache
               in if header_valid h
                  then (bindr (extract_endpoint_and_region (the logs_endpoint)) (\<lambda>(endpoint, region).
                          Inr (create_aws_log_exporter pf region)), cache')
                  else (Inr (Some log_exporter), cache'))
         else (Inr (Some log_exporter), cache))"

definition create_emf_exporter ::
    "sdk_platform \<Rightarrow> env \<Rightarrow> log_header_setting option \<Rightarrow> emf_exporter option \<times> log_header_setting option" where
  "create_emf_exporter pf e cache =
     (let (h, cache') = fetch_logs_header e cache
      in (if is_lambda_environment e \<and> \<not> header_valid h then Some (ConsoleEmf (namespace h))
          else if \<not> botocore_installed pf then None
          else if \<not> header_valid h then None
          else if \<not> exporters_work pf then None
          else Some (CloudWatchEmf (namespace h) (the (log_group h)) (the (log_stream h))), cache'))"

definition create_signals_exporter :: "env \<Rightarrow> signals_exporter res" where
  "create_signals_exporter e =
     (let protocol = getenv_or e ''OTEL_EXPORTER_OTLP_METRICS_PROTOCOL''
            (getenv_or e ''OTEL_EXPORTER_OTLP_PROTOCOL'' ''http/protobuf'');
          endpoint = (\<lambda>other. getenv_or e ''OTEL_AWS_APPLICATION_SIGNALS_EXPORTER_ENDPOINT''
            (getenv_or e ''OTEL_AWS_APP_SIGNALS_EXPORTER_ENDPOINT'' other))
      in if protocol = ''http/protobuf'' then Inr (SignalsHttp (endpoint ''http://localhost:4316/v1/metrics''))
         else if protocol = ''grpc'' then Inr (SignalsGrpc (endpoint ''localhost:4315''))
         else Inl RuntimeError)"

section \<open>Pipelines\<close>

datatype span_processor = BatchSpans "span_exporter option" "int option" | CodeAttributes
  | LambdaSpans | BatchUnsampled "span_exporter option" "int option" | SessionBaggage
  | AttributePropagating | SpanMetrics signals_exporter rat

datatype log_processor = AwsCloudWatchBatch log_exporter | BatchLogs log_exporter

datatype metric_reader = Periodic string | ScopeBased signals_exporter rat "string set" | EmfReader emf_exporter

datatype view = LastValueView string string | RetainScope string

definition system_metrics_scope :: string where
  "system_metrics_scope = ''opentelemetry.instrumentation.system_metrics''"

text \<open>\<open>_export_unsampled_span_for_agent_observability\<close> and \<open>_export_unsampled_span_for_lambda\<close>.\<close>

definition unsampled_for_agent_observability :: "sdk_platform \<Rightarrow> env \<Rightarrow> span_processor list res" where
  "unsampled_for_agent_observability pf e =
     (if \<not> agent_observability e then Inr []
      else let traces_endpoint = getenv e ''OTEL_EXPORTER_OTLP_TRACES_ENDPOINT''
           in if is_aws_otlp_endpoint traces_endpoint ''xray''
              then bindr (extract_endpoint_and_region (the traces_endpoint)) (\<lambda>(endpoint, region).
                     Inr [BatchUnsampled (create_aws_span_exporter pf e endpoint region) None])
              else Inr [])"

definition unsampled_for_lambda :: "env \<Rightarrow> span_processor list res" where
  "unsampled_for_lambda e =
     (if \<not> is_application_signals_enabled e then Inr []
      else if \<not> is_lambda_environment e then Inr []
      else bindr (new_udp_exporter (Some (daemon_address e))) (\<lambda>_.
             Inr [BatchUnsampled (Some (MetricAttributes (UdpSpans (daemon_address e) False))) (Some 10)]))"

definition customize_span_processors :: "sdk_platform \<Rightarrow> env \<Rightarrow> span_processor list res" where
  "customize_span_processors pf e =
     (let ps1 = (if is_enhanced_code_attributes e then [CodeAttributes] else [])
                @ (if is_lambda_environment e then [LambdaSpans] else [])
      in bindr (if agent_observability e
                then bindr (unsampled_for_agent_observability pf e) (\<lambda>ps. Inr (ps @ [SessionBaggage]))
                else Inr []) (\<lambda>ps2.
           if \<not> is_application_signals_enabled e then Inr (ps1 @ ps2)
           else if is_lambda_environment e
           then bindr (unsampled_for_lambda e) (\<lambda>ps3. Inr (ps1 @ ps2 @ [AttributePropagating] @ ps3))
           else bindr (create_signals_exporter e) (\<lambda>exporter.
                bindr (get_metric_export_interval (parse_float pf) e) (\<lambda>interval.
                  Inr (ps1 @ ps2 @ [AttributePropagating, SpanMetrics exporter interval])))))"

definition init_tracing :: "sdk_platform \<Rightarrow> env \<Rightarrow> span_exporter list \<Rightarrow> span_processor list res" where
  "init_tracing pf e exporters =
     bindr (map_res (customize_span_exporter pf e) exporters) (\<lambda>span_exporters.
     bindr (customize_span_processors pf e) (\<lambda>ps.
       Inr (map (\<lambda>x. BatchSpans x (span_export_batch_size e)) span_exporters @ ps)))"

definition runtime_metric_views :: "bool \<Rightarrow> view list" where
  "runtime_metric_views retain_runtime_only =
     map (\<lambda>n. LastValueView n system_metrics_scope)
       [''system.network.connections'', ''process.open_file_descriptor.count'',
        ''process.runtime.*.memory'', ''process.runtime.*.gc_count'', ''process.runtime.*.thread_count'']
     @ (if retain_runtime_only then [RetainScope system_metrics_scope] else [])"

definition customize_metric_exporters ::
    "sdk_platform \<Rightarrow> env \<Rightarrow> log_header_setting option \<Rightarrow> bool \<Rightarrow> metric_reader list
      \<Rightarrow> (metric_reader list \<times> view list) res \<times> log_header_setting option" where
  "customize_metric_exporters pf e cache is_emf_enabled readers =
     (let with_emf = (\<lambda>readers views.
            if is_emf_enabled
            then (let (exporter, cache') = create_emf_exporter pf e cache
                  in (Inr (readers @ (case exporter of Some x \<Rightarrow> [EmfReader x] | None \<Rightarrow> []), views), cache'))
            else (Inr (readers, views), cache))
      in if is_application_signals_runtime_enabled e
         then (case bindr (create_signals_exporter e) (\<lambda>exporter.
                      bindr (get_metric_export_interval (parse_float pf) e) (\<lambda>interval.
                        Inr (ScopeBased exporter interval {system_metrics_scope}))) of
                 Inl error \<Rightarrow> (Inl error, cache)
               | Inr reader \<Rightarrow> with_emf (readers @ [reader]) (runtime_metric_views (readers = [])))
         else with_emf readers [])"

definition init_metrics ::
    "sdk_platform \<Rightarrow> env \<Rightarrow> log_header_setting option \<Rightarrow> bool \<Rightarrow> string list
      \<Rightarrow> (metric_reader list \<times> view list) res \<times> log_header_setting option" where
  "init_metrics pf e cache is_emf_enabled exporters_or_readers =
     customize_metric_exporters pf e cache is_emf_enabled (map Periodic exporters_or_readers)"

definition customize_log_record_processor :: "env \<Rightarrow> log_exporter option \<Rightarrow> log_processor list" where
  "customize_log_record_processor e log_exporter =
     (case log_exporter of
        None \<Rightarrow> []
      | Some x \<Rightarrow> [if agent_observability e then AwsCloudWatchBatch x else BatchLogs x])"

fun init_logging ::
    "sdk_platform \<Rightarrow> env \<Rightarrow> log_header_setting option \<Rightarrow> log_exporter list \<Rightarrow> log_processor list res" where
  "init_logging pf e cache [] = Inr []"
| "init_logging pf e cache (x # xs) =
     (let x' = (if x = ConsoleLogs \<and> is_lambda_environment e then CompactConsoleLogs else x);
          (exporter, cache') = customize_logs_exporter pf e cache x'
      in bindr exporter (\<lambda>log_exporter.
         bindr (init_logging pf e cache' xs) (\<lambda>ps.
           Inr (customize_log_record_processor e log_exporter @ ps))))"

text \<open>\<open>_customize_resource\<close> and \<open>_customize_versions\<close>; \<open>Resource.merge\<close> lets the new attributes win.\<close>

definition customize_versions :: "string \<Rightarrow> attrs \<Rightarrow> attrs" where
  "customize_versions installed auto_resource =
     AList.update ''telemetry.auto.version'' (AStr (installed @ ''-aws'')) auto_resource"

definition customize_resource :: "env \<Rightarrow> attrs \<Rightarrow> attrs res" where
  "customize_resource e res =
     bindr (get_service_attribute res) (\<lambda>(service_name, is_unknown).
       let local = [(''aws.local.service'', AStr service_name)];
           custom = (if agent_observability e \<and> map_of res ''aws.service.type'' = None
                     then local @ [(''aws.service.type'', AStr ''gen_ai_agent'')] else local)
       in Inr (foldl (\<lambda>d (k, v). AList.update k v d) res custom))"

text \<open>
  \<open>_initialize_components\<close>. The steps run in order and the first exception ends the initialisation; the
  environment is returned as it is then.
\<close>

record components =
  tracer_sampler :: sampler
  tracer_resource :: attrs
  span_processors :: "span_processor list"
  metric_readers :: "metric_reader list"
  metric_views :: "view list"
  log_processors :: "log_processor list option"

definition initialize_components ::
    "sdk_platform \<Rightarrow> log_header_setting option \<Rightarrow> env \<Rightarrow> components res \<times> env" where
  "initialize_components pf cache e0 =
     (let (is_emf_enabled, e1) = check_emf_exporter_enabled e0;
          spans = import_span_exporters pf e1;
          readers = import_metric_readers pf e1;
          logs = import_log_exporters pf e1;
          detected = create_resource pf (\<not> (is_lambda_environment e1 \<or> agent_observability e1))
            (customize_versions (distro_version pf) [])
      in case customize_resource e1 detected of
           Inl error \<Rightarrow> (Inl error, e1)
         | Inr resource' \<Rightarrow>
             (let (sampler, e2) = custom_import_sampler (get_sampler pf e1) e1
              in case init_tracing pf e2 spans of
                   Inl error \<Rightarrow> (Inl error, e2)
                 | Inr processors \<Rightarrow>
                     (case init_metrics pf e2 cache is_emf_enabled readers of
                        (Inl error, cache') \<Rightarrow> (Inl error, e2)
                      | (Inr (readers', views), cache') \<Rightarrow>
                          (let finish = (\<lambda>ls. \<lparr>tracer_sampler = customize_sampler e2 sampler,
                                 tracer_resource = resource', span_processors = processors,
                                 metric_readers = readers', metric_views = views, log_processors = ls\<rparr>)
                           in if is_true (py_strip (getenv_or e2
                                   ''OTEL_PYTHON_LOGGING_AUTO_INSTRUMENTATION_ENABLED'' ''false''))
                              then (case init_logging pf e2 cache' logs of
                                      Inl error \<Rightarrow> (Inl error, e2)
                                    | Inr ls \<Rightarrow> (Inr (finish (Some ls)), e2))
                              else (Inr (finish None), e2)))))"

text \<open>\<open>_configure\<close>: nothing at all in a WSGI master process that defers to its workers.\<close>

definition configure ::
    "sdk_platform \<Rightarrow> log_header_setting option \<Rightarrow> env \<Rightarrow> components option res \<times> env" where
  "configure pf cache e =
     (if is_defer_to_workers_enabled e
      then (let (master, e') = is_wsgi_master_process e
            in if master then (Inr None, e')
               else case initialize_components pf cache e' of
                      (r, e'') \<Rightarrow> (bindr r (\<lambda>c. Inr (Some c)), e''))
      else case initialize_components pf cache e of
             (r, e') \<Rightarrow> (bindr r (\<lambda>c. Inr (Some c)), e'))"

section \<open>Excluded URLs\<close>

lemma joined_urls_entries:
  "set (py_split CHR '','' (joined_urls u)) =
     (if u = [] then {} else set (py_split CHR '','' u)) \<union> {''SamplingTargets'', ''GetSamplingRules''}"
  by (simp add: joined_urls_def py_split_app)

lemma map_of_setdefault:
  "map_of (env_setdefault n v e) = (if map_of e n = None then (map_of e)(n \<mapsto> v) else map_of e)"
  by (auto simp: env_setdefault_def map_of_eq_None_iff)

text \<open>C31: Selecting the X-Ray sampler keeps its own requests out of the traces: afterwards both variables
  of excluded URLs are set and list \<open>SamplingTargets\<close> and \<open>GetSamplingRules\<close> beside the entries the user
  gave, and no other variable changes. The two lists of the user are exchanged: what was excluded for
  \<open>requests\<close> is now excluded for \<open>urllib3\<close> and the other way round.\<close>

theorem xray_requests_excluded:
  "map_of (snd (custom_import_sampler (Some ''xray'') e)) =
     (map_of e)(''OTEL_PYTHON_URLLIB3_EXCLUDED_URLS''
                  \<mapsto> joined_urls (getenv_or e ''OTEL_PYTHON_REQUESTS_EXCLUDED_URLS'' []),
                ''OTEL_PYTHON_REQUESTS_EXCLUDED_URLS''
                  \<mapsto> joined_urls (getenv_or e ''OTEL_PYTHON_URLLIB3_EXCLUDED_URLS'' []))
   \<and> set (py_split CHR '','' (joined_urls u)) =
       (if u = [] then {} else set (py_split CHR '','' u)) \<union> {''SamplingTargets'', ''GetSamplingRules''}"
proof -
  let ?R = "''OTEL_PYTHON_REQUESTS_EXCLUDED_URLS''" and ?U = "''OTEL_PYTHON_URLLIB3_EXCLUDED_URLS''"
  have "map_of (exclude_urls_for_instrumentations e) =
      (map_of e)(?U \<mapsto> joined_urls (getenv_or e ?R []), ?R \<mapsto> joined_urls (getenv_or e ?U []))"
    by (simp add: exclude_urls_for_instrumentations_def env_pop_def map_of_setdefault getenv_or_def
        delete_conv' fun_upd_def fun_eq_iff)
  moreover have "snd (custom_import_sampler (Some ''xray'') e) = exclude_urls_for_instrumentations e"
    by (simp add: custom_import_sampler_def split: prod.splits)
  ultimately show ?thesis by (simp only: joined_urls_entries)
qed

section \<open>AWS endpoints\<close>

lemma py_split_two: "c \<notin> set u \<Longrightarrow> py_split c (u @ c # v) = u # py_split c v"
  by (rule py_split_append)

lemma takeWhile_split: "s = takeWhile P s @ dropWhile P s"
  by simp

lemma otlp_pattern_parts:
  assumes "otlp_pattern_match host route s" "CHR ''.'' \<notin> set host"
  obtains region where "region \<noteq> []" "list_all region_char region"
    "s = ''https://'' @ host @ ''.'' @ region @ ''.amazonaws.com'' @ route
     \<or> s = ''https://'' @ host @ ''.'' @ region @ ''.amazonaws.com'' @ route @ [CHR 0x0A]"
    "\<exists>rest. py_split CHR ''.'' s = (''https://'' @ host) # region # rest"
proof -
  let ?before = "''https://'' @ host @ ''.''"
  from assms(1) have "prefix ?before s" by (simp add: otlp_pattern_match_def Let_def)
  then obtain rest where s: "s = ?before @ rest" by (auto simp: prefix_def)
  define region where "region = takeWhile region_char rest"
  define tail where "tail = dropWhile region_char rest"
  have rest: "rest = region @ tail" by (simp add: region_def tail_def)
  from assms(1) have parts: "region \<noteq> []"
    "tail = ''.amazonaws.com'' @ route \<or> tail = ''.amazonaws.com'' @ route @ [CHR 0x0A]"
    by (auto simp: otlp_pattern_match_def Let_def s region_def tail_def)
  have chars: "list_all region_char region" by (auto simp: region_def list_all_iff dest: set_takeWhileD)
  then have "CHR ''.'' \<notin> set region" by (auto simp: list_all_iff region_char_def is_dec_def)
  moreover obtain t where "tail = CHR ''.'' # t" using parts(2) by auto
  ultimately have "py_split CHR ''.'' rest = region # py_split CHR ''.'' t"
    by (simp add: rest py_split_append)
  moreover have "CHR ''.'' \<notin> set (''https://'' @ host)" using assms(2) by simp
  then have "py_split CHR ''.'' ((''https://'' @ host) @ CHR ''.'' # rest) = (''https://'' @ host) # py_split CHR ''.'' rest"
    by (rule py_split_append)
  ultimately have "py_split CHR ''.'' s = (''https://'' @ host) # region # py_split CHR ''.'' t"
    by (simp add: s)
  then show ?thesis using that [of region] parts chars s rest by auto
qed

text \<open>An endpoint taken for an AWS OTLP endpoint always yields its region. Whenever the check accepts
  an endpoint, extracting endpoint and region never raises, and gives the endpoint in lower case and the
  non-empty region between the service's host name and \<open>.amazonaws.com\<close>, made of lower-case letters,
  digits and hyphens.\<close>

theorem aws_endpoint_region:
  assumes "is_aws_otlp_endpoint (Some s) service"
  shows "\<exists>region. extract_endpoint_and_region s = Inr (py_lower s, region) \<and> region \<noteq> []
    \<and> list_all region_char region
    \<and> (\<exists>final \<in> {[], [CHR 0x0A]}. py_lower s =
         (if service = ''xray'' then ''https://xray.'' @ region @ ''.amazonaws.com/v1/traces''
          else ''https://logs.'' @ region @ ''.amazonaws.com/v1/logs'') @ final)"
proof (cases "service = ''xray''")
  case True
  with assms have "otlp_pattern_match ''xray'' ''/v1/traces'' (py_lower s)"
    by (simp add: is_aws_otlp_endpoint_def)
  then show ?thesis
  proof (rule otlp_pattern_parts)
    show "CHR ''.'' \<notin> set ''xray''" by simp
    fix region
    assume "region \<noteq> []" "list_all region_char region"
      "py_lower s = ''https://'' @ ''xray'' @ ''.'' @ region @ ''.amazonaws.com'' @ ''/v1/traces''
       \<or> py_lower s = ''https://'' @ ''xray'' @ ''.'' @ region @ ''.amazonaws.com'' @ ''/v1/traces'' @ [CHR 0x0A]"
      "\<exists>rest. py_split CHR ''.'' (py_lower s) = (''https://'' @ ''xray'') # region # rest"
    with True show ?thesis by (auto simp: extract_endpoint_and_region_def Let_def)
  qed
next
  case False
  with assms have "otlp_pattern_match ''logs'' ''/v1/logs'' (py_lower s)"
    by (simp add: is_aws_otlp_endpoint_def)
  then show ?thesis
  proof (rule otlp_pattern_parts)
    show "CHR ''.'' \<notin> set ''logs''" by simp
    fix region
    assume "region \<noteq> []" "list_all region_char region"
      "py_lower s = ''https://'' @ ''logs'' @ ''.'' @ region @ ''.amazonaws.com'' @ ''/v1/logs''
       \<or> py_lower s = ''https://'' @ ''logs'' @ ''.'' @ region @ ''.amazonaws.com'' @ ''/v1/logs'' @ [CHR 0x0A]"
      "\<exists>rest. py_split CHR ''.'' (py_lower s) = (''https://'' @ ''logs'') # region # rest"
    with False show ?thesis by (auto simp: extract_endpoint_and_region_def Let_def)
  qed
qed

theorem aws_endpoint_region_witness:
  "\<exists>region. extract_endpoint_and_region ''https://XRay.us-east-1.amazonaws.com/v1/traces''
     = Inr (''https://xray.us-east-1.amazonaws.com/v1/traces'', region) \<and> region \<noteq> []"
proof -
  have "is_aws_otlp_endpoint (Some ''https://XRay.us-east-1.amazonaws.com/v1/traces'') ''xray''" by code_simp
  moreover have "py_lower ''https://XRay.us-east-1.amazonaws.com/v1/traces''
      = ''https://xray.us-east-1.amazonaws.com/v1/traces''" by code_simp
  ultimately show ?thesis
    using aws_endpoint_region [of "''https://XRay.us-east-1.amazonaws.com/v1/traces''" "''xray''"] by auto
qed

section \<open>The pipelines of Application Signals\<close>

definition flag_names :: "string set" where
  "flag_names = {''OTEL_AWS_APPLICATION_SIGNALS_ENABLED'', ''OTEL_AWS_APP_SIGNALS_ENABLED'',
     ''AWS_LAMBDA_FUNCTION_NAME'', ''AGENT_OBSERVABILITY_ENABLED''}"

definition same_flags :: "env \<Rightarrow> env \<Rightarrow> bool" where
  "same_flags e e' \<longleftrightarrow> (\<forall>n \<in> flag_names. map_of e' n = map_of e n)"

lemma same_flags_enabled:
  "same_flags e e' \<Longrightarrow> is_application_signals_enabled e' = is_application_signals_enabled e"
  "same_flags e e' \<Longrightarrow> is_lambda_environment e' = is_lambda_environment e"
  "same_flags e e' \<Longrightarrow> agent_observability e' = agent_observability e"
  by (simp_all add: same_flags_def flag_names_def is_application_signals_enabled_def getenv_or_def
      is_lambda_environment_def agent_observability_def is_agent_observability_enabled_def env_or_def
      flip: map_of_eq_None_iff not_None_eq)
     (metis map_of_eq_None_iff)

lemma check_emf_flags: "check_emf_exporter_enabled e = (b, e') \<Longrightarrow> same_flags e e'"
  by (auto simp: check_emf_exporter_enabled_def Let_def same_flags_def flag_names_def delete_conv'
      split: if_splits)

lemma import_sampler_flags: "custom_import_sampler n e = (s, e') \<Longrightarrow> same_flags e e'"
  by (auto simp: custom_import_sampler_def Let_def same_flags_def flag_names_def env_pop_def
      exclude_urls_for_instrumentations_def map_of_setdefault delete_conv' split: if_splits prod.splits)

lemma same_flags_trans: "same_flags a b \<Longrightarrow> same_flags b c \<Longrightarrow> same_flags a c"
  by (simp add: same_flags_def)

lemma span_exporter_cases:
  assumes "customize_span_exporter pf e x = Inr y"
  shows "y = None \<longrightarrow> \<not> (botocore_installed pf \<and> exporters_work pf)
      \<and> is_aws_otlp_endpoint (getenv e ''OTEL_EXPORTER_OTLP_TRACES_ENDPOINT'') ''xray'' \<and> x = OtlpHttpSpans"
    and "y = Some z \<longrightarrow>
      (if is_application_signals_enabled e then (\<exists>w. z = MetricAttributes w) \<or> (\<exists>a b c. z = AwsSpans a b c)
       else z = x \<or> (\<exists>a b. z = UdpSpans a b) \<or> (\<exists>a b c. z = AwsSpans a b c))"
  using assms
  by (auto simp: customize_span_exporter_def Let_def bindr_eq_Inr create_aws_span_exporter_def
      split: if_splits)

lemma metric_export_interval_bound:
  "get_metric_export_interval to_float e = Inr v \<Longrightarrow> v \<le> 60000"
  by (auto simp: get_metric_export_interval_def default_metric_export_interval_def
      split: option.splits if_splits)

lemma unsampled_processors:
  "unsampled_for_agent_observability pf e = Inr ps \<Longrightarrow> p \<in> set ps \<Longrightarrow> \<exists>x n. p = BatchUnsampled x n"
  "unsampled_for_lambda e = Inr ps \<Longrightarrow> p \<in> set ps \<Longrightarrow> \<exists>x n. p = BatchUnsampled x n"
  by (auto simp: unsampled_for_agent_observability_def unsampled_for_lambda_def Let_def bindr_eq_Inr
      split: if_splits)

lemma customized_processors:
  assumes "customize_span_processors pf e = Inr ps"
  shows "AttributePropagating \<in> set ps \<longleftrightarrow> is_application_signals_enabled e"
    and "(\<exists>x i. SpanMetrics x i \<in> set ps)
           \<longleftrightarrow> is_application_signals_enabled e \<and> \<not> is_lambda_environment e"
    and "SpanMetrics x i \<in> set ps \<Longrightarrow> i \<le> 60000"
    and "BatchSpans y n \<notin> set ps"
    and "SessionBaggage \<in> set ps \<longleftrightarrow> agent_observability e"
  using assms
  by (auto simp: customize_span_processors_def Let_def bindr_eq_Inr ex_disj_distrib
      dest: unsampled_processors metric_export_interval_bound split: if_splits)

lemma traced_processors:
  assumes "init_tracing pf e xs = Inr ps"
  obtains ys qs where "map_res (customize_span_exporter pf e) xs = Inr ys"
    "customize_span_processors pf e = Inr qs"
    "ps = map (\<lambda>x. BatchSpans x (span_export_batch_size e)) ys @ qs"
  using assms by (auto simp: init_tracing_def bindr_eq_Inr)

lemma initialized_components:
  assumes "initialize_components pf cache e0 = (Inr c, e2)"
  obtains s xs where "same_flags e0 e2"
    "tracer_sampler c = customize_sampler e2 s" "\<nexists>t. s = AlwaysRecord t"
    "init_tracing pf e2 xs = Inr (span_processors c)"
proof -
  obtain b e1 where e1: "check_emf_exporter_enabled e0 = (b, e1)" by fastforce
  obtain s e3 where s: "custom_import_sampler (get_sampler pf e1) e1 = (s, e3)" by fastforce
  have "\<nexists>t. s = AlwaysRecord t"
    using s by (auto simp: custom_import_sampler_def Let_def split: if_splits prod.splits)
  moreover have "same_flags e0 e3"
    using same_flags_trans [OF check_emf_flags [OF e1] import_sampler_flags [OF s]] .
  moreover have "e2 = e3" "tracer_sampler c = customize_sampler e2 s"
    "init_tracing pf e2 (import_span_exporters pf e1) = Inr (span_processors c)"
    using assms by (auto simp: initialize_components_def e1 s Let_def split: sum.splits prod.splits if_splits)
  ultimately show ?thesis using that by blast
qed

text \<open>C7: A successful initialisation builds the Application Signals pipeline exactly when the feature is
  enabled: then, and only then, the sampler records every span and the attributes are propagated to child
  spans; span metrics are recorded outside Lambda only, at intervals of at most a minute. With the feature
  on, no span reaches an exporter without its metric attributes, unless it goes to the AWS endpoint
  itself. Session baggage is copied exactly under agent observability. A batch processor without an
  exporter is built only for an AWS endpoint for which no AWS exporter could be made.\<close>

theorem application_signals_pipeline:
  assumes "initialize_components pf cache e0 = (Inr c, e2)"
  shows "((\<exists>s. tracer_sampler c = AlwaysRecord s) \<longleftrightarrow> is_application_signals_enabled e0)
    \<and> (AttributePropagating \<in> set (span_processors c) \<longleftrightarrow> is_application_signals_enabled e0)
    \<and> ((\<exists>x i. SpanMetrics x i \<in> set (span_processors c))
          \<longleftrightarrow> is_application_signals_enabled e0 \<and> \<not> is_lambda_environment e0)
    \<and> (\<forall>x i. SpanMetrics x i \<in> set (span_processors c) \<longrightarrow> i \<le> 60000)
    \<and> (SessionBaggage \<in> set (span_processors c) \<longleftrightarrow> agent_observability e0)
    \<and> (\<forall>x n. BatchSpans (Some x) n \<in> set (span_processors c) \<and> is_application_signals_enabled e0
          \<longrightarrow> (\<exists>w. x = MetricAttributes w) \<or> (\<exists>a b d. x = AwsSpans a b d))
    \<and> (\<forall>n. BatchSpans None n \<in> set (span_processors c)
          \<longrightarrow> \<not> (botocore_installed pf \<and> exporters_work pf)
              \<and> is_aws_otlp_endpoint (getenv e2 ''OTEL_EXPORTER_OTLP_TRACES_ENDPOINT'') ''xray'')"
    (is "?A \<and> ?B \<and> ?C \<and> ?D \<and> ?E \<and> ?F \<and> ?G")
proof -
  obtain s xs where flags: "same_flags e0 e2" and s: "tracer_sampler c = customize_sampler e2 s"
    "\<nexists>t. s = AlwaysRecord t" and tracing: "init_tracing pf e2 xs = Inr (span_processors c)"
    using initialized_components [OF assms] by blast
  obtain ys qs where ys: "map_res (customize_span_exporter pf e2) xs = Inr ys"
    and qs: "customize_span_processors pf e2 = Inr qs"
    and ps: "span_processors c = map (\<lambda>x. BatchSpans x (span_export_batch_size e2)) ys @ qs"
    using traced_processors [OF tracing] by blast
  note same = same_flags_enabled [OF flags] and cp = customized_processors [OF qs]
  have made: "\<exists>x. customize_span_exporter pf e2 x = Inr y" if "BatchSpans y n \<in> set (span_processors c)" for y n
    using that cp(4) map_res_Inr_elem [OF ys, of y] by (auto simp: ps)
  have ?A using s by (auto simp: customize_sampler_def same)
  moreover have ?B ?C ?D ?E using cp by (auto simp: ps same)
  moreover have ?F
  proof (intro allI impI, elim conjE)
    fix x n
    assume "BatchSpans (Some x) n \<in> set (span_processors c)" and on: "is_application_signals_enabled e0"
    with made obtain x' where "customize_span_exporter pf e2 x' = Inr (Some x)" by blast
    then show "(\<exists>w. x = MetricAttributes w) \<or> (\<exists>a b d. x = AwsSpans a b d)"
      using span_exporter_cases(2) [of pf e2 x' "Some x" x] on by (simp add: same)
  qed
  moreover have ?G
  proof (intro allI impI)
    fix n
    assume "BatchSpans None n \<in> set (span_processors c)"
    with made obtain x' where "customize_span_exporter pf e2 x' = Inr None" by blast
    then show "\<not> (botocore_installed pf \<and> exporters_work pf)
        \<and> is_aws_otlp_endpoint (getenv e2 ''OTEL_EXPORTER_OTLP_TRACES_ENDPOINT'') ''xray''"
      using span_exporter_cases(1) [of pf e2 x' None] by simp
  qed
  ultimately show ?thesis by blast
qed

definition witness_platform :: sdk_platform where
  "witness_platform = \<lparr>import_span_exporters = (\<lambda>_. [OtlpHttpSpans]), import_metric_readers = (\<lambda>_. [''otlp'']),
     import_log_exporters = (\<lambda>_. [OtlpHttpLogs]), get_sampler = (\<lambda>_. Some ''xray''),
     botocore_installed = True, exporters_work = True, parse_float = (\<lambda>_. None),
     distro_version = ''1.0'', create_resource = (\<lambda>_ a. a)\<rparr>"

definition witness_env :: env where
  "witness_env = [(''OTEL_AWS_APPLICATION_SIGNALS_ENABLED'', ''True''),
     (''OTEL_METRICS_EXPORTER'', ''awsemf'')]"

lemma witness_initialized:
  "case initialize_components witness_platform None witness_env of
     (Inr c, e) \<Rightarrow> length (span_processors c) = 3 | _ \<Rightarrow> False"
  by code_simp

theorem application_signals_pipeline_witness:
  "\<exists>c e2. initialize_components witness_platform None witness_env = (Inr c, e2)
     \<and> (\<exists>s. tracer_sampler c = AlwaysRecord s)
     \<and> (\<exists>x i. SpanMetrics x i \<in> set (span_processors c) \<and> i \<le> 60000)"
proof -
  obtain c e2 where run: "initialize_components witness_platform None witness_env = (Inr c, e2)"
    using witness_initialized by (auto split: prod.splits sum.splits)
  have "is_application_signals_enabled witness_env" "\<not> is_lambda_environment witness_env"
    by code_simp+
  then show ?thesis using run application_signals_pipeline [OF run] by blast
qed

end
