(* ===== verification/Distro.thy ===== *)
theory Distro
  imports Configurator
begin

text \<open>
  \<open>aws_opentelemetry_distro.py\<close>: the environment the distro prepares before the SDK is configured, and
  \<open>apply_instrumentation_patches\<close>, the choice of the patches. Whether a package is installed and the region
  botocore finds are parameters; so is what the base class does to the environment afterwards.
\<close>

section \<open>Environment\<close>

definition with_cwd :: "string \<Rightarrow> string list \<Rightarrow> string list" where
  "with_cwd cwd_path search_path = (if cwd_path \<notin> set search_path then cwd_path # search_path else search_path)"

definition disable_django :: "(string \<Rightarrow> bool) \<Rightarrow> env \<Rightarrow> env" where
  "disable_django installed e =
     (if installed ''django'' \<and> getenv_or e ''DJANGO_SETTINGS_MODULE'' [] = []
      then AList.update ''OTEL_PYTHON_DISABLED_INSTRUMENTATIONS''
             (getenv_or e ''OTEL_PYTHON_DISABLED_INSTRUMENTATIONS'' [] @ '',django'') e
      else e)"

text \<open>The propagators: the environment and whether the module that read them has to be loaded again.\<close>

definition default_propagators :: "env \<Rightarrow> bool \<times> env" where
  "default_propagators e =
     (if getenv e ''OTEL_PROPAGATORS'' = None
      then (True, env_setdefault ''OTEL_PROPAGATORS'' ''baggage,xray,tracecontext'' e) else (False, e))"

definition default_disabled :: string where
  "default_disabled =
     ''http,sqlalchemy,psycopg2,pymysql,sqlite3,aiopg,asyncpg,mysql_connector,''
     @ ''urllib3,requests,system_metrics,google-genai''"

definition set_defaults :: "(string \<times> string) list \<Rightarrow> env \<Rightarrow> env" where
  "set_defaults ds e = foldl (\<lambda>e (n, v). env_setdefault n v e) e ds"

definition region_defaults :: "string option \<Rightarrow> (string \<times> string) list" where
  "region_defaults region =
     (case region of
        Some (c # cs) \<Rightarrow>
          [(''OTEL_EXPORTER_OTLP_TRACES_ENDPOINT'', ''https://xray.'' @ (c # cs) @ ''.amazonaws.com/v1/traces''),
           (''OTEL_EXPORTER_OTLP_LOGS_ENDPOINT'', ''https://logs.'' @ (c # cs) @ ''.amazonaws.com/v1/logs'')]
      | _ \<Rightarrow> [])"

definition agent_defaults :: "string option \<Rightarrow> (string \<times> string) list" where
  "agent_defaults region =
     [(''OTEL_TRACES_EXPORTER'', ''otlp''), (''OTEL_LOGS_EXPORTER'', ''otlp''),
      (''OTEL_METRICS_EXPORTER'', ''awsemf''),
      (''OTEL_INSTRUMENTATION_GENAI_CAPTURE_MESSAGE_CONTENT'', ''true'')]
     @ region_defaults region
     @ [(''OTEL_TRACES_SAMPLER'', ''parentbased_always_on''),
        (''OTEL_PYTHON_DISABLED_INSTRUMENTATIONS'', default_disabled),
        (''OTEL_PYTHON_LOGGING_AUTO_INSTRUMENTATION_ENABLED'', ''true''),
        (''OTEL_AWS_APPLICATION_SIGNALS_ENABLED'', ''false''),
        (''OTEL_METRICS_ADD_APPLICATION_SIGNALS_DIMENSIONS'', ''false'')]"

definition distro_environment :: "(string \<Rightarrow> bool) \<Rightarrow> string option \<Rightarrow> env \<Rightarrow> env" where
  "distro_environment installed botocore_region e0 =
     (let e1 = disable_django installed e0;
          e2 = env_setdefault ''OTEL_EXPORTER_OTLP_PROTOCOL'' ''http/protobuf'' e1;
          (reload, e3) = default_propagators e2;
          e4 = set_defaults [(''OTEL_PYTHON_ID_GENERATOR'', ''xray''),
                 (''OTEL_EXPORTER_OTLP_METRICS_DEFAULT_HISTOGRAM_AGGREGATION'', ''base2_exponential_bucket_histogram'')] e3
      in if agent_observability e4
         then set_defaults (agent_defaults
                (get_aws_region \<lparr>environ = e4, str_of = (\<lambda>v. [])\<rparr> (installed ''botocore'') botocore_region)) e4
         else e4)"

section \<open>Patches\<close>

definition applied_patches :: "(string \<Rightarrow> bool) \<Rightarrow> env \<Rightarrow> string list" where
  "applied_patches installed e =
     (if installed ''botocore ~= 1.0'' then [''botocore''] else [])
     @ (if installed ''starlette'' then [''starlette_version''] else [])
     @ (if is_enhanced_code_attributes e
        then filter installed [''starlette'', ''flask'', ''fastapi'', ''django'', ''celery'', ''pika'', ''aio-pika'']
        else [])
     @ [''resource_detector'']"

text \<open>\<open>_configure\<close>: the base class runs between the two parts; \<open>apply_patches\<close> is an argument.\<close>

definition configure_distro ::
    "(string \<Rightarrow> bool) \<Rightarrow> string option \<Rightarrow> (env \<Rightarrow> env) \<Rightarrow> bool \<Rightarrow> env \<Rightarrow> env \<times> string list" where
  "configure_distro installed botocore_region super_configure apply_patches e =
     (let e' = super_configure (distro_environment installed botocore_region e)
      in (e', if apply_patches then applied_patches installed e' else []))"

section \<open>Defaults\<close>

lemma map_of_set_defaults:
  "map_of (set_defaults ds e) n = (case map_of e n of Some v \<Rightarrow> Some v | None \<Rightarrow> map_of ds n)"
proof (induction ds arbitrary: e)
  case Nil
  then show ?case by (simp add: set_defaults_def split: option.splits)
next
  case (Cons d ds)
  obtain k v where d: "d = (k, v)" by fastforce
  have "set_defaults (d # ds) e = set_defaults ds (env_setdefault k v e)" by (simp add: set_defaults_def d)
  then show ?case using Cons.IH [of "env_setdefault k v e"]
    by (auto simp: d map_of_setdefault split: option.splits)
qed

definition first_defaults :: "(string \<times> string) list" where
  "first_defaults =
     [(''OTEL_EXPORTER_OTLP_PROTOCOL'', ''http/protobuf''), (''OTEL_PROPAGATORS'', ''baggage,xray,tracecontext''),
      (''OTEL_PYTHON_ID_GENERATOR'', ''xray''),
      (''OTEL_EXPORTER_OTLP_METRICS_DEFAULT_HISTOGRAM_AGGREGATION'', ''base2_exponential_bucket_histogram'')]"

lemma default_propagators_env:
  "map_of (snd (default_propagators e)) = map_of (env_setdefault ''OTEL_PROPAGATORS'' ''baggage,xray,tracecontext'' e)"
  by (simp add: default_propagators_def getenv_def map_of_setdefault)

text \<open>Everything after the Django step only sets variables that are not set.\<close>

lemma distro_environment_defaults:
  obtains ds where "\<And>n. map_of (distro_environment installed botocore_region e) n =
      (case map_of (disable_django installed e) n of Some v \<Rightarrow> Some v | None \<Rightarrow> map_of ds n)"
    "ds = first_defaults @ (if agent_observability e
       then agent_defaults (get_aws_region \<lparr>environ = e, str_of = (\<lambda>v. [])\<rparr> (installed ''botocore'') botocore_region)
       else [])"
proof -
  let ?e1 = "disable_django installed e"
  let ?e2 = "env_setdefault ''OTEL_EXPORTER_OTLP_PROTOCOL'' ''http/protobuf'' ?e1"
  let ?e3 = "snd (default_propagators ?e2)"
  let ?e4 = "set_defaults [(''OTEL_PYTHON_ID_GENERATOR'', ''xray''),
     (''OTEL_EXPORTER_OTLP_METRICS_DEFAULT_HISTOGRAM_AGGREGATION'', ''base2_exponential_bucket_histogram'')] ?e3"
  have e4: "map_of ?e4 n = (case map_of ?e1 n of Some v \<Rightarrow> Some v | None \<Rightarrow> map_of first_defaults n)" for n
    by (auto simp: map_of_set_defaults default_propagators_env map_of_setdefault first_defaults_def
        split: option.splits)
  have same: "map_of ?e4 n = map_of e n"
    if "n \<in> {''AGENT_OBSERVABILITY_ENABLED'', ''AWS_REGION'', ''AWS_DEFAULT_REGION''}" for n
  proof -
    have "map_of ?e1 n = map_of e n" "map_of first_defaults n = None"
      using that by (auto simp: disable_django_def first_defaults_def)
    then show ?thesis by (simp add: e4 split: option.splits)
  qed
  have agent: "agent_observability ?e4 = agent_observability e"
    using same by (simp add: agent_observability_def is_agent_observability_enabled_def env_or_def)
  have region: "get_aws_region \<lparr>environ = ?e4, str_of = (\<lambda>v. [])\<rparr> b r = get_aws_region \<lparr>environ = e, str_of = (\<lambda>v. [])\<rparr> b r"
    for b r
    using same [of "''AWS_REGION''"] same [of "''AWS_DEFAULT_REGION''"]
    by (simp add: get_aws_region_def split: option.split list.split)
  have env: "distro_environment installed botocore_region e = (if agent_observability e
      then set_defaults (agent_defaults (get_aws_region \<lparr>environ = e, str_of = (\<lambda>v. [])\<rparr> (installed ''botocore'') botocore_region)) ?e4
      else ?e4)"
    unfolding distro_environment_def Let_def case_prod_beta' agent region by (rule refl)
  show ?thesis
  proof (cases "agent_observability e")
    case True
    have "map_of (distro_environment installed botocore_region e) n =
        (case map_of ?e1 n of Some v \<Rightarrow> Some v
         | None \<Rightarrow> map_of (first_defaults @ agent_defaults (get_aws_region \<lparr>environ = e, str_of = (\<lambda>v. [])\<rparr> (installed ''botocore'') botocore_region)) n)" for n
      unfolding env if_P [OF True] map_of_set_defaults [of "agent_defaults _"] e4 map_of_append map_add_def
      by (cases "map_of ?e1 n"; cases "map_of first_defaults n") simp_all
    from that [OF this] show ?thesis using True by simp
  next
    case False
    have "map_of (distro_environment installed botocore_region e) n =
        (case map_of ?e1 n of Some v \<Rightarrow> Some v | None \<Rightarrow> map_of first_defaults n)" for n
      unfolding env if_not_P [OF False] by (rule e4)
    from that [OF this] show ?thesis using False by simp
  qed
qed

lemma py_lower_region: "list_all region_char r \<Longrightarrow> py_lower r = r"
  by (induction r) (auto simp: py_lower_def lower_char_def region_char_def is_dec_def)

lemma takeWhile_region:
  "list_all region_char r \<Longrightarrow> takeWhile region_char (r @ CHR ''.'' # s) = r"
  "list_all region_char r \<Longrightarrow> dropWhile region_char (r @ CHR ''.'' # s) = CHR ''.'' # s"
  by (induction r) (simp_all add: region_char_def is_dec_def)

lemma default_endpoints:
  assumes "list_all region_char r" "r \<noteq> []"
  shows "is_aws_otlp_endpoint (Some (''https://xray.'' @ r @ ''.amazonaws.com/v1/traces'')) ''xray''"
    and "is_aws_otlp_endpoint (Some (''https://logs.'' @ r @ ''.amazonaws.com/v1/logs'')) ''logs''"
    and "extract_endpoint_and_region (''https://xray.'' @ r @ ''.amazonaws.com/v1/traces'')
      = Inr (''https://xray.'' @ r @ ''.amazonaws.com/v1/traces'', r)"
proof -
  have lower: "py_lower (''https://xray.'' @ r @ ''.amazonaws.com/v1/traces'') = ''https://xray.'' @ r @ ''.amazonaws.com/v1/traces''"
    "py_lower (''https://logs.'' @ r @ ''.amazonaws.com/v1/logs'') = ''https://logs.'' @ r @ ''.amazonaws.com/v1/logs''"
    using py_lower_region [OF assms(1)] by (simp_all add: py_lower_def lower_char_def)
  show "is_aws_otlp_endpoint (Some (''https://xray.'' @ r @ ''.amazonaws.com/v1/traces'')) ''xray''"
    "is_aws_otlp_endpoint (Some (''https://logs.'' @ r @ ''.amazonaws.com/v1/logs'')) ''logs''"
    using assms unfolding is_aws_otlp_endpoint_def option.case lower
    by (simp_all add: otlp_pattern_match_def Let_def takeWhile_region)
  have "CHR ''.'' \<notin> set r" using assms(1) by (auto simp: list_all_iff region_char_def is_dec_def)
  then have "py_split CHR ''.'' (''https://xray'' @ CHR ''.'' # r @ CHR ''.'' # ''amazonaws.com/v1/traces'')
      = ''https://xray'' # r # py_split CHR ''.'' ''amazonaws.com/v1/traces''"
    using py_split_append [of "CHR ''.''" r] by simp
  then show "extract_endpoint_and_region (''https://xray.'' @ r @ ''.amazonaws.com/v1/traces'')
      = Inr (''https://xray.'' @ r @ ''.amazonaws.com/v1/traces'', r)"
    unfolding extract_endpoint_and_region_def Let_def lower by simp
qed



end
