(* ===== verification/Memo.thy ===== *)
theory Memo
  imports Prelude
begin

text \<open>
  Caches. A computation that may raise is asked through a store that remembers its results under a key:
  the namespace table of the package resolver, the decorator \<open>execute_once\<close> and the header setting of
  the configurator are such stores. The laws say when the store answers and what it remembers; the
  lemmas say that asking gives what computing gives as long as the store is coherent.
\<close>

locale memo =
  fixes key :: "'a \<Rightarrow> 'k" and compute :: "'a \<Rightarrow> 'b res"
    and lookup :: "'c \<Rightarrow> 'k \<Rightarrow> 'b option" and ask :: "'a \<Rightarrow> 'c \<Rightarrow> ('b \<times> 'c) res"
  assumes hit: "lookup c (key x) = Some v \<Longrightarrow> ask x c = Inr (v, c)"
    and failed: "lookup c (key x) = None \<Longrightarrow> compute x = Inl e \<Longrightarrow> ask x c = Inl e"
    and miss: "lookup c (key x) = None \<Longrightarrow> compute x = Inr v \<Longrightarrow>
      \<exists>c'. ask x c = Inr (v, c') \<and> lookup c' = (lookup c)(key x \<mapsto> v)"
begin

definition coherent :: "'a set \<Rightarrow> 'c \<Rightarrow> bool" where
  "coherent A c \<longleftrightarrow> (\<forall>y \<in> A. \<forall>v. lookup c (key y) = Some v \<longrightarrow> compute y = Inr v)"

definition keyed :: "'a set \<Rightarrow> bool" where
  "keyed A \<longleftrightarrow> (\<forall>x \<in> A. \<forall>y \<in> A. key x = key y \<longrightarrow> compute x = compute y)"

lemma coherent_empty: "lookup c = Map.empty \<Longrightarrow> coherent A c"
  by (simp add: coherent_def)

lemma ask_computes:
  assumes "coherent A c" "keyed A" "x \<in> A" "compute x = Inr v"
  obtains c' where "ask x c = Inr (v, c')" "coherent A c'"
proof (cases "lookup c (key x)")
  case None
  from miss [OF this assms(4)] obtain c' where c': "ask x c = Inr (v, c')"
    "lookup c' = (lookup c)(key x \<mapsto> v)" by blast
  have "coherent A c'" unfolding coherent_def
  proof (intro ballI allI impI)
    fix y w
    assume "y \<in> A" "lookup c' (key y) = Some w"
    show "compute y = Inr w"
    proof (cases "key y = key x")
      case True
      then have "w = v" using \<open>lookup c' (key y) = Some w\<close> by (simp add: c'(2))
      moreover have "compute y = compute x" using True assms(2,3) \<open>y \<in> A\<close> unfolding keyed_def by blast
      ultimately show ?thesis using assms(4) by simp
    next
      case False
      then have "lookup c (key y) = Some w" using \<open>lookup c' (key y) = Some w\<close> by (simp add: c'(2))
      with assms(1) \<open>y \<in> A\<close> show ?thesis by (simp add: coherent_def)
    qed
  qed
  with c' that show ?thesis by blast
next
  case (Some w)
  with assms have "w = v" by (auto simp: coherent_def)
  with hit [OF Some] assms(1) that show ?thesis by simp
qed

lemma ask_again:
  assumes "ask x c = Inr (v, c')" "key y = key x"
  shows "ask y c' = Inr (v, c')"
proof (cases "lookup c (key x)")
  case None
  then show ?thesis
    using assms failed [OF None] miss [OF None] hit [of c' y v]
    by (cases "compute x") fastforce+
next
  case (Some w)
  from hit [OF this] assms(1) have "w = v" "c' = c" by simp_all
  with Some assms(2) show ?thesis by (simp add: hit)
qed

end

text \<open>\<open>execute_once\<close>: the result or the exception of the first call is that of every later one.\<close>

definition execute_once :: "'r res \<Rightarrow> 'r res option \<Rightarrow> 'r res \<times> 'r res option" where
  "execute_once func cached = (case cached of Some r \<Rightarrow> (r, cached) | None \<Rightarrow> (func, Some func))"

interpretation once: memo "\<lambda>_ :: unit. ()" "\<lambda>_. Inr func" "\<lambda>cached _. cached"
    "\<lambda>_ cached. Inr (execute_once func cached)" for func :: "'r res"
  by unfold_locales (auto simp: execute_once_def)

lemma execute_once_fixed:
  assumes "execute_once first cached = (r, cached')"
  shows "execute_once second cached' = (r, cached')"
  using assms by (auto simp: execute_once_def split: option.splits)

end
