(* ===== verification/CodeCorrelation.thy ===== *)
theory CodeCorrelation
  imports Json Memo
begin

text \<open>
  \<open>code_correlation\<close>: which frame of the stack a span is attributed to and how the frame is named
  (\<open>utils.py\<close>, \<open>code_attributes_span_processor.py\<close>), the configuration (\<open>config.py\<close>) and the
  classification of files as standard library, third-party package or user code
  (\<open>internal/packages_resolver.py\<close>).

  The file system, the installed distributions and the interpreter's paths are parameters; the
  \<open>lru_cache\<close> decorators cache functions of these and are left out. Paths are those of POSIX.
\<close>

section \<open>Names of callables\<close>

text \<open>What \<open>getattr\<close> finds: nothing, \<open>None\<close> or a text.\<close>

datatype pyattr = Missing | PyNone | Text string

definition getattr :: "pyattr \<Rightarrow> pyattr \<Rightarrow> pyattr" where
  "getattr a other = (if a = Missing then other else a)"

definition attr_true :: "pyattr \<Rightarrow> bool" where
  "attr_true a = (case a of Text s \<Rightarrow> s \<noteq> [] | _ \<Rightarrow> False)"

text \<open>An attribute in an f-string.\<close>

definition attr_text :: "pyattr \<Rightarrow> string" where
  "attr_text a = (case a of Text s \<Rightarrow> s | _ \<Rightarrow> ''None'')"

definition construct_qualified_name :: "pyattr \<Rightarrow> string option \<Rightarrow> string \<Rightarrow> string" where
  "construct_qualified_name module_name class_name func_name =
     (case class_name of
        Some (c # cs) \<Rightarrow> attr_text module_name @ ''.'' @ (c # cs) @ ''.'' @ func_name
      | _ \<Rightarrow>
          if attr_true module_name \<and> module_name \<noteq> Text ''<unknown_module>''
          then attr_text module_name @ ''.'' @ func_name
          else func_name)"

record named =
  attr_module :: pyattr
  attr_qualname :: pyattr
  attr_name :: pyattr
  repr_of :: "string res"

text \<open>
  The receiver of a bound method: whether it counts as true (which may raise), and the name of its class
  or, when it is a class, its own.
\<close>

record receiver =
  receiver_true :: "bool res"
  receiver_class :: string

datatype callable_obj = PartialObj callable_obj | ClassObj named | MethodObj named receiver
  | FunctionObj "named res" | StaticObj "named res" | BuiltinObj named

text \<open>\<open>StaticObj\<close> is a \<open>staticmethod\<close> or \<open>classmethod\<close> object; both are named after the function inside.\<close>

definition function_fullname :: "named res \<Rightarrow> string res" where
  "function_fullname unwrapped =
     bindr unwrapped (\<lambda>n.
     bindr (repr_of n) (\<lambda>text.
       Inr (construct_qualified_name (getattr (attr_module n) (Text ''<unknown_module>'')) None
         (attr_text (getattr (attr_qualname n) (getattr (attr_name n) (Text text)))))))"

definition builtin_fullname :: "named \<Rightarrow> string res" where
  "builtin_fullname n =
     (let m = getattr (attr_module n) PyNone;
          q = getattr (attr_qualname n) PyNone;
          name = (if attr_true q then q else getattr (attr_name n) PyNone)
      in if attr_true name
         then Inr (construct_qualified_name (if attr_true m then m else Text ''<unknown_module>'') None
                     (attr_text name))
         else repr_of n)"

fun callable_fullname :: "callable_obj \<Rightarrow> string res" where
  "callable_fullname (PartialObj f) =
     (case callable_fullname f of Inr s \<Rightarrow> Inr s | Inl e \<Rightarrow> Inr ''<unknown_callable>'')"
| "callable_fullname (ClassObj n) =
     Inr (construct_qualified_name (getattr (attr_module n) (Text ''<unknown_module>'')) None
       (attr_text (getattr (attr_qualname n) (getattr (attr_name n) (Text ''<unknown_class>'')))))"
| "callable_fullname (MethodObj n r) =
     bindr (receiver_true r) (\<lambda>b.
       if b
       then Inr (construct_qualified_name (getattr (attr_module n) (Text ''<unknown_module>''))
              (Some (receiver_class r)) (attr_text (getattr (attr_name n) (Text ''<unknown_func>''))))
       else builtin_fullname n)"
| "callable_fullname (FunctionObj unwrapped) = function_fullname unwrapped"
| "callable_fullname (StaticObj unwrapped) = function_fullname unwrapped"
| "callable_fullname (BuiltinObj n) = builtin_fullname n"

definition get_callable_fullname :: "callable_obj \<Rightarrow> string" where
  "get_callable_fullname obj =
     (case callable_fullname obj of Inr s \<Rightarrow> s | Inl e \<Rightarrow> ''<unknown_callable>'')"

section \<open>Frames and spans\<close>

text \<open>
  A frame: its code, the module name in its globals, and the class names read off the locals \<open>self\<close> and
  \<open>cls\<close> when they exist (reading them may raise).
\<close>

record frame =
  co_filename :: string
  co_name :: string
  f_lineno :: "int option"
  global_name :: pyattr
  local_self :: "string res option"
  local_cls :: "string res option"

definition get_function_fullname_from_frame :: "frame \<Rightarrow> string" where
  "get_function_fullname_from_frame fr =
     (let module_name = getattr (global_name fr) (Text ''<unknown_module>'');
          plain = construct_qualified_name module_name None (co_name fr)
      in case (case local_self fr of Some c \<Rightarrow> Some c | None \<Rightarrow> local_cls fr) of
           None \<Rightarrow> plain
         | Some (Inr cls_name) \<Rightarrow> construct_qualified_name module_name (Some cls_name) (co_name fr)
         | Some (Inl e) \<Rightarrow> if e = AttributeError \<or> e = KeyError then plain else co_name fr)"

text \<open>Setting an attribute to \<open>None\<close> is refused by the SDK.\<close>

definition set_line :: "int option \<Rightarrow> span \<Rightarrow> span" where
  "set_line line sp =
     (case line of Some n \<Rightarrow> set_attribute ''code.line.number'' (AInt n) sp | None \<Rightarrow> sp)"

definition add_code_attributes_to_span_from_frame :: "bool \<Rightarrow> frame \<Rightarrow> span \<Rightarrow> span" where
  "add_code_attributes_to_span_from_frame is_recording fr sp =
     (if \<not> is_recording then sp
      else set_line (f_lineno fr)
             (set_attribute ''code.file.path'' (AStr (co_filename fr))
               (set_attribute ''code.function.name'' (AStr (get_function_fullname_from_frame fr)) sp)))"

text \<open>
  What \<open>inspect\<close> says of a callable: its file (which may raise) and the first line of its code.
\<close>

record source_info =
  getfile :: "string res"
  first_line :: "int option"

definition add_code_attributes_to_span :: "bool \<Rightarrow> callable_obj \<Rightarrow> source_info \<Rightarrow> span \<Rightarrow> span" where
  "add_code_attributes_to_span is_recording obj info sp =
     (if \<not> is_recording then sp
      else let sp1 = set_attribute ''code.function.name'' (AStr (get_callable_fullname obj)) sp
           in case getfile info of
                Inr file \<Rightarrow> set_line (first_line info) (set_attribute ''code.file.path'' (AStr file) sp1)
              | Inl e \<Rightarrow>
                  if e = TypeError \<or> e = Foreign ''OSError'' then set_line (first_line info) sp1 else sp1)"

text \<open>
  \<open>record_code_attributes\<close>: the wrapper marks the current span, if there is one, and then calls the
  function; a callable that is neither a function nor a method is returned as it is.
\<close>

definition record_code_attributes ::
    "bool \<Rightarrow> callable_obj \<Rightarrow> source_info \<Rightarrow> ('a \<Rightarrow> span option \<Rightarrow> 'b \<times> span option)
      \<Rightarrow> 'a \<Rightarrow> span option \<Rightarrow> 'b \<times> span option" where
  "record_code_attributes is_recording obj info func args current =
     (case obj of
        FunctionObj n \<Rightarrow> func args (map_option (add_code_attributes_to_span is_recording obj info) current)
      | MethodObj n r \<Rightarrow> func args (map_option (add_code_attributes_to_span is_recording obj info) current)
      | _ \<Rightarrow> func args current)"

section \<open>Configuration\<close>

record config =
  config_include :: "string list"
  config_exclude :: "string list"
  stack_depth :: int

text \<open>\<open>json.loads\<close> is a parameter; \<open>None\<close> is its \<open>JSONDecodeError\<close>.\<close>

definition parse_config_data :: "(string \<Rightarrow> json option) \<Rightarrow> string option \<Rightarrow> (string \<times> json) list" where
  "parse_config_data loads env_value =
     (let stripped = py_strip (case env_value of Some s \<Rightarrow> s | None \<Rightarrow> ''{}'');
          config_str = (if stripped = [] then ''{}'' else stripped)
      in case loads config_str of Some (JObj fs) \<Rightarrow> fs | _ \<Rightarrow> [])"

definition as_json_str :: "json \<Rightarrow> string option" where
  "as_json_str v = (case v of JStr s \<Rightarrow> Some s | _ \<Rightarrow> None)"

definition validate_string_list :: "(string \<times> json) list \<Rightarrow> string \<Rightarrow> string list" where
  "validate_string_list config_data field_name =
     (case map_of config_data field_name of
        Some (JList items) \<Rightarrow> List.map_filter as_json_str items
      | _ \<Rightarrow> [])"

text \<open>\<open>isinstance(v, int)\<close> holds for booleans too; \<open>True\<close> stands for 1.\<close>

definition validate_stack_depth :: "(string \<times> json) list \<Rightarrow> int" where
  "validate_stack_depth config_data =
     (case map_of config_data ''stack_depth'' of
        Some (JInt n) \<Rightarrow> if n < 0 then 0 else n
      | Some (JBool b) \<Rightarrow> if b then 1 else 0
      | _ \<Rightarrow> 0)"

definition config_from_env :: "(string \<Rightarrow> json option) \<Rightarrow> string option \<Rightarrow> config" where
  "config_from_env loads env_value =
     (let config_data = parse_config_data loads env_value
      in \<lparr>config_include = validate_string_list config_data ''include'',
          config_exclude = validate_string_list config_data ''exclude'',
          stack_depth = validate_stack_depth config_data\<rparr>)"

definition config_to_dict :: "config \<Rightarrow> (string \<times> json) list" where
  "config_to_dict c =
     [(''include'', JList (map JStr (config_include c))), (''exclude'', JList (map JStr (config_exclude c))),
      (''stack_depth'', JInt (stack_depth c))]"

text \<open>The configuration is always well-formed, whatever the environment holds: the stack depth is never
  negative, and reading the exported configuration back gives the same one.\<close>

theorem config_wellformed:
  "0 \<le> stack_depth (config_from_env loads env_value)
   \<and> config_from_env (\<lambda>_. Some (JObj (config_to_dict (config_from_env loads env_value)))) exported
       = config_from_env loads env_value"
proof -
  have strings: "List.map_filter as_json_str (map JStr ss) = ss" for ss
    by (induction ss) (simp_all add: List.map_filter_def as_json_str_def)
  have "0 \<le> stack_depth (config_from_env loads env_value)"
    by (simp add: config_from_env_def Let_def validate_stack_depth_def split: option.splits json.splits)
  then show ?thesis
    by (simp add: config_from_env_def [of "\<lambda>_. Some v" for v] parse_config_data_def config_to_dict_def
        validate_string_list_def validate_stack_depth_def strings)
qed

section \<open>Paths and distributions\<close>

text \<open>
  A path is the list of its parts, an absolute one with the root as the first part. \<open>path_of\<close> is
  \<open>Path(text)\<close>, \<open>path_text\<close> its \<open>str\<close> for relative paths.
\<close>

type_synonym path = "string list"

definition path_of :: "string \<Rightarrow> path" where
  "path_of s =
     (if prefix ''//'' s \<and> \<not> prefix ''///'' s then [''//''] else if prefix ''/'' s then [''/''] else [])
     @ filter (\<lambda>p. p \<noteq> [] \<and> p \<noteq> ''.'') (py_split CHR ''/'' s)"

definition is_absolute :: "path \<Rightarrow> bool" where
  "is_absolute p \<longleftrightarrow> (case p of r # _ \<Rightarrow> r = ''/'' \<or> r = ''//'' | [] \<Rightarrow> False)"

definition relative_to :: "path \<Rightarrow> path \<Rightarrow> path res" where
  "relative_to p q = (if prefix q p then Inr (drop (length q) p) else Inl ValueError)"

definition path_text :: "path \<Rightarrow> string" where
  "path_text p = (if p = [] then ''.'' else py_join ''/'' p)"

text \<open>\<open>p.parents[i]\<close>; an absolute path has one parent less than parts.\<close>

definition parents_at :: "path \<Rightarrow> nat \<Rightarrow> path res" where
  "parents_at p i =
     (if i < (if is_absolute p then length p - 1 else length p)
      then Inr (take (length p - 1 - i) p) else Inl IndexError)"

record file_system =
  resolve :: "path \<Rightarrow> path res"
  is_dir :: "path \<Rightarrow> bool"
  path_exists :: "path \<Rightarrow> bool"
  is_symlink :: "path \<Rightarrow> bool"

record interpreter =
  stdlib :: path
  platstdlib :: path
  purelib :: path
  platlib :: path
  sys_path :: "string list"

record distribution =
  dist_name :: string
  dist_version :: string

text \<open>A file that a distribution lists: its parts and where it is located.\<close>

record package_file =
  parts :: path
  located :: "path option"

definition has_init :: "file_system \<Rightarrow> path \<Rightarrow> bool" where
  "has_init fs root_dir \<longleftrightarrow> path_exists fs (root_dir @ [''__init__.py''])"

definition determine_effective_root :: "file_system \<Rightarrow> path \<Rightarrow> path \<Rightarrow> string res" where
  "determine_effective_root fs relative_path parent_path =
     (case relative_path of
        [] \<Rightarrow> Inl IndexError
      | base_name # _ \<Rightarrow>
          let root_dir = parent_path @ [base_name]
          in Inr (if is_dir fs root_dir \<and> has_init fs root_dir then base_name
                  else path_text (take 2 relative_path)))"

text \<open>
  \<open>_resolve_system_paths\<close>: the resolved paths are cached under the hash of \<open>sys.path\<close>; the hash is set
  before the paths are resolved.
\<close>

record path_cache =
  sys_path_hash :: "int option"
  resolved_sys_path :: "path list"

definition resolve_system_paths ::
    "file_system \<Rightarrow> (string list \<Rightarrow> int) \<Rightarrow> interpreter \<Rightarrow> path_cache \<Rightarrow> path list res \<times> path_cache" where
  "resolve_system_paths fs hash py c =
     (let current_hash = hash (sys_path py)
      in if sys_path_hash c = Some current_hash then (Inr (resolved_sys_path c), c)
         else let c' = c\<lparr>sys_path_hash := Some current_hash\<rparr>
              in case map_res (\<lambda>s. resolve fs (path_of s)) (sys_path py) of
                   Inl e \<Rightarrow> (Inl e, c')
                 | Inr ps \<Rightarrow> (Inr ps, c'\<lparr>resolved_sys_path := ps\<rparr>))"

section \<open>Resolving packages\<close>

text \<open>A \<open>ValueError\<close> means: not below this directory.\<close>

definition site_root :: "file_system \<Rightarrow> path \<Rightarrow> path \<Rightarrow> string res" where
  "site_root fs file_path parent_path =
     bindr (resolve fs file_path) (\<lambda>p.
     bindr (relative_to p parent_path) (\<lambda>relative_path.
       determine_effective_root fs relative_path parent_path))"

definition shorter_relative :: "path \<Rightarrow> (path \<times> path) option \<Rightarrow> path \<Rightarrow> (path \<times> path) option" where
  "shorter_relative file_path best parent_path =
     (case relative_to file_path parent_path of
        Inl e \<Rightarrow> best
      | Inr relative_path \<Rightarrow>
          (case best of
             None \<Rightarrow> Some (relative_path, parent_path)
           | Some (shortest, p) \<Rightarrow>
               if length relative_path < length shortest then Some (relative_path, parent_path) else best))"

definition sys_path_root :: "file_system \<Rightarrow> path \<Rightarrow> path list \<Rightarrow> string res" where
  "sys_path_root fs file_path resolved =
     (case foldl (shorter_relative file_path) None resolved of
        None \<Rightarrow> Inl ValueError
      | Some (shortest, best_parent) \<Rightarrow>
          (case determine_effective_root fs shortest best_parent of
             Inl e \<Rightarrow> if e = IndexError then Inl ValueError else Inl e
           | Inr root_module \<Rightarrow> Inr root_module))"

definition extract_root_module_name ::
    "file_system \<Rightarrow> (string list \<Rightarrow> int) \<Rightarrow> interpreter \<Rightarrow> path \<Rightarrow> path_cache \<Rightarrow> string res \<times> path_cache" where
  "extract_root_module_name fs hash py file_path c =
     (let pure = site_root fs file_path (purelib py);
          first = (if pure = Inl ValueError then site_root fs file_path (platlib py) else pure)
      in if first \<noteq> Inl ValueError then (first, c)
         else case resolve_system_paths fs hash py c of
                (Inl e, c') \<Rightarrow> (Inl e, c')
              | (Inr resolved, c') \<Rightarrow> (sys_path_root fs file_path resolved, c'))"

text \<open>\<open>_build_package_mapping\<close>: the first distribution with a root module keeps it.\<close>

definition namespace_dir :: "file_system \<Rightarrow> path \<Rightarrow> bool" where
  "namespace_dir fs parent_dir \<longleftrightarrow> is_dir fs parent_dir \<and> \<not> has_init fs parent_dir"

definition namespace_now :: "file_system \<Rightarrow> package_file \<Rightarrow> bool res" where
  "namespace_now fs f =
     (if parts f = [] then Inl IndexError
      else if length (parts f) < 2 then Inr False
      else case located f of
             None \<Rightarrow> Inr False
           | Some p \<Rightarrow> bindr (parents_at p (length (parts f) - 2)) (\<lambda>d. Inr (namespace_dir fs d)))"

definition root_key :: "package_file \<Rightarrow> string option" where
  "root_key f = (case parts f of [] \<Rightarrow> None | base # _ \<Rightarrow> Some base)"

definition is_namespace_package ::
    "file_system \<Rightarrow> package_file \<Rightarrow> (string \<times> bool) list \<Rightarrow> (bool \<times> (string \<times> bool) list) res" where
  "is_namespace_package fs f namespace_cache =
     (case parts f of
        [] \<Rightarrow> Inl IndexError
      | base # _ \<Rightarrow>
          (case map_of namespace_cache base of
             Some b \<Rightarrow> Inr (b, namespace_cache)
           | None \<Rightarrow> bindr (namespace_now fs f) (\<lambda>b. Inr (b, AList.update base b namespace_cache))))"

interpretation ns: memo root_key "namespace_now fs" "\<lambda>c k. Option.bind k (map_of c)" "is_namespace_package fs"
    for fs
proof unfold_locales
  fix c :: "(string \<times> bool) list" and x v
  show "Option.bind (root_key x) (map_of c) = Some v \<Longrightarrow> is_namespace_package fs x c = Inr (v, c)"
    by (auto simp: root_key_def is_namespace_package_def split: list.splits)
  show "is_namespace_package fs x c = Inl e"
    if "Option.bind (root_key x) (map_of c) = None" "namespace_now fs x = Inl e" for e
    using that by (auto simp: root_key_def is_namespace_package_def namespace_now_def split: list.splits)
  assume none: "Option.bind (root_key x) (map_of c) = None" and now: "namespace_now fs x = Inr v"
  then obtain base rest where "parts x = base # rest"
    by (cases "parts x") (auto simp: namespace_now_def)
  moreover have "Option.bind k ((map_of c)(base \<mapsto> v)) = ((\<lambda>k. Option.bind k (map_of c))(Some base \<mapsto> v)) k"
    for k by (cases k) simp_all
  ultimately show "\<exists>c'. is_namespace_package fs x c = Inr (v, c')
      \<and> (\<lambda>k. Option.bind k (map_of c')) = (\<lambda>k. Option.bind k (map_of c))(root_key x \<mapsto> v)"
    using none now by (simp add: is_namespace_package_def root_key_def fun_eq_iff map_of_update)
qed

definition skipped_root :: "string \<Rightarrow> bool" where
  "skipped_root root_module \<longleftrightarrow>
     py_endswith ''.dist-info'' root_module \<or> py_endswith ''.egg-info'' root_module \<or> root_module = ''..''"

fun map_files ::
    "file_system \<Rightarrow> distribution \<Rightarrow> package_file list \<Rightarrow> (string \<times> bool) list \<times> (string \<times> distribution) list
      \<Rightarrow> ((string \<times> bool) list \<times> (string \<times> distribution) list) res" where
  "map_files fs dist_info [] st = Inr st"
| "map_files fs dist_info (f # files) (namespace_cache, package_mapping) =
     (case parts f of
        [] \<Rightarrow> Inl IndexError
      | base # _ \<Rightarrow>
          if skipped_root base then map_files fs dist_info files (namespace_cache, package_mapping)
          else bindr (is_namespace_package fs f namespace_cache) (\<lambda>(b, namespace_cache').
            let root_module = (if b then py_join ''/'' (take 2 (parts f)) else base)
            in map_files fs dist_info files (namespace_cache',
                 if root_module \<in> fst ` set package_mapping then package_mapping
                 else package_mapping @ [(root_module, dist_info)])))"

fun map_distributions ::
    "file_system \<Rightarrow> (package_file list option \<times> distribution) list
      \<Rightarrow> (string \<times> bool) list \<times> (string \<times> distribution) list
      \<Rightarrow> ((string \<times> bool) list \<times> (string \<times> distribution) list) res" where
  "map_distributions fs [] st = Inr st"
| "map_distributions fs ((files, dist_info) # ds) st =
     bindr (map_files fs dist_info (case files of Some xs \<Rightarrow> xs | None \<Rightarrow> []) st) (map_distributions fs ds)"

definition build_package_mapping ::
    "file_system \<Rightarrow> (package_file list option \<times> distribution) list \<Rightarrow> (string \<times> distribution) list option" where
  "build_package_mapping fs distributions =
     (case map_distributions fs distributions ([], []) of Inr (_, m) \<Rightarrow> Some m | Inl e \<Rightarrow> None)"

text \<open>The text of \<open>3rd.txt\<close> is a parameter, its lines.\<close>

definition load_third_party_packages :: "string list res \<Rightarrow> config \<Rightarrow> string set" where
  "load_third_party_packages content cfg =
     (case content of
        Inl e \<Rightarrow> {}
      | Inr package_names \<Rightarrow> (set package_names \<union> set (config_include cfg)) - set (config_exclude cfg))"

definition resolve_package_from_filename ::
    "file_system \<Rightarrow> (string list \<Rightarrow> int) \<Rightarrow> interpreter \<Rightarrow> (string \<times> distribution) list option
      \<Rightarrow> path \<Rightarrow> path_cache \<Rightarrow> distribution option res \<times> path_cache" where
  "resolve_package_from_filename fs hash py package_mapping file_path c =
     (case package_mapping of
        None \<Rightarrow> (Inr None, c)
      | Some m \<Rightarrow>
          (case extract_root_module_name fs hash py file_path c of
             (Inr root_module, c') \<Rightarrow>
               (Inr (case map_of m root_module of
                       Some d \<Rightarrow> Some d
                     | None \<Rightarrow> find (\<lambda>d. dist_name d = root_module) (map snd m)), c')
           | (Inl e, c') \<Rightarrow>
               (if e = ValueError \<or> e = Foreign ''OSError'' then Inr None else Inl e, c')))"

definition is_standard_library :: "file_system \<Rightarrow> interpreter \<Rightarrow> path \<Rightarrow> bool res" where
  "is_standard_library fs py file_path =
     bindr (if \<not> is_absolute file_path \<or> is_symlink fs file_path then resolve fs file_path else Inr file_path)
       (\<lambda>p. Inr ((prefix (stdlib py) p \<or> prefix (platstdlib py) p)
                 \<and> \<not> (prefix (purelib py) p \<or> prefix (platlib py) p)))"

definition is_third_party_package ::
    "file_system \<Rightarrow> (string list \<Rightarrow> int) \<Rightarrow> interpreter \<Rightarrow> (string \<times> distribution) list option \<Rightarrow> string set
      \<Rightarrow> path \<Rightarrow> path_cache \<Rightarrow> bool res \<times> path_cache" where
  "is_third_party_package fs hash py package_mapping third_party_packages file_path c =
     (case resolve_package_from_filename fs hash py package_mapping file_path c of
        (r, c') \<Rightarrow>
          (bindr r (\<lambda>d. Inr (case d of
             None \<Rightarrow> False | Some found \<Rightarrow> py_lower (dist_name found) \<in> third_party_packages)), c'))"

definition is_user_code ::
    "file_system \<Rightarrow> (string list \<Rightarrow> int) \<Rightarrow> interpreter \<Rightarrow> (string \<times> distribution) list option \<Rightarrow> string set
      \<Rightarrow> string \<Rightarrow> path_cache \<Rightarrow> bool res \<times> path_cache" where
  "is_user_code fs hash py package_mapping third_party_packages file_path c =
     (case is_standard_library fs py (path_of file_path) of
        Inl e \<Rightarrow> (Inl e, c)
      | Inr True \<Rightarrow> (Inr False, c)
      | Inr False \<Rightarrow>
          (case is_third_party_package fs hash py package_mapping third_party_packages (path_of file_path) c of
             (r, c') \<Rightarrow> (bindr r (\<lambda>b. Inr (\<not> b)), c')))"

section \<open>The span processor\<close>

definition is_library_instrumentation_span :: "span \<Rightarrow> bool" where
  "is_library_instrumentation_span sp \<longleftrightarrow>
     (case instrumentation_scope sp of
        Some (Some n) \<Rightarrow> py_startswith ''opentelemetry.instrumentation'' n
      | _ \<Rightarrow> False)"

definition should_process_span :: "span \<Rightarrow> bool" where
  "should_process_span sp \<longleftrightarrow>
     \<not> (kind sp \<in> {SERVER, INTERNAL} \<and> is_library_instrumentation_span sp)
     \<and> ''code.function.name'' \<notin> fst ` set (attributes sp)"

definition max_stack_frames :: nat where "max_stack_frames = 50"

text \<open>
  The classification of a file is passed in; it reads and changes the cache of paths. An \<open>OSError\<close> or a
  \<open>ValueError\<close> ends the search quietly.
\<close>

fun search_frames ::
    "(string \<Rightarrow> 'c \<Rightarrow> bool res \<times> 'c) \<Rightarrow> bool \<Rightarrow> nat \<Rightarrow> frame list \<Rightarrow> span \<Rightarrow> 'c
      \<Rightarrow> (exn option \<times> span) \<times> 'c" where
  "search_frames user is_recording frame_index [] sp c = ((None, sp), c)"
| "search_frames user is_recording frame_index (fr # frames) sp c =
     (if frame_index \<ge> max_stack_frames then ((None, sp), c)
      else case user (co_filename fr) c of
             (Inl e, c') \<Rightarrow>
               ((if e = Foreign ''OSError'' \<or> e = ValueError then None else Some e, sp), c')
           | (Inr True, c') \<Rightarrow> ((None, add_code_attributes_to_span_from_frame is_recording fr sp), c')
           | (Inr False, c') \<Rightarrow> search_frames user is_recording (Suc frame_index) frames sp c')"

definition capture_code_attributes ::
    "(string \<Rightarrow> 'c \<Rightarrow> bool res \<times> 'c) \<Rightarrow> bool \<Rightarrow> frame list \<Rightarrow> span \<Rightarrow> 'c \<Rightarrow> (exn option \<times> span) \<times> 'c" where
  "capture_code_attributes user is_recording frames sp c = search_frames user is_recording 0 frames sp c"

definition code_on_start ::
    "(string \<Rightarrow> 'c \<Rightarrow> bool res \<times> 'c) \<Rightarrow> bool \<Rightarrow> frame list \<Rightarrow> span \<Rightarrow> 'c \<Rightarrow> (exn option \<times> span) \<times> 'c" where
  "code_on_start user is_recording frames sp c =
     (if \<not> should_process_span sp then ((None, sp), c)
      else capture_code_attributes user is_recording frames sp c)"

section \<open>The attributed frame\<close>

lemma qualified_name_suffix: "\<exists>before. construct_qualified_name m c n = before @ n"
  by (auto simp: construct_qualified_name_def split: option.splits list.splits)

lemma frame_name_suffix: "\<exists>before. get_function_fullname_from_frame fr = before @ co_name fr"
  using qualified_name_suffix
  by (auto simp: get_function_fullname_from_frame_def Let_def split: option.splits sum.splits)

lemma search_frames_first:
  assumes "\<And>fr c. fr \<in> set (take (max_stack_frames - k) frames) \<Longrightarrow> fst (user (co_filename fr) c) = Inr (b fr)"
  shows "fst (search_frames user is_recording k frames sp c) =
    (None, case find b (take (max_stack_frames - k) frames) of
             None \<Rightarrow> sp | Some fr \<Rightarrow> add_code_attributes_to_span_from_frame is_recording fr sp)"
  using assms
proof (induction user is_recording k frames sp c rule: search_frames.induct)
  case (1 user is_recording k sp c)
  then show ?case by simp
next
  case (2 user is_recording k fr frames sp c)
  show ?case
  proof (cases "k \<ge> max_stack_frames")
    case True
    then show ?thesis by simp
  next
    case False
    then obtain n where n: "max_stack_frames - k = Suc n" "max_stack_frames - Suc k = n"
      by (metis Suc_diff_Suc not_le)
    then have "fst (user (co_filename fr) c) = Inr (b fr)" by (intro "2.prems") simp
    then obtain c' where c': "user (co_filename fr) c = (Inr (b fr), c')" by (metis prod.collapse)
    show ?thesis
    proof (cases "b fr")
      case True
      with c' False n show ?thesis by simp
    next
      case not_user: False
      have "fst (search_frames user is_recording (Suc k) frames sp c') =
          (None, case find b (take (max_stack_frames - Suc k) frames) of
             None \<Rightarrow> sp | Some fr \<Rightarrow> add_code_attributes_to_span_from_frame is_recording fr sp)"
        by (rule "2.IH" [OF False c'[symmetric]]) (use not_user n "2.prems" in auto)
      with c' False n not_user show ?thesis by simp
    qed
  qed
qed

text \<open>C32: A started span is attributed to the innermost frame of user code among the first fifty, and to
  nothing else. When the classification of those frames' files succeeds, the callback never raises; a
  span that is not recording, already carries a function name, or is a server or internal span of an
  instrumentation library is left as it is; otherwise the first user frame gives the three attributes,
  the function name ends with the name of the frame's function, and every other attribute is kept.\<close>

theorem first_user_frame_attributed:
  assumes "\<And>fr c. fr \<in> set (take 50 frames) \<Longrightarrow> fst (user (co_filename fr) c) = Inr (b fr)"
    and "fst (code_on_start user is_recording frames sp c) = (error, sp')"
  shows "error = None
    \<and> (\<not> should_process_span sp \<or> \<not> is_recording \<or> find b (take 50 frames) = None \<longrightarrow> sp' = sp)
    \<and> (should_process_span sp \<and> is_recording \<longrightarrow>
        (\<forall>fr. find b (take 50 frames) = Some fr \<longrightarrow>
           (\<exists>before. get sp' ''code.function.name'' = Some (AStr (before @ co_name fr)))
           \<and> get sp' ''code.file.path'' = Some (AStr (co_filename fr))
           \<and> (f_lineno fr \<noteq> None \<longrightarrow> get sp' ''code.line.number'' = Some (AInt (the (f_lineno fr))))))
    \<and> (\<forall>k. k \<notin> {''code.function.name'', ''code.file.path'', ''code.line.number''} \<longrightarrow> get sp' k = get sp k)"
proof -
  have search: "fst (search_frames user is_recording 0 frames sp c) =
      (None, case find b (take 50 frames) of
         None \<Rightarrow> sp | Some fr \<Rightarrow> add_code_attributes_to_span_from_frame is_recording fr sp)"
    using search_frames_first [of 0 frames user b is_recording sp c] assms(1)
    by (simp add: max_stack_frames_def)
  show ?thesis
  proof (cases "should_process_span sp \<and> is_recording \<and> find b (take 50 frames) \<noteq> None")
    case False
    with assms(2) search show ?thesis
      by (auto simp: code_on_start_def capture_code_attributes_def add_code_attributes_to_span_from_frame_def
          split: if_splits option.splits)
  next
    case True
    then obtain fr where fr: "find b (take 50 frames) = Some fr" by blast
    obtain before where "get_function_fullname_from_frame fr = before @ co_name fr"
      using frame_name_suffix by blast
    with True fr assms(2) search show ?thesis
      by (auto simp: code_on_start_def capture_code_attributes_def add_code_attributes_to_span_from_frame_def
          set_line_def split: option.splits)
  qed
qed

definition demo_frame :: "string \<Rightarrow> string \<Rightarrow> int \<Rightarrow> frame" where
  "demo_frame file name line = \<lparr>co_filename = file, co_name = name, f_lineno = Some line,
     global_name = Text ''shop'', local_self = None, local_cls = None\<rparr>"

theorem first_user_frame_attributed_witness:
  "let frames = [demo_frame ''sdk.py'' ''on_start'' 7, demo_frame ''app.py'' ''pay'' 12,
        demo_frame ''app.py'' ''main'' 40];
      user = (\<lambda>file (u :: unit). (Inr (file = ''app.py'') :: bool res, u));
      sp' = snd (fst (code_on_start user True frames demo_span ()))
   in get sp' ''code.file.path'' = Some (AStr ''app.py'')
      \<and> get sp' ''code.line.number'' = Some (AInt 12)
      \<and> get sp' ''http.method'' = Some (AStr ''GET'')"
proof -
  let ?frames = "[demo_frame ''sdk.py'' ''on_start'' 7, demo_frame ''app.py'' ''pay'' 12,
    demo_frame ''app.py'' ''main'' 40]"
  let ?user = "\<lambda>file (u :: unit). (Inr (file = ''app.py'') :: bool res, u)"
  let ?b = "\<lambda>fr. co_filename fr = ''app.py''"
  obtain error sp' where run: "fst (code_on_start ?user True ?frames demo_span ()) = (error, sp')" by fastforce
  have "should_process_span demo_span" by code_simp
  moreover have "find ?b (take 50 ?frames) = Some (demo_frame ''app.py'' ''pay'' 12)"
    by (simp add: demo_frame_def)
  moreover have "get demo_span ''http.method'' = Some (AStr ''GET'')" by code_simp
  ultimately show ?thesis
    using first_user_frame_attributed [where b = ?b, OF _ run] run by (simp add: demo_frame_def)
qed

section \<open>Files of installed packages\<close>

text \<open>The import root of a file below a directory, and the files that count for the mapping, in order.\<close>

definition import_root :: "file_system \<Rightarrow> path \<Rightarrow> package_file \<Rightarrow> string" where
  "import_root fs base f =
     (if 2 \<le> length (parts f) \<and> namespace_dir fs (base @ [hd (parts f)])
      then py_join ''/'' (take 2 (parts f)) else hd (parts f))"

definition kept_files :: "package_file list \<Rightarrow> package_file list" where
  "kept_files = filter (\<lambda>f. \<not> skipped_root (hd (parts f)))"

definition listed_files ::
    "(package_file list option \<times> distribution) list \<Rightarrow> (package_file \<times> distribution) list" where
  "listed_files ds =
     concat (map (\<lambda>(files, d). map (\<lambda>f. (f, d)) (kept_files (case files of Some xs \<Rightarrow> xs | None \<Rightarrow> []))) ds)"

text \<open>A file installed below a directory: directories contain what the file names say.\<close>

definition installed :: "file_system \<Rightarrow> path \<Rightarrow> package_file \<Rightarrow> bool" where
  "installed fs base f \<longleftrightarrow>
     parts f \<noteq> [] \<and> located f = Some (base @ parts f)
     \<and> (is_dir fs (base @ [hd (parts f)]) \<longleftrightarrow> 2 \<le> length (parts f))"

lemma installed_namespace:
  assumes "installed fs base f"
  shows "namespace_now fs f = Inr (2 \<le> length (parts f) \<and> namespace_dir fs (base @ [hd (parts f)]))"
proof (cases "2 \<le> length (parts f)")
  case False
  with assms show ?thesis by (auto simp: namespace_now_def installed_def)
next
  case True
  then obtain a b rest where p: "parts f = a # b # rest"
    by (cases "parts f"; cases "tl (parts f)") auto
  have "parents_at (base @ parts f) (length (parts f) - 2) = Inr (base @ [a])"
    by (simp add: parents_at_def p)
  with assms p show ?thesis by (simp add: namespace_now_def installed_def)
qed

lemma installed_keyed: "ns.keyed fs {f. installed fs base f}"
  unfolding ns.keyed_def
proof (intro ballI impI)
  fix f g
  assume fg: "f \<in> {f. installed fs base f}" "g \<in> {f. installed fs base f}" "root_key f = root_key g"
  then have "hd (parts f) = hd (parts g)"
    by (auto simp: root_key_def installed_def split: list.splits)
  with fg(1,2) have "2 \<le> length (parts f) \<longleftrightarrow> 2 \<le> length (parts g)" by (simp add: installed_def)
  with fg \<open>hd (parts f) = hd (parts g)\<close> show "namespace_now fs f = namespace_now fs g"
    by (simp add: installed_namespace)
qed

lemma map_of_setdefault_append:
  "map_of ((if k \<in> fst ` set m then m else m @ [(k, v)]) @ rest) = map_of (m @ (k, v) # rest)"
  by (auto simp: map_add_def fun_eq_iff split: option.splits dest: weak_map_of_SomeI)

lemma map_files_mapping:
  assumes "\<forall>f \<in> set files. installed fs base f" "ns.coherent fs {f. installed fs base f} cache"
  obtains cache' m' where "map_files fs d files (cache, m) = Inr (cache', m')"
    "ns.coherent fs {f. installed fs base f} cache'"
    "\<And>rest. map_of (m' @ rest) = map_of (m @ map (\<lambda>f. (import_root fs base f, d)) (kept_files files) @ rest)"
  using assms
proof (induction files arbitrary: cache m thesis)
  case Nil
  then show ?case by (simp add: kept_files_def)
next
  case (Cons f files)
  then have f: "installed fs base f" and files: "\<forall>f \<in> set files. installed fs base f" by auto
  then obtain a as where p: "parts f = a # as" by (cases "parts f") (auto simp: installed_def)
  show ?case
  proof (cases "skipped_root a")
    case True
    with Cons.IH [OF _ files Cons.prems(3), of m] Cons.prems(1) p show ?thesis
      by (auto simp: kept_files_def)
  next
    case False
    define b where "b = (2 \<le> length (parts f) \<and> namespace_dir fs (base @ [hd (parts f)]))"
    obtain cache2 where c2: "is_namespace_package fs f cache = Inr (b, cache2)"
      "ns.coherent fs {f. installed fs base f} cache2"
      unfolding b_def using ns.ask_computes [OF Cons.prems(3) installed_keyed _ installed_namespace [OF f]] f by auto
    let ?k = "import_root fs base f"
    let ?m = "if ?k \<in> fst ` set m then m else m @ [(?k, d)]"
    have k: "(if b then py_join ''/'' (take 2 (parts f)) else a) = ?k" by (simp add: import_root_def b_def p)
    obtain cache' m' where run: "map_files fs d files (cache2, ?m) = Inr (cache', m')"
      "ns.coherent fs {f. installed fs base f} cache'"
      "\<And>rest. map_of (m' @ rest) = map_of (?m @ map (\<lambda>f. (import_root fs base f, d)) (kept_files files) @ rest)"
      using Cons.IH [OF _ files c2(2), of ?m] by blast
    have "map_files fs d (f # files) (cache, m) = Inr (cache', m')"
      using run(1) False c2(1) k by (cases b; cases "?k \<in> fst ` set m") (simp_all add: p Let_def)
    moreover have "map_of (m' @ rest) = map_of (m @ map (\<lambda>f. (import_root fs base f, d)) (kept_files (f # files)) @ rest)"
      for rest using False p by (simp only: run(3) map_of_setdefault_append) (simp add: kept_files_def)
    ultimately show ?thesis using run(2) Cons.prems(1) by blast
  qed
qed

lemma map_distributions_mapping:
  assumes "\<forall>(files, d) \<in> set ds. \<forall>f \<in> set (case files of Some xs \<Rightarrow> xs | None \<Rightarrow> []). installed fs base f"
    and "ns.coherent fs {f. installed fs base f} cache"
  obtains cache' m' where "map_distributions fs ds (cache, m) = Inr (cache', m')"
    "map_of m' = map_of (m @ map (\<lambda>(f, d). (import_root fs base f, d)) (listed_files ds))"
  using assms
proof (induction ds arbitrary: cache m thesis)
  case Nil
  then show ?case by (simp add: listed_files_def)
next
  case (Cons x ds)
  obtain files d where x: "x = (files, d)" by fastforce
  let ?fs = "case files of Some xs \<Rightarrow> xs | None \<Rightarrow> []"
  have "\<forall>f \<in> set ?fs. installed fs base f" using Cons.prems(2) x by auto
  then obtain cache2 m2 where run: "map_files fs d ?fs (cache, m) = Inr (cache2, m2)"
    "ns.coherent fs {f. installed fs base f} cache2"
    "\<And>rest. map_of (m2 @ rest) = map_of (m @ map (\<lambda>f. (import_root fs base f, d)) (kept_files ?fs) @ rest)"
    using map_files_mapping [OF _ Cons.prems(3)] by metis
  obtain cache' m' where ds: "map_distributions fs ds (cache2, m2) = Inr (cache', m')"
    "map_of m' = map_of (m2 @ map (\<lambda>(f, d). (import_root fs base f, d)) (listed_files ds))"
    using Cons.IH [OF _ _ run(2), of m2] Cons.prems(2) by auto
  show ?case
  proof (rule Cons.prems(1))
    show "map_distributions fs (x # ds) (cache, m) = Inr (cache', m')" using run(1) ds(1) by (simp add: x)
    show "map_of m' = map_of (m @ map (\<lambda>(f, d). (import_root fs base f, d)) (listed_files (x # ds)))"
      by (simp only: ds(2) run(3)) (simp add: x listed_files_def comp_def)
  qed
qed

lemma built_mapping:
  assumes "\<forall>(files, d) \<in> set ds. \<forall>f \<in> set (case files of Some xs \<Rightarrow> xs | None \<Rightarrow> []). installed fs base f"
  obtains m where "build_package_mapping fs ds = Some m"
    "map_of m = map_of (map (\<lambda>(f, d). (import_root fs base f, d)) (listed_files ds))"
proof -
  have "ns.coherent fs {f. installed fs base f} []" by (rule ns.coherent_empty) (auto simp: fun_eq_iff bind_eq_None_conv)
  from map_distributions_mapping [OF assms this, of "[]"] that show ?thesis
    by (force simp: build_package_mapping_def)
qed

lemma map_of_first:
  "find (\<lambda>(g, d). key g = k) xs = Some (g, d) \<Longrightarrow> map_of (map (\<lambda>(f, d). (key f, d)) xs) k = Some d"
  by (induction xs) (auto split: if_splits)

lemma installed_root:
  assumes "installed fs (purelib py) f" "resolve fs (purelib py @ parts f) = Inr (purelib py @ parts f)"
  shows "extract_root_module_name fs hash py (purelib py @ parts f) c = (Inr (import_root fs (purelib py) f), c)"
proof -
  obtain a as where p: "parts f = a # as" using assms(1) by (cases "parts f") (auto simp: installed_def)
  have "site_root fs (purelib py @ parts f) (purelib py) = Inr (import_root fs (purelib py) f)"
    using assms
    by (cases as)
       (auto simp: site_root_def relative_to_def determine_effective_root_def import_root_def p Let_def
         namespace_dir_def installed_def path_text_def)
  then show ?thesis by (simp add: extract_root_module_name_def)
qed

text \<open>C2: A file of an installed package is traced to the distribution that brought it. When every listed file
  lies in the site directory, the mapping can be built, and a file of a distribution resolves to the first
  distribution, in the order they are listed, that has a file of the same import root (a module, a
  package, or a package inside a namespace directory). The file then counts as user code exactly when the
  lower-case name of that distribution is not among the third-party packages. The table of namespace
  decisions never changes an answer.\<close>

theorem package_files_resolved:
  assumes "\<forall>(files, d) \<in> set ds. \<forall>f \<in> set (case files of Some xs \<Rightarrow> xs | None \<Rightarrow> []).
      installed fs (purelib py) f"
    and "(f, d0) \<in> set (listed_files ds)"
    and "resolve fs (purelib py @ parts f) = Inr (purelib py @ parts f)"
    and "path_of s = purelib py @ parts f" "is_absolute (path_of s)" "\<not> is_symlink fs (path_of s)"
  shows "\<exists>m g d. build_package_mapping fs ds = Some m
    \<and> find (\<lambda>(g, d). import_root fs (purelib py) g = import_root fs (purelib py) f) (listed_files ds) = Some (g, d)
    \<and> resolve_package_from_filename fs hash py (Some m) (path_of s) c = (Inr (Some d), c)
    \<and> is_user_code fs hash py (Some m) third s c = (Inr (py_lower (dist_name d) \<notin> third), c)"
proof -
  obtain m where m: "build_package_mapping fs ds = Some m"
    "map_of m = map_of (map (\<lambda>(f, d). (import_root fs (purelib py) f, d)) (listed_files ds))"
    using built_mapping [OF assms(1)] by blast
  let ?P = "\<lambda>(g, d). import_root fs (purelib py) g = import_root fs (purelib py) f"
  have "find ?P (listed_files ds) \<noteq> None" using assms(2) by (auto simp: find_None_iff)
  then obtain g d where first: "find ?P (listed_files ds) = Some (g, d)" by fastforce
  have f: "installed fs (purelib py) f"
    using assms(1,2) by (fastforce simp: listed_files_def kept_files_def)
  have "map_of m (import_root fs (purelib py) f) = Some d" using map_of_first [OF first] m(2) by simp
  then have found: "resolve_package_from_filename fs hash py (Some m) (path_of s) c = (Inr (Some d), c)"
    by (simp add: resolve_package_from_filename_def assms(4) installed_root [OF f assms(3)])
  have "is_standard_library fs py (path_of s) = Inr False"
    using assms(4-6) by (simp add: is_standard_library_def)
  then have "is_user_code fs hash py (Some m) third s c = (Inr (py_lower (dist_name d) \<notin> third), c)"
    by (simp add: is_user_code_def is_third_party_package_def found)
  with m(1) first found show ?thesis by blast
qed

definition demo_fs :: file_system where
  "demo_fs = \<lparr>resolve = Inr, is_dir = (\<lambda>p. p \<in> {[''/'', ''site'', ''requests''], [''/'', ''site'', ''google'']}),
     path_exists = (\<lambda>p. p = [''/'', ''site'', ''requests'', ''__init__.py'']), is_symlink = (\<lambda>p. False)\<rparr>"

definition demo_py :: interpreter where
  "demo_py = \<lparr>stdlib = [''/'', ''lib''], platstdlib = [''/'', ''lib''], purelib = [''/'', ''site''],
     platlib = [''/'', ''site''], sys_path = []\<rparr>"

definition demo_file :: "path \<Rightarrow> package_file" where
  "demo_file p = \<lparr>parts = p, located = Some ([''/'', ''site''] @ p)\<rparr>"

definition demo_distributions :: "(package_file list option \<times> distribution) list" where
  "demo_distributions =
     [(Some [demo_file [''google'', ''auth'', ''a.py'']], \<lparr>dist_name = ''google-auth'', dist_version = ''2''\<rparr>),
      (None, \<lparr>dist_name = ''empty'', dist_version = ''1''\<rparr>),
      (Some [demo_file [''six.py''], demo_file [''requests'', ''api.py'']],
       \<lparr>dist_name = ''Requests'', dist_version = ''2.3''\<rparr>)]"

theorem package_files_resolved_witness:
  "\<exists>m. build_package_mapping demo_fs demo_distributions = Some m
    \<and> is_user_code demo_fs (\<lambda>_. 0) demo_py (Some m) {''requests''} ''/site/requests/api.py''
        \<lparr>sys_path_hash = None, resolved_sys_path = []\<rparr>
      = (Inr False, \<lparr>sys_path_hash = None, resolved_sys_path = []\<rparr>)"
proof -
  let ?f = "demo_file [''requests'', ''api.py'']"
  have path: "path_of ''/site/requests/api.py'' = purelib demo_py @ parts ?f" by code_simp
  have layout: "\<forall>(files, d) \<in> set demo_distributions.
      \<forall>f \<in> set (case files of Some xs \<Rightarrow> xs | None \<Rightarrow> []). installed demo_fs (purelib demo_py) f"
    by (simp add: demo_distributions_def installed_def demo_file_def demo_py_def demo_fs_def)
  have listed: "listed_files demo_distributions =
      [(demo_file [''google'', ''auth'', ''a.py''], \<lparr>dist_name = ''google-auth'', dist_version = ''2''\<rparr>),
       (demo_file [''six.py''], \<lparr>dist_name = ''Requests'', dist_version = ''2.3''\<rparr>),
       (?f, \<lparr>dist_name = ''Requests'', dist_version = ''2.3''\<rparr>)]"
    by (simp add: listed_files_def demo_distributions_def kept_files_def skipped_root_def demo_file_def
        py_endswith_def)
  have roots: "import_root demo_fs (purelib demo_py) ?f = ''requests''"
    "import_root demo_fs (purelib demo_py) (demo_file [''google'', ''auth'', ''a.py'']) = ''google/auth''"
    "import_root demo_fs (purelib demo_py) (demo_file [''six.py'']) = ''six.py''"
    by (simp_all add: import_root_def demo_file_def demo_py_def demo_fs_def namespace_dir_def has_init_def)
  have "py_lower ''Requests'' = ''requests''" by code_simp
  moreover have "is_absolute (path_of ''/site/requests/api.py'')" "\<not> is_symlink demo_fs (path_of ''/site/requests/api.py'')"
    "resolve demo_fs (purelib demo_py @ parts ?f) = Inr (purelib demo_py @ parts ?f)"
    by (simp_all add: path is_absolute_def demo_py_def demo_fs_def)
  ultimately show ?thesis
    using package_files_resolved [OF layout _ _ path, where third = "{''requests''}" and hash = "\<lambda>_. 0"
        and c = "\<lparr>sys_path_hash = None, resolved_sys_path = []\<rparr>" and ?d0.0 = "\<lparr>dist_name = ''Requests'', dist_version = ''2.3''\<rparr>"]
    by (simp add: listed roots) blast
qed

end
