(* ===== verification/PathCache.thy ===== *)
theory PathCache
  imports CodeCorrelation
begin

text \<open>
  The cache of \<open>_resolve_system_paths\<close> in \<open>internal/packages_resolver.py\<close> under several threads. Each
  thread runs the function once; a step is one access to the shared state: the hash, the resolved paths
  and the lock. \<open>sys.path\<close> may change between any two steps. The rules are named after the
  line they perform.
\<close>

section \<open>Threads\<close>

text \<open>
  Where a thread is: before the function, with the hash it computed before the fast test, waiting for the
  lock, holding it before the second test, resolving after it has published its hash, about to read the
  resolved paths, and finished.
\<close>

datatype pc = Start | Hashed int | Waiting int | Locked int | Resolving | Reading | Finished "path list res"

record threads =
  shared :: path_cache
  holder :: "nat option"
  search_path :: "string list"
  pcs :: "nat \<Rightarrow> pc"

abbreviation goto :: "nat \<Rightarrow> pc \<Rightarrow> threads \<Rightarrow> threads" where
  "goto t p s \<equiv> s\<lparr>pcs := (pcs s)(t := p)\<rparr>"

definition resolved_now :: "file_system \<Rightarrow> threads \<Rightarrow> path list res" where
  "resolved_now fs s = map_res (\<lambda>p. resolve fs (path_of p)) (search_path s)"

definition publish_hash :: "int \<Rightarrow> path_cache \<Rightarrow> path_cache" where
  "publish_hash h c = c\<lparr>sys_path_hash := Some h\<rparr>"

definition store_paths :: "path list \<Rightarrow> path_cache \<Rightarrow> path_cache" where
  "store_paths ps c = c\<lparr>resolved_sys_path := ps\<rparr>"

inductive cache_step :: "file_system \<Rightarrow> (string list \<Rightarrow> int) \<Rightarrow> threads \<Rightarrow> threads \<Rightarrow> bool"
  for fs :: file_system and hash :: "string list \<Rightarrow> int" where
  compute_hash: "pcs s t = Start \<Longrightarrow> cache_step fs hash s (goto t (Hashed (hash (search_path s))) s)"
| fast_hit: "pcs s t = Hashed h \<Longrightarrow> sys_path_hash (shared s) = Some h \<Longrightarrow> cache_step fs hash s (goto t Reading s)"
| fast_miss: "pcs s t = Hashed h \<Longrightarrow> sys_path_hash (shared s) \<noteq> Some h \<Longrightarrow>
    cache_step fs hash s (goto t (Waiting h) s)"
| acquire: "pcs s t = Waiting h \<Longrightarrow> holder s = None \<Longrightarrow>
    cache_step fs hash s (goto t (Locked h) s\<lparr>holder := Some t\<rparr>)"
| second_hit: "pcs s t = Locked h \<Longrightarrow> sys_path_hash (shared s) = Some h \<Longrightarrow>
    cache_step fs hash s (goto t Reading s\<lparr>holder := None\<rparr>)"
| publish: "pcs s t = Locked h \<Longrightarrow> sys_path_hash (shared s) \<noteq> Some h \<Longrightarrow>
    cache_step fs hash s (goto t Resolving s\<lparr>shared := publish_hash h (shared s)\<rparr>)"
| resolved: "pcs s t = Resolving \<Longrightarrow> resolved_now fs s = Inr ps \<Longrightarrow>
    cache_step fs hash s (goto t Reading s\<lparr>shared := store_paths ps (shared s), holder := None\<rparr>)"
| resolve_raises: "pcs s t = Resolving \<Longrightarrow> resolved_now fs s = Inl e \<Longrightarrow>
    cache_step fs hash s (goto t (Finished (Inl e)) s\<lparr>holder := None\<rparr>)"
| read_paths: "pcs s t = Reading \<Longrightarrow>
    cache_step fs hash s (goto t (Finished (Inr (resolved_sys_path (shared s)))) s)"
| change_sys_path: "cache_step fs hash s (s\<lparr>search_path := new\<rparr>)"

text \<open>The steps of the threads alone: \<open>sys.path\<close> stays the same.\<close>

definition thread_step :: "file_system \<Rightarrow> (string list \<Rightarrow> int) \<Rightarrow> threads \<Rightarrow> threads \<Rightarrow> bool" where
  "thread_step fs hash s s' \<longleftrightarrow> cache_step fs hash s s' \<and> search_path s' = search_path s"

definition idle_threads :: "path_cache \<Rightarrow> string list \<Rightarrow> threads" where
  "idle_threads c sys_paths = \<lparr>shared = c, holder = None, search_path = sys_paths, pcs = (\<lambda>t. Start)\<rparr>"

section \<open>Mutual exclusion\<close>

definition inside :: "pc \<Rightarrow> bool" where
  "inside p \<longleftrightarrow> (case p of Locked h \<Rightarrow> True | Resolving \<Rightarrow> True | _ \<Rightarrow> False)"

definition exclusive :: "threads \<Rightarrow> bool" where
  "exclusive s \<longleftrightarrow> (\<forall>t. inside (pcs s t) \<longleftrightarrow> holder s = Some t)"

lemma inside_simps [simp]:
  "\<not> inside Start" "\<not> inside (Hashed h)" "\<not> inside (Waiting h)" "inside (Locked h)" "inside Resolving"
  "\<not> inside Reading" "\<not> inside (Finished r)"
  by (simp_all add: inside_def)

lemma exclusive_goto:
  assumes "exclusive s"
  shows "\<not> inside (pcs s t) \<Longrightarrow> \<not> inside p \<Longrightarrow> exclusive (goto t p s)"
    and "inside (pcs s t) \<Longrightarrow> inside p \<Longrightarrow> exclusive (goto t p s\<lparr>shared := c\<rparr>)"
    and "\<not> inside (pcs s t) \<Longrightarrow> inside p \<Longrightarrow> holder s = None \<Longrightarrow> exclusive (goto t p s\<lparr>holder := Some t\<rparr>)"
    and "inside (pcs s t) \<Longrightarrow> \<not> inside p \<Longrightarrow> exclusive (goto t p s\<lparr>holder := None\<rparr>)"
    and "inside (pcs s t) \<Longrightarrow> \<not> inside p \<Longrightarrow> exclusive (goto t p s\<lparr>shared := c, holder := None\<rparr>)"
  using assms unfolding exclusive_def by simp_all

lemma cache_step_exclusive:
  assumes "cache_step fs hash s s'" "exclusive s"
  shows "exclusive s'"
  using assms(1)
proof cases
  case (change_sys_path new)
  then show ?thesis using assms(2) by (simp add: exclusive_def)
qed (simp_all add: exclusive_goto [OF assms(2)])

lemma idle_exclusive: "exclusive (idle_threads c sys_paths)"
  by (simp add: exclusive_def idle_threads_def)

section \<open>What the threads return\<close>

text \<open>
  The paths the cache holds once it has the hash of the current \<open>sys.path\<close> and nobody is resolving: the
  old ones when the hash was there from the start or resolving has raised.
\<close>

definition settled_paths :: "file_system \<Rightarrow> (string list \<Rightarrow> int) \<Rightarrow> path_cache \<Rightarrow> string list \<Rightarrow> path list" where
  "settled_paths fs hash c sys_paths =
     (if sys_path_hash c = Some (hash sys_paths) then resolved_sys_path c
      else case map_res (\<lambda>p. resolve fs (path_of p)) sys_paths of Inr ps \<Rightarrow> ps | Inl e \<Rightarrow> resolved_sys_path c)"

definition carried_hash :: "pc \<Rightarrow> int option" where
  "carried_hash p = (case p of Hashed h \<Rightarrow> Some h | Waiting h \<Rightarrow> Some h | Locked h \<Rightarrow> Some h | _ \<Rightarrow> None)"

text \<open>
  The phases of the cache: untouched; published, with one thread resolving; settled.
\<close>

definition phase_ok :: "file_system \<Rightarrow> (string list \<Rightarrow> int) \<Rightarrow> path_cache \<Rightarrow> string list \<Rightarrow> threads \<Rightarrow> bool" where
  "phase_ok fs hash c sys_paths s \<longleftrightarrow>
     (if sys_path_hash (shared s) \<noteq> Some (hash sys_paths) then shared s = c \<and> (\<forall>t. pcs s t \<noteq> Resolving)
      else if \<exists>t. pcs s t = Resolving
      then sys_path_hash c \<noteq> Some (hash sys_paths) \<and> resolved_sys_path (shared s) = resolved_sys_path c
      else resolved_sys_path (shared s) = settled_paths fs hash c sys_paths)"

definition pc_ok :: "file_system \<Rightarrow> (string list \<Rightarrow> int) \<Rightarrow> path_cache \<Rightarrow> string list \<Rightarrow> pc \<Rightarrow> bool" where
  "pc_ok fs hash c sys_paths p \<longleftrightarrow>
     (carried_hash p = None \<or> carried_hash p = Some (hash sys_paths))
     \<and> (\<forall>r. p = Finished r \<longrightarrow> r = Inr (resolved_sys_path c) \<or> r = map_res (\<lambda>p. resolve fs (path_of p)) sys_paths)"

definition cache_inv :: "file_system \<Rightarrow> (string list \<Rightarrow> int) \<Rightarrow> path_cache \<Rightarrow> string list \<Rightarrow> threads \<Rightarrow> bool" where
  "cache_inv fs hash c sys_paths s \<longleftrightarrow>
     exclusive s \<and> search_path s = sys_paths \<and> (\<forall>t. pc_ok fs hash c sys_paths (pcs s t))
     \<and> phase_ok fs hash c sys_paths s"

lemma pc_ok_simps [simp]:
  "pc_ok fs hash c sys_paths Start" "pc_ok fs hash c sys_paths Resolving" "pc_ok fs hash c sys_paths Reading"
  "pc_ok fs hash c sys_paths (Hashed h) \<longleftrightarrow> h = hash sys_paths"
  "pc_ok fs hash c sys_paths (Waiting h) \<longleftrightarrow> h = hash sys_paths"
  "pc_ok fs hash c sys_paths (Locked h) \<longleftrightarrow> h = hash sys_paths"
  "pc_ok fs hash c sys_paths (Finished r) \<longleftrightarrow>
     r = Inr (resolved_sys_path c) \<or> r = map_res (\<lambda>p. resolve fs (path_of p)) sys_paths"
  by (auto simp: pc_ok_def carried_hash_def)

lemma one_resolving:
  "exclusive s \<Longrightarrow> pcs s t = Resolving \<Longrightarrow> inside p \<or> p = Resolving \<Longrightarrow> pcs s u = p \<Longrightarrow> u = t"
  unfolding exclusive_def by (metis inside_simps(5) option.inject)

text \<open>A step of a thread that neither starts nor ends resolving keeps the phase.\<close>

lemma phase_frame:
  assumes "phase_ok fs hash c sys_paths s" "pcs s t \<noteq> Resolving" "p \<noteq> Resolving"
  shows "phase_ok fs hash c sys_paths (goto t p s)" "phase_ok fs hash c sys_paths (goto t p s\<lparr>holder := h\<rparr>)"
proof -
  have "(\<exists>u. ((pcs s)(t := p)) u = Resolving) = (\<exists>u. pcs s u = Resolving)"
    unfolding fun_upd_apply using assms(2,3) by metis
  then show "phase_ok fs hash c sys_paths (goto t p s)" "phase_ok fs hash c sys_paths (goto t p s\<lparr>holder := h\<rparr>)"
    using assms(1) unfolding phase_ok_def by (auto split: if_splits)
qed

lemma cached_paths:
  assumes "phase_ok fs hash c sys_paths s"
  shows "Inr (resolved_sys_path (shared s)) = Inr (resolved_sys_path c)
    \<or> Inr (resolved_sys_path (shared s)) = map_res (\<lambda>p. resolve fs (path_of p)) sys_paths"
  using assms by (auto simp: phase_ok_def settled_paths_def split: if_splits sum.splits)

lemma phase_resolved:
  assumes inv: "cache_inv fs hash c sys_paths s" and t: "pcs s t = Resolving" and p: "p \<noteq> Resolving"
    and s': "pcs s' = (pcs s)(t := p)" "sys_path_hash (shared s') = sys_path_hash (shared s)"
      "resolved_sys_path (shared s') = settled_paths fs hash c sys_paths"
  shows "phase_ok fs hash c sys_paths s'"
proof -
  have "pcs s' u \<noteq> Resolving" for u
    using one_resolving [of s t Resolving u] inv t p by (auto simp: s' cache_inv_def)
  moreover have "sys_path_hash (shared s) = Some (hash sys_paths)"
    using inv t by (auto simp: cache_inv_def phase_ok_def split: if_splits)
  ultimately show ?thesis by (simp add: phase_ok_def s')
qed

lemma resolving_old:
  assumes "cache_inv fs hash c sys_paths s" "pcs s t = Resolving"
  shows "resolved_sys_path (shared s) = resolved_sys_path c" "sys_path_hash c \<noteq> Some (hash sys_paths)"
  using assms by (auto simp: cache_inv_def phase_ok_def split: if_splits)

lemma thread_step_inv:
  assumes step: "thread_step fs hash s s'" and inv: "cache_inv fs hash c sys_paths s"
  shows "cache_inv fs hash c sys_paths s'"
proof -
  have now: "search_path s = sys_paths" and pc: "pc_ok fs hash c sys_paths (pcs s t)" for t
    using inv by (simp_all add: cache_inv_def)
  have phase: "phase_ok fs hash c sys_paths s" using inv by (simp add: cache_inv_def)
  have "cache_step fs hash s s'" using step by (simp add: thread_step_def)
  then have "(\<forall>t. pc_ok fs hash c sys_paths (pcs s' t)) \<and> phase_ok fs hash c sys_paths s'"
  proof cases
    case (publish t h)
    then have h: "h = hash sys_paths" using pc [of t] by simp
    with publish phase have "shared s = c" "sys_path_hash c \<noteq> Some (hash sys_paths)"
      by (auto simp: phase_ok_def)
    then have "phase_ok fs hash c sys_paths s'"
      using publish h by (auto simp: phase_ok_def publish_hash_def)
    then show ?thesis using pc publish by simp
  next
    case (resolved t ps)
    then have "settled_paths fs hash c sys_paths = ps"
      using resolving_old(2) [OF inv] now by (simp add: settled_paths_def resolved_now_def)
    then have "phase_ok fs hash c sys_paths s'"
      by (intro phase_resolved [OF inv resolved(2), of Reading]) (simp_all add: resolved store_paths_def)
    then show ?thesis using pc resolved by simp
  next
    case (resolve_raises t e)
    then have "settled_paths fs hash c sys_paths = resolved_sys_path (shared s)"
      using resolving_old [OF inv] now by (simp add: settled_paths_def resolved_now_def)
    then have "phase_ok fs hash c sys_paths s'"
      by (intro phase_resolved [OF inv resolve_raises(2), of "Finished (Inl e)"]) (simp_all add: resolve_raises)
    then show ?thesis using pc resolve_raises now by (simp add: resolved_now_def)
  next
    case (read_paths t)
    then show ?thesis using pc cached_paths [OF phase] phase_frame [OF phase, of t] by simp
  next
    case (change_sys_path new)
    then show ?thesis using pc phase by (simp add: phase_ok_def)
  next
    case (compute_hash t)
    then show ?thesis using pc phase_frame [OF phase, of t] now by simp
  next
    case (fast_hit t h)
    then show ?thesis using pc phase_frame [OF phase, of t] by simp
  next
    case (fast_miss t h)
    then show ?thesis using pc [of t] pc phase_frame [OF phase, of t] by simp
  next
    case (acquire t h)
    then show ?thesis using pc [of t] pc phase_frame [OF phase, of t] by simp
  next
    case (second_hit t h)
    then show ?thesis using pc phase_frame [OF phase, of t] by simp
  qed
  then show ?thesis
    using step inv cache_step_exclusive by (auto simp: cache_inv_def thread_step_def)
qed

lemma thread_steps_inv:
  assumes "(thread_step fs hash)\<^sup>*\<^sup>* s s'" "cache_inv fs hash c sys_paths s"
  shows "cache_inv fs hash c sys_paths s'"
  using assms by (induction rule: rtranclp_induct) (auto intro: thread_step_inv)

lemma idle_inv: "cache_inv fs hash c sys_paths (idle_threads c sys_paths)"
  using idle_exclusive [of c sys_paths]
  by (simp add: cache_inv_def idle_threads_def phase_ok_def settled_paths_def)

section \<open>Schedules\<close>

text \<open>
  The next step of one thread; a thread that waits for a lock another one holds, and a thread that has
  finished, stays where it is.
\<close>

definition advance :: "file_system \<Rightarrow> (string list \<Rightarrow> int) \<Rightarrow> nat \<Rightarrow> threads \<Rightarrow> threads" where
  "advance fs hash t s =
     (case pcs s t of
        Start \<Rightarrow> goto t (Hashed (hash (search_path s))) s
      | Hashed h \<Rightarrow> if sys_path_hash (shared s) = Some h then goto t Reading s else goto t (Waiting h) s
      | Waiting h \<Rightarrow> if holder s = None then goto t (Locked h) s\<lparr>holder := Some t\<rparr> else s
      | Locked h \<Rightarrow>
          if sys_path_hash (shared s) = Some h then goto t Reading s\<lparr>holder := None\<rparr>
          else goto t Resolving s\<lparr>shared := publish_hash h (shared s)\<rparr>
      | Resolving \<Rightarrow>
          (case resolved_now fs s of
             Inr ps \<Rightarrow> goto t Reading s\<lparr>shared := store_paths ps (shared s), holder := None\<rparr>
           | Inl e \<Rightarrow> goto t (Finished (Inl e)) s\<lparr>holder := None\<rparr>)
      | Reading \<Rightarrow> goto t (Finished (Inr (resolved_sys_path (shared s)))) s
      | Finished r \<Rightarrow> s)"

definition run_schedule :: "file_system \<Rightarrow> (string list \<Rightarrow> int) \<Rightarrow> nat list \<Rightarrow> threads \<Rightarrow> threads" where
  "run_schedule fs hash sched s = foldl (\<lambda>s t. advance fs hash t s) s sched"

lemma advance_simps:
  "pcs s t = Start \<Longrightarrow> advance fs hash t s = goto t (Hashed (hash (search_path s))) s"
  "pcs s t = Hashed h \<Longrightarrow> sys_path_hash (shared s) = Some h \<Longrightarrow> advance fs hash t s = goto t Reading s"
  "pcs s t = Hashed h \<Longrightarrow> sys_path_hash (shared s) \<noteq> Some h \<Longrightarrow> advance fs hash t s = goto t (Waiting h) s"
  "pcs s t = Waiting h \<Longrightarrow> holder s = None \<Longrightarrow> advance fs hash t s = goto t (Locked h) s\<lparr>holder := Some t\<rparr>"
  "pcs s t = Locked h \<Longrightarrow> sys_path_hash (shared s) = Some h \<Longrightarrow>
     advance fs hash t s = goto t Reading s\<lparr>holder := None\<rparr>"
  "pcs s t = Locked h \<Longrightarrow> sys_path_hash (shared s) \<noteq> Some h \<Longrightarrow>
     advance fs hash t s = goto t Resolving s\<lparr>shared := publish_hash h (shared s)\<rparr>"
  "pcs s t = Resolving \<Longrightarrow> resolved_now fs s = Inr ps \<Longrightarrow>
     advance fs hash t s = goto t Reading s\<lparr>shared := store_paths ps (shared s), holder := None\<rparr>"
  "pcs s t = Resolving \<Longrightarrow> resolved_now fs s = Inl e \<Longrightarrow>
     advance fs hash t s = goto t (Finished (Inl e)) s\<lparr>holder := None\<rparr>"
  "pcs s t = Reading \<Longrightarrow> advance fs hash t s = goto t (Finished (Inr (resolved_sys_path (shared s)))) s"
  by (simp_all add: advance_def)

lemma advance_step: "thread_step fs hash s (advance fs hash t s)"
proof -
  have stay: "cache_step fs hash s s" using change_sys_path [of fs hash s "search_path s"] by simp
  have "cache_step fs hash s (advance fs hash t s)"
    by (cases "pcs s t") (auto simp: advance_def stay split: sum.splits intro: cache_step.intros)
  moreover have "search_path (advance fs hash t s) = search_path s"
    by (cases "pcs s t") (simp_all add: advance_def split: sum.splits)
  ultimately show ?thesis by (simp add: thread_step_def)
qed

lemma cache_step_advance:
  "cache_step fs hash s s' \<Longrightarrow> (\<exists>t. s' = advance fs hash t s) \<or> (\<exists>new. s' = s\<lparr>search_path := new\<rparr>)"
  by (induction rule: cache_step.induct) (use advance_simps in metis)+

lemma step_advance: "thread_step fs hash s s' \<Longrightarrow> s' = s \<or> (\<exists>t. s' = advance fs hash t s)"
  using cache_step_advance unfolding thread_step_def by fastforce

text \<open>The runs of the threads are the schedules.\<close>

lemma runs_are_schedules: "(thread_step fs hash)\<^sup>*\<^sup>* s s' \<longleftrightarrow> (\<exists>sched. s' = run_schedule fs hash sched s)"
proof
  assume "(thread_step fs hash)\<^sup>*\<^sup>* s s'"
  then show "\<exists>sched. s' = run_schedule fs hash sched s"
  proof (induction rule: rtranclp_induct)
    case base
    have "s = run_schedule fs hash [] s" by (simp add: run_schedule_def)
    then show ?case by blast
  next
    case (step s1 s2)
    then obtain sched where "s1 = run_schedule fs hash sched s" by blast
    then have "advance fs hash t s1 = run_schedule fs hash (sched @ [t]) s" for t
      by (simp add: run_schedule_def)
    with step_advance [OF step(2)] step.IH show ?case by metis
  qed
next
  have "(thread_step fs hash)\<^sup>*\<^sup>* s (run_schedule fs hash sched s)" for sched
    by (induction sched rule: rev_induct)
       (auto simp: run_schedule_def intro: rtranclp.rtrancl_into_rtrancl advance_step)
  then show "\<exists>sched. s' = run_schedule fs hash sched s \<Longrightarrow> (thread_step fs hash)\<^sup>*\<^sup>* s s'" by blast
qed

text \<open>C36: The cache of the resolved \<open>sys.path\<close> under threads, in every interleaving of any number of
  callers: at most one is between the lock and its release; what a caller returns is the list the cache
  held at the start or what resolving \<open>sys.path\<close> now gives (its exception included); and once the hash is
  stored and nobody is resolving, the cache holds the resolved paths, or for good the old ones when
  resolving raised.\<close>

theorem sys_paths_cached:
  assumes "(thread_step fs hash)\<^sup>*\<^sup>* (idle_threads c sys_paths) s"
  shows "(\<forall>t u. inside (pcs s t) \<and> inside (pcs s u) \<longrightarrow> t = u)
    \<and> (\<forall>t r. pcs s t = Finished r \<longrightarrow>
          r = Inr (resolved_sys_path c) \<or> r = map_res (\<lambda>p. resolve fs (path_of p)) sys_paths)
    \<and> (sys_path_hash (shared s) = Some (hash sys_paths) \<and> (\<forall>t. pcs s t \<noteq> Resolving) \<longrightarrow>
          resolved_sys_path (shared s) = settled_paths fs hash c sys_paths)"
proof -
  have inv: "cache_inv fs hash c sys_paths s" by (rule thread_steps_inv [OF assms idle_inv])
  then have "\<forall>t u. inside (pcs s t) \<and> inside (pcs s u) \<longrightarrow> t = u"
    unfolding cache_inv_def exclusive_def by (metis option.inject)
  moreover have "\<forall>t r. pcs s t = Finished r \<longrightarrow>
      r = Inr (resolved_sys_path c) \<or> r = map_res (\<lambda>p. resolve fs (path_of p)) sys_paths"
    using inv unfolding cache_inv_def by (metis pc_ok_simps(7))
  ultimately show ?thesis using inv by (auto simp: cache_inv_def phase_ok_def)
qed

text \<open>A caller may get the list from before while another one is resolving.\<close>

theorem sys_paths_cached_witness:
  "\<exists>s :: threads. pcs s 1 = Finished (Inr []) \<and> pcs s 0 = Resolving
     \<and> (\<forall>t. inside (pcs s t) \<longrightarrow> t = 0)"
proof -
  let ?fs = "\<lparr>resolve = Inr, is_dir = (\<lambda>p. True), path_exists = (\<lambda>p. True), is_symlink = (\<lambda>p. False)\<rparr>"
  let ?c = "\<lparr>sys_path_hash = None, resolved_sys_path = []\<rparr>"
  have "\<exists>s. (thread_step ?fs (\<lambda>ps. 7))\<^sup>*\<^sup>* (idle_threads ?c [''/lib'']) s
      \<and> pcs s 1 = Finished (Inr []) \<and> pcs s 0 = Resolving"
    unfolding runs_are_schedules
    by (rule exI, rule conjI, rule exI [of _ "[0, 0, 0, 0, 1, 1, 1]"], rule refl)
       (simp add: run_schedule_def advance_def idle_threads_def publish_hash_def)
  then obtain s where run: "(thread_step ?fs (\<lambda>ps. 7))\<^sup>*\<^sup>* (idle_threads ?c [''/lib'']) s"
    and at: "pcs s 1 = Finished (Inr [])" "pcs s 0 = Resolving" by blast
  from sys_paths_cached [OF run] have "\<forall>t u. inside (pcs s t) \<and> inside (pcs s u) \<longrightarrow> t = u" by (rule conjunct1)
  with at have "\<forall>t. inside (pcs s t) \<longrightarrow> t = 0" using inside_simps(5) by metis
  with at show ?thesis by blast
qed

text \<open>
  One caller alone takes at most six steps and computes \<open>resolve_system_paths\<close>: result and cache.
\<close>

lemma alone_resolves:
  assumes "resolve_system_paths fs hash py c = (r, c')"
  shows "run_schedule fs hash (replicate 6 t) (idle_threads c (sys_path py))
    = (idle_threads c' (sys_path py))\<lparr>pcs := (\<lambda>_. Start)(t := Finished r)\<rparr>"
proof -
  let ?R = "map_res (\<lambda>s. resolve fs (path_of s)) (sys_path py)"
  have six: "replicate 6 t = [t, t, t, t, t, t]" by (simp add: numeral_eq_Suc)
  show ?thesis
  proof (cases "sys_path_hash c = Some (hash (sys_path py))")
    case True
    with assms have "r = Inr (resolved_sys_path c)" "c' = c" by (auto simp: resolve_system_paths_def)
    with True show ?thesis by (simp add: six run_schedule_def advance_def idle_threads_def)
  next
    case False
    show ?thesis
    proof (cases ?R)
      case (Inl e)
      with assms False have "r = Inl e" "c' = publish_hash (hash (sys_path py)) c"
        by (auto simp: resolve_system_paths_def publish_hash_def)
      with Inl False show ?thesis
        by (simp add: six run_schedule_def advance_def idle_threads_def publish_hash_def resolved_now_def)
    next
      case (Inr ps)
      with assms False have "r = Inr ps" "c' = store_paths ps (publish_hash (hash (sys_path py)) c)"
        by (auto simp: resolve_system_paths_def publish_hash_def store_paths_def)
      with Inr False show ?thesis
        by (simp add: six run_schedule_def advance_def idle_threads_def publish_hash_def store_paths_def
            resolved_now_def)
    qed
  qed
qed

end
