(* ===== verification/Patching.thy ===== *)
theory Patching
  imports Prelude
begin

text \<open>
  How the framework patches (\<open>_flask_patches.py\<close>, \<open>_starlette_patches.py\<close>, \<open>_fastapi_patches.py\<close>,
  \<open>_django_patches.py\<close>) replace a method of a framework class while the instrumentor is active and put it
  back afterwards. A method is the one somebody else left in the class, or one of our wrappers together with
  the method it calls. The upstream \<open>_instrument\<close> and \<open>_uninstrument\<close> leave these methods alone and may
  raise; what they do in a call is an argument.
\<close>

section \<open>Methods\<close>

datatype pymethod = Found string | Wrapping pymethod

text \<open>A command: the instrumentor is switched on or off; the upstream method raises or not.\<close>

datatype command = Instrument "exn option" | Uninstrument "exn option"

text \<open>
  The state of a patched class: the method it has now, and what is kept to restore it (an attribute of the
  instrumentor, or for Django a variable of the patch).
\<close>

record patched_class =
  current :: pymethod
  kept :: "pymethod option"

section \<open>Starlette and Flask\<close>

text \<open>
  The wrapper calls the method found when the patch was applied; the method found when instrumenting is
  kept for later. Flask does the same with its two methods at once.
\<close>

definition starlette_instrument :: "pymethod \<Rightarrow> exn option \<Rightarrow> patched_class \<Rightarrow> patched_class \<times> exn option" where
  "starlette_instrument original_route_init upstream w =
     (if kept w = None then w\<lparr>kept := Some (current w), current := Wrapping original_route_init\<rparr> else w, upstream)"

definition starlette_uninstrument :: "exn option \<Rightarrow> patched_class \<Rightarrow> patched_class \<times> exn option" where
  "starlette_uninstrument upstream w =
     (case upstream of
        Some e \<Rightarrow> (w, Some e)
      | None \<Rightarrow> (case kept w of Some m \<Rightarrow> w\<lparr>current := m, kept := None\<rparr> | None \<Rightarrow> w, None))"

record patched_flask =
  add_url_rule :: pymethod
  dispatch_request :: pymethod
  kept_add_url_rule :: "pymethod option"
  kept_dispatch_request :: "pymethod option"

definition flask_instrument ::
    "pymethod \<Rightarrow> pymethod \<Rightarrow> exn option \<Rightarrow> patched_flask \<Rightarrow> patched_flask \<times> exn option" where
  "flask_instrument original_add_url_rule original_dispatch_request upstream w =
     (if kept_add_url_rule w = None
      then w\<lparr>kept_add_url_rule := Some (add_url_rule w), kept_dispatch_request := Some (dispatch_request w),
             add_url_rule := Wrapping original_add_url_rule,
             dispatch_request := Wrapping original_dispatch_request\<rparr>
      else w, upstream)"

text \<open>A missing second attribute raises after the first method is restored; the exception is logged.\<close>

definition flask_uninstrument :: "exn option \<Rightarrow> patched_flask \<Rightarrow> patched_flask \<times> exn option" where
  "flask_uninstrument upstream w =
     (case upstream of
        Some e \<Rightarrow> (w, Some e)
      | None \<Rightarrow>
          (case kept_add_url_rule w of
             None \<Rightarrow> w
           | Some m \<Rightarrow>
               (case kept_dispatch_request w of
                  None \<Rightarrow> w\<lparr>add_url_rule := m\<rparr>
                | Some d \<Rightarrow> w\<lparr>add_url_rule := m, dispatch_request := d, kept_add_url_rule := None,
                             kept_dispatch_request := None\<rparr>), None))"

section \<open>FastAPI\<close>

text \<open>The wrapper calls the kept method and is set again by every call.\<close>

definition fastapi_instrument :: "exn option \<Rightarrow> patched_class \<Rightarrow> patched_class \<times> exn option" where
  "fastapi_instrument upstream w =
     (let original = (case kept w of Some m \<Rightarrow> m | None \<Rightarrow> current w)
      in (w\<lparr>kept := Some original, current := Wrapping original\<rparr>, upstream))"

definition fastapi_uninstrument :: "exn option \<Rightarrow> patched_class \<Rightarrow> patched_class \<times> exn option" where
  "fastapi_uninstrument upstream w =
     (case upstream of
        Some e \<Rightarrow> (w, Some e)
      | None \<Rightarrow> (case kept w of Some m \<Rightarrow> w\<lparr>current := m, kept := None\<rparr> | None \<Rightarrow> w, None))"

section \<open>Django\<close>

text \<open>
  The first method found is kept for ever. Importing the middleware class fails or not; the failure is
  logged.
\<close>

definition django_instrument :: "bool \<Rightarrow> exn option \<Rightarrow> patched_class \<Rightarrow> patched_class \<times> exn option" where
  "django_instrument importable upstream w =
     (if importable
      then let original_process_view = (case kept w of Some m \<Rightarrow> m | None \<Rightarrow> current w)
           in w\<lparr>kept := Some original_process_view, current := Wrapping original_process_view\<rparr>
      else w, upstream)"

definition django_uninstrument :: "bool \<Rightarrow> exn option \<Rightarrow> patched_class \<Rightarrow> patched_class \<times> exn option" where
  "django_uninstrument importable upstream w =
     (case upstream of
        Some e \<Rightarrow> (w, Some e)
      | None \<Rightarrow> (case kept w of Some m \<Rightarrow> if importable then w\<lparr>current := m\<rparr> else w | None \<Rightarrow> w, None))"

section \<open>The contract of the patches\<close>

text \<open>
  A patch has states in which the class has the pymethod \<open>m\<close> and the patch is off, and states in which it
  is on. An upstream exception leaves an instrumented class on, and a class being instrumented as well.
\<close>

definition perform ::
    "(exn option \<Rightarrow> 'w \<Rightarrow> 'w \<times> exn option) \<Rightarrow> (exn option \<Rightarrow> 'w \<Rightarrow> 'w \<times> exn option) \<Rightarrow> command \<Rightarrow> 'w \<Rightarrow> 'w" where
  "perform instrument uninstrument c w =
     (case c of Instrument up \<Rightarrow> fst (instrument up w) | Uninstrument up \<Rightarrow> fst (uninstrument up w))"

text \<open>Whether the patch is on after some commands.\<close>

definition next_active :: "bool \<Rightarrow> command \<Rightarrow> bool" where
  "next_active b c = (case c of Instrument up \<Rightarrow> True | Uninstrument up \<Rightarrow> b \<and> up \<noteq> None)"

definition active :: "command list \<Rightarrow> bool" where
  "active cs = foldl next_active False cs"

locale class_patch =
  fixes instrument :: "exn option \<Rightarrow> 'w \<Rightarrow> 'w \<times> exn option"
    and uninstrument :: "exn option \<Rightarrow> 'w \<Rightarrow> 'w \<times> exn option"
    and off :: "'m \<Rightarrow> 'w \<Rightarrow> bool"
    and on :: "'m \<Rightarrow> 'w \<Rightarrow> bool"
  assumes instrument_on: "off m w \<or> on m w \<Longrightarrow> on m (fst (instrument up w))"
    and uninstrument_on: "on m w \<Longrightarrow> off m (fst (uninstrument None w))"
    and uninstrument_off: "off m w \<Longrightarrow> off m (fst (uninstrument None w))"
    and uninstrument_fails: "fst (uninstrument (Some e) w) = w"
begin

lemma perform_state:
  assumes "if b then on m w else off m w"
  shows "if next_active b c then on m (perform instrument uninstrument c w)
    else off m (perform instrument uninstrument c w)"
proof (cases c)
  case (Instrument up)
  with assms show ?thesis by (cases b) (simp_all add: perform_def next_active_def instrument_on)
next
  case (Uninstrument up)
  with assms show ?thesis
    by (cases b; cases up)
       (simp_all add: perform_def next_active_def uninstrument_on uninstrument_off uninstrument_fails)
qed

lemma run_state:
  assumes "off m w"
  shows "if active cs then on m (fold (perform instrument uninstrument) cs w)
    else off m (fold (perform instrument uninstrument) cs w)"
proof (induction cs rule: rev_induct)
  case Nil
  then show ?case using assms by (simp add: active_def)
next
  case (snoc c cs)
  from perform_state [OF snoc.IH, of c] show ?case by (simp add: active_def)
qed

end

definition unpatched :: "pymethod \<Rightarrow> patched_class \<Rightarrow> bool" where
  "unpatched m w \<longleftrightarrow> current w = m \<and> kept w = None"

definition wrapped :: "pymethod \<Rightarrow> pymethod \<Rightarrow> patched_class \<Rightarrow> bool" where
  "wrapped original m w \<longleftrightarrow> current w = Wrapping original \<and> kept w = Some m"

interpretation starlette: class_patch "starlette_instrument original" starlette_uninstrument unpatched "wrapped original"
    for original
  by unfold_locales
     (auto simp: starlette_instrument_def starlette_uninstrument_def unpatched_def wrapped_def)

interpretation fastapi: class_patch fastapi_instrument fastapi_uninstrument unpatched "\<lambda>m. wrapped m m"
  by unfold_locales (auto simp: fastapi_instrument_def fastapi_uninstrument_def unpatched_def wrapped_def Let_def)

definition django_off :: "pymethod \<Rightarrow> patched_class \<Rightarrow> bool" where
  "django_off m w \<longleftrightarrow> current w = m \<and> (kept w = None \<or> kept w = Some m)"

definition django_on :: "bool \<Rightarrow> pymethod \<Rightarrow> patched_class \<Rightarrow> bool" where
  "django_on importable m w \<longleftrightarrow> (if importable then wrapped m m w else django_off m w)"

interpretation django: class_patch "django_instrument importable" "django_uninstrument importable" django_off
    "django_on importable" for importable
  by unfold_locales
     (auto simp: django_instrument_def django_uninstrument_def django_off_def django_on_def wrapped_def Let_def
       split: if_splits option.splits)

definition flask_off :: "pymethod \<times> pymethod \<Rightarrow> patched_flask \<Rightarrow> bool" where
  "flask_off ms w \<longleftrightarrow> w = \<lparr>add_url_rule = fst ms, dispatch_request = snd ms, kept_add_url_rule = None,
     kept_dispatch_request = None\<rparr>"

definition flask_on :: "pymethod \<Rightarrow> pymethod \<Rightarrow> pymethod \<times> pymethod \<Rightarrow> patched_flask \<Rightarrow> bool" where
  "flask_on a d ms w \<longleftrightarrow> w = \<lparr>add_url_rule = Wrapping a, dispatch_request = Wrapping d,
     kept_add_url_rule = Some (fst ms), kept_dispatch_request = Some (snd ms)\<rparr>"

interpretation flask: class_patch "flask_instrument a d" flask_uninstrument flask_off "flask_on a d" for a d
  by unfold_locales (auto simp: flask_instrument_def flask_uninstrument_def flask_off_def flask_on_def)

text \<open>C37: Switching the framework instrumentations on and off. Whatever commands come, repeated or with
  upstream exceptions in between, a framework method is wrapped exactly once while the instrumentation is
  on, and it is the method from before once it is off: after a command to switch off that upstream did not
  refuse, until the next command to switch on. For Flask and Starlette the wrapper calls the method found
  when the patch was applied, for FastAPI and Django the one found when instrumenting.\<close>

theorem patches_restored:
  "current (fold (perform (starlette_instrument original) starlette_uninstrument) cs \<lparr>current = m, kept = None\<rparr>)
      = (if active cs then Wrapping original else m)
   \<and> current (fold (perform fastapi_instrument fastapi_uninstrument) cs \<lparr>current = m, kept = None\<rparr>)
      = (if active cs then Wrapping m else m)
   \<and> current (fold (perform (django_instrument importable) (django_uninstrument importable)) cs \<lparr>current = m, kept = None\<rparr>)
      = (if active cs \<and> importable then Wrapping m else m)
   \<and> (let w = fold (perform (flask_instrument original d') flask_uninstrument) cs
          \<lparr>add_url_rule = m, dispatch_request = d, kept_add_url_rule = None, kept_dispatch_request = None\<rparr>
      in (add_url_rule w, dispatch_request w)
        = (if active cs then (Wrapping original, Wrapping d') else (m, d)))"
proof -
  let ?w = "\<lparr>current = m, kept = None\<rparr>"
  let ?f = "\<lparr>add_url_rule = m, dispatch_request = d, kept_add_url_rule = None, kept_dispatch_request = None\<rparr>"
  have off: "unpatched m ?w" "django_off m ?w" "flask_off (m, d) ?f"
    by (simp_all add: unpatched_def django_off_def flask_off_def)
  show ?thesis
    using starlette.run_state [OF off(1), of cs original] fastapi.run_state [OF off(1), of cs]
      django.run_state [OF off(2), of cs importable] flask.run_state [OF off(3), of cs original d']
    by (cases "active cs"; cases importable)
       (simp_all add: unpatched_def wrapped_def django_off_def django_on_def flask_off_def flask_on_def)
qed

end
