(* ===== verification/ViewPatches.thy ===== *)
theory ViewPatches
  imports CodeCorrelation
begin

text \<open>
  What the framework patches do to view functions: \<open>_flask_patches.py\<close>, \<open>_starlette_patches.py\<close> and
  \<open>_fastapi_patches.py\<close> decorate every function that is registered as a view, Flask also those bound later.
  Functions are objects with identity and attributes, so they live in a heap; a reference is a position in
  it. The frameworks' own registration methods are parameters.
\<close>

section \<open>Function objects\<close>

text \<open>
  A callable as the patches see it: its truth value, whether it can be called, what it is for the naming
  of code attributes with its source, its name, whether attributes can be set on it, the two attributes
  that the patches set, and the function that a wrapper of \<open>record_code_attributes\<close> calls.
\<close>

record pyobject =
  truthy :: bool
  can_call :: bool
  shape :: callable_obj
  source :: source_info
  func_name :: string
  takes_attributes :: bool
  decorated_mark :: bool
  original_view :: "nat option"
  wrapper_of :: "nat option"

type_synonym heap = "pyobject list"

definition is_function :: "callable_obj \<Rightarrow> bool" where
  "is_function c = (case c of FunctionObj n \<Rightarrow> True | MethodObj n r \<Rightarrow> True | _ \<Rightarrow> False)"

text \<open>
  The new function of \<open>record_code_attributes\<close>; \<open>wraps\<close> copies the name and the attributes of the
  function it wraps. Other callables come back as they are.
\<close>

definition new_wrapper :: "nat \<Rightarrow> pyobject \<Rightarrow> pyobject" where
  "new_wrapper a obj =
     obj\<lparr>truthy := True, can_call := True,
         shape := (case shape obj of MethodObj n r \<Rightarrow> FunctionObj (Inr n) | c \<Rightarrow> c),
         takes_attributes := True, wrapper_of := Some a\<rparr>"

definition decorate :: "nat \<Rightarrow> heap \<Rightarrow> nat \<times> heap" where
  "decorate a h =
     (if is_function (shape (h ! a)) then (length h, h @ [new_wrapper a (h ! a)]) else (a, h))"

definition mark_decorated :: "nat \<Rightarrow> nat \<Rightarrow> heap \<Rightarrow> heap" where
  "mark_decorated d a h = h[d := (h ! d)\<lparr>decorated_mark := True, original_view := Some a\<rparr>]"

text \<open>\<open>_decorate_view_func\<close> and \<open>_decorate_endpoint\<close>; an object that refuses attributes raises, and stays.\<close>

definition decorate_view_func :: "nat \<Rightarrow> heap \<Rightarrow> nat \<times> heap" where
  "decorate_view_func a h =
     (if truthy (h ! a) \<and> can_call (h ! a) \<and> \<not> decorated_mark (h ! a)
      then let (d, h') = decorate a h
           in if takes_attributes (h' ! d) then (d, mark_decorated d a h') else (a, h')
      else (a, h))"

text \<open>Only a true value is handed to the decoration.\<close>

definition decorate_given :: "nat option \<Rightarrow> heap \<Rightarrow> nat option \<times> heap" where
  "decorate_given view h =
     (case view of
        Some a \<Rightarrow> if truthy (h ! a) then (let (d, h') = decorate_view_func a h in (Some d, h')) else (Some a, h)
      | None \<Rightarrow> (None, h))"

section \<open>Frameworks\<close>

type_synonym views = "(string \<times> nat) list"

definition wrapped_add_url_rule ::
    "(heap \<Rightarrow> views \<Rightarrow> string \<Rightarrow> string option \<Rightarrow> nat option \<Rightarrow> views res)
      \<Rightarrow> heap \<Rightarrow> views \<Rightarrow> string \<Rightarrow> string option \<Rightarrow> nat option \<Rightarrow> views res \<times> heap" where
  "wrapped_add_url_rule original_add h views rule endpoint view_func =
     (let (v, h') = decorate_given view_func h in (original_add h' views rule endpoint v, h'))"

text \<open>
  Before a request is dispatched; \<open>endpoint\<close> is the one of the request, if there is a request.
\<close>

definition wrapped_dispatch_request :: "string option \<Rightarrow> heap \<Rightarrow> views \<Rightarrow> views \<times> heap" where
  "wrapped_dispatch_request endpoint h views =
     (case endpoint of
        None \<Rightarrow> (views, h)
      | Some n \<Rightarrow>
          if n = [] then (views, h)
          else case map_of views n of
                 None \<Rightarrow> (views, h)
               | Some a \<Rightarrow>
                   if truthy (h ! a) \<and> can_call (h ! a) \<and> \<not> decorated_mark (h ! a)
                   then let (d, h') = decorate_view_func a h
                        in (if d \<noteq> a then AList.update n d views else views, h')
                   else (views, h))"

definition wrapped_route_init ::
    "(heap \<Rightarrow> string \<Rightarrow> nat option \<Rightarrow> 'r res) \<Rightarrow> heap \<Rightarrow> string \<Rightarrow> nat option \<Rightarrow> 'r res \<times> heap" where
  "wrapped_route_init original_init h route_path endpoint =
     (let (e, h') = decorate_given endpoint h in (original_init h' route_path e, h'))"

text \<open>The endpoint of \<open>add_api_route\<close> is the second positional argument, or a keyword argument.\<close>

definition route_endpoint :: "nat list \<Rightarrow> (string \<times> nat) list \<Rightarrow> nat option" where
  "route_endpoint args kwargs = (if 2 \<le> length args then Some (args ! 1) else map_of kwargs ''endpoint'')"

definition replace_endpoint ::
    "nat \<Rightarrow> nat list \<Rightarrow> (string \<times> nat) list \<Rightarrow> nat list \<times> (string \<times> nat) list" where
  "replace_endpoint d args kwargs =
     (if 2 \<le> length args then (args[1 := d], kwargs)
      else if ''endpoint'' \<in> fst ` set kwargs then (args, AList.update ''endpoint'' d kwargs) else (args, kwargs))"

definition wrapped_add_api_route ::
    "(heap \<Rightarrow> nat list \<Rightarrow> (string \<times> nat) list \<Rightarrow> 'r res)
      \<Rightarrow> heap \<Rightarrow> nat list \<Rightarrow> (string \<times> nat) list \<Rightarrow> 'r res \<times> heap" where
  "wrapped_add_api_route original_add h args kwargs =
     (case route_endpoint args kwargs of
        None \<Rightarrow> (original_add h args kwargs, h)
      | Some a \<Rightarrow>
          if truthy (h ! a) \<and> can_call (h ! a) \<and> \<not> decorated_mark (h ! a)
          then let (d, h') = decorate_view_func a h;
                   (args', kwargs') = (if takes_attributes (h' ! d) then replace_endpoint d args kwargs
                                       else (args, kwargs))
               in (original_add h' args' kwargs', h')
          else (original_add h args kwargs, h))"

section \<open>Calling views\<close>

text \<open>
  A call of an object: a wrapper marks the current span with the function it wraps and calls that one;
  \<open>user\<close> says what the objects of the application do. A wrapper stands behind the function it wraps.
\<close>

function call_view ::
    "bool \<Rightarrow> heap \<Rightarrow> (nat \<Rightarrow> 'a \<Rightarrow> span option \<Rightarrow> 'b \<times> span option) \<Rightarrow> nat
      \<Rightarrow> 'a \<Rightarrow> span option \<Rightarrow> 'b \<times> span option" where
  "call_view is_recording h user a args current =
     (case wrapper_of (h ! a) of
        None \<Rightarrow> user a args current
      | Some b \<Rightarrow>
          if b < a then record_code_attributes is_recording (shape (h ! b)) (source (h ! b))
                 (call_view is_recording h user b) args current
          else user a args current)"
  by pat_completeness auto

termination by (relation "measure (\<lambda>(r, h, u, a, x, c). a)") auto

declare call_view.simps [simp del]

lemma call_view_same:
  assumes "\<And>i. i \<le> a \<Longrightarrow> wrapper_of (h' ! i) = wrapper_of (h ! i) \<and> shape (h' ! i) = shape (h ! i)
    \<and> source (h' ! i) = source (h ! i)"
  shows "call_view is_recording h' user a = call_view is_recording h user a"
  using assms
proof (induction a rule: less_induct)
  case (less a)
  have "call_view is_recording h' user b = call_view is_recording h user b" if "b < a" for b
    using less that by simp
  then show ?case
    by (intro ext) (simp add: call_view.simps [of _ _ _ a] less.prems split: option.splits)
qed

definition decorates :: "pyobject \<Rightarrow> bool" where
  "decorates obj \<longleftrightarrow> truthy obj \<and> can_call obj \<and> \<not> decorated_mark obj \<and> is_function (shape obj)"

lemma decorated_function:
  assumes "decorates (h ! a)"
  shows "decorate_view_func a h
    = (length h, h @ [(new_wrapper a (h ! a))\<lparr>decorated_mark := True, original_view := Some a\<rparr>])"
  using assms by (simp add: decorates_def decorate_view_func_def decorate_def mark_decorated_def new_wrapper_def)

lemma undecorated:
  assumes "\<not> decorates (h ! a)" "decorate_view_func a h = (d, h')"
  shows "d = a" and "h' = h \<or> h' = mark_decorated a a h"
  using assms by (auto simp: decorates_def decorate_view_func_def decorate_def split: if_splits)

lemma marked_object:
  assumes "a < length h"
  shows "mark_decorated a a h ! i
    = (if i = a then (h ! a)\<lparr>decorated_mark := True, original_view := Some a\<rparr> else h ! i)"
  using assms by (simp add: mark_decorated_def)

lemma decorated_again:
  assumes "a < length h" "decorate_view_func a h = (d, h')"
  shows "decorate_view_func d h' = (d, h')"
proof (cases "decorates (h ! a)")
  case True
  with decorated_function [OF True] assms(2) show ?thesis by (auto simp: decorate_view_func_def)
next
  case False
  from undecorated [OF False assms(2)] show ?thesis
    using assms by (auto simp: decorate_view_func_def marked_object)
qed

lemma decorated_objects:
  assumes "a < length h" "decorate_view_func a h = (d, h')" "i < length h"
  shows "h' ! i = (if i = d \<and> h' \<noteq> h then (h ! i)\<lparr>decorated_mark := True, original_view := Some i\<rparr> else h ! i)"
proof (cases "decorates (h ! a)")
  case True
  with decorated_function [OF True] assms(2,3) show ?thesis by (auto simp: nth_append)
next
  case False
  from undecorated [OF False assms(2)] show ?thesis using assms(1) marked_object by auto
qed

lemma call_decorated:
  assumes "a < length h" "decorate_view_func a h = (d, h')"
  shows "call_view is_recording h' user d args current
    = call_view is_recording h user a args
        (if decorates (h ! a)
         then map_option (add_code_attributes_to_span is_recording (shape (h ! a)) (source (h ! a))) current
         else current)"
proof -
  have same: "call_view is_recording h' user a = call_view is_recording h user a"
    using decorated_objects [OF assms] assms(1) by (intro call_view_same) simp
  show ?thesis
  proof (cases "decorates (h ! a)")
    case True
    with decorated_function [OF True] assms(2) have d: "d = length h" and h': "h' = h @ [h' ! d]"
      and w: "wrapper_of (h' ! d) = Some a" by (auto simp: new_wrapper_def)
    from h' assms(1) have "h' ! a = h ! a" by (metis nth_append)
    with w d assms(1) same have "call_view is_recording h' user d args current
        = record_code_attributes is_recording (shape (h ! a)) (source (h ! a)) (call_view is_recording h user a)
            args current"
      by (subst call_view.simps) simp
    with True show ?thesis
      by (simp add: record_code_attributes_def decorates_def is_function_def split: callable_obj.splits)
  next
    case False
    with undecorated(1) [OF False assms(2)] same show ?thesis by simp
  qed
qed

text \<open>C38: Decorating a view. Decorating again changes nothing; the objects of the application keep what
  they are, at most the two marks are set on a callable that is no function; and a call of what is
  registered is a call of the view, with the current span marked with the code of the view exactly when
  it is an undecorated function or method.\<close>

theorem views_decorated_once:
  assumes "a < length h" and "decorate_view_func a h = (d, h')"
  shows "decorate_view_func d h' = (d, h')
    \<and> (\<forall>i < length h. wrapper_of (h' ! i) = wrapper_of (h ! i) \<and> shape (h' ! i) = shape (h ! i)
        \<and> (is_function (shape (h ! i)) \<longrightarrow> h' ! i = h ! i))
    \<and> (\<forall>args current. call_view is_recording h' user d args current
        = call_view is_recording h user a args
            (if truthy (h ! a) \<and> can_call (h ! a) \<and> \<not> decorated_mark (h ! a) \<and> is_function (shape (h ! a))
             then map_option (add_code_attributes_to_span is_recording (shape (h ! a)) (source (h ! a))) current
             else current))"
proof -
  have "is_function (shape (h ! i)) \<longrightarrow> h' ! i = h ! i" if "i < length h" for i
  proof (cases "decorates (h ! a)")
    case True
    with decorated_function [OF True] assms(2) that show ?thesis by (auto simp: nth_append)
  next
    case False
    from undecorated [OF False assms(2)] that assms show ?thesis
      by (auto simp: marked_object decorates_def decorate_view_func_def decorate_def new_wrapper_def split: if_splits)
  qed
  moreover have "wrapper_of (h' ! i) = wrapper_of (h ! i) \<and> shape (h' ! i) = shape (h ! i)" if "i < length h" for i
    by (simp add: decorated_objects [OF assms that])
  ultimately show ?thesis
    using decorated_again [OF assms] call_decorated [OF assms, where user = user and is_recording = is_recording]
    by (simp add: decorates_def)
qed

text \<open>A handler of a request, decorated and called inside a span.\<close>

definition demo_view :: pyobject where
  "demo_view = \<lparr>truthy = True, can_call = True,
     shape = FunctionObj (Inr \<lparr>attr_module = Text ''app'', attr_qualname = Text ''index'', attr_name = Text ''index'',
       repr_of = Inr ''index''\<rparr>),
     source = \<lparr>getfile = Inr ''/srv/app.py'', first_line = Some 7\<rparr>, func_name = ''index'', takes_attributes = True,
     decorated_mark = False, original_view = None, wrapper_of = None\<rparr>"

theorem views_decorated_once_witness:
  "let (d, h') = decorate_view_func 0 [demo_view]
   in d = 1 \<and> h' ! 0 = demo_view \<and> decorate_view_func d h' = (d, h')
      \<and> (\<forall>sp. call_view True h' (\<lambda>a n cur. (n + a, cur)) d (5 :: nat) (Some sp)
          = (5, Some (add_code_attributes_to_span True (shape demo_view) (source demo_view) sp)))"
proof -
  obtain d h' where d: "decorate_view_func 0 [demo_view] = (d, h')" by fastforce
  have one: "d = 1"
    using d decorated_function [of "[demo_view]" 0] by (simp add: decorates_def demo_view_def is_function_def)
  have "is_function (shape demo_view)" "truthy demo_view" "can_call demo_view" "\<not> decorated_mark demo_view"
    "wrapper_of demo_view = None"
    by (simp_all add: demo_view_def is_function_def)
  with views_decorated_once [OF _ d, where is_recording = True and user = "\<lambda>a n cur. (n + a, cur)"] one
  show ?thesis by (simp add: d call_view.simps [of _ "[demo_view]"])
qed

section \<open>One view under two URLs\<close>

text \<open>
  Flask's own registration, as its documentation has it: the endpoint defaults to the name of the function,
  and registering another function for an endpoint that is taken raises an \<open>AssertionError\<close>.
\<close>

definition endpoint_of :: "heap \<Rightarrow> string option \<Rightarrow> nat \<Rightarrow> string" where
  "endpoint_of h endpoint v = (case endpoint of Some n \<Rightarrow> n | None \<Rightarrow> func_name (h ! v))"

text \<open>C39: Decorating a view function under two URLs breaks Flask applications: the application decorated with
  two routes, which Flask accepts, fails with an \<open>AssertionError\<close> once code attributes are switched on,
  because each registration makes a wrapper of its own.\<close>

theorem stacked_routes_rejected:
  assumes free: "\<And>h views rule ep v. map_of views (endpoint_of h ep v) \<in> {None, Some v} \<Longrightarrow>
      flask_add h views rule ep (Some v) = Inr (AList.update (endpoint_of h ep v) v views)"
    and taken: "\<And>h views rule ep v g. map_of views (endpoint_of h ep v) = Some g \<Longrightarrow> g \<noteq> v \<Longrightarrow>
      flask_add h views rule ep (Some v) = Inl (Foreign ''AssertionError'')"
    and view: "a < length h" "truthy (h ! a)" "can_call (h ! a)" "\<not> decorated_mark (h ! a)"
      "is_function (shape (h ! a))"
    and new: "map_of views (func_name (h ! a)) = None"
  shows "(\<exists>views'. bindr (flask_add h views rule None (Some a)) (\<lambda>vs. flask_add h vs rule' None (Some a)) = Inr views')
    \<and> (\<exists>views1 h1. wrapped_add_url_rule flask_add h views rule None (Some a) = (Inr views1, h1)
        \<and> fst (wrapped_add_url_rule flask_add h1 views1 rule' None (Some a)) = Inl (Foreign ''AssertionError''))"
proof -
  define w where "w = (new_wrapper a (h ! a))\<lparr>decorated_mark := True, original_view := Some a\<rparr>"
  let ?h1 = "h @ [w]" and ?n = "func_name (h ! a)"
  let ?v1 = "AList.update ?n (length h) views"
  have here: "?h1 ! a = h ! a" using view by (simp add: nth_append)
  have dec: "decorates (h ! a)" "decorates (?h1 ! a)" unfolding here using view by (simp_all add: decorates_def)
  have view_h: "decorate_view_func a h = (length h, ?h1)"
    unfolding w_def by (rule decorated_function [OF dec(1)])
  have view_h1: "decorate_view_func a ?h1 = (Suc (length h), ?h1 @ [w])"
    using decorated_function [OF dec(2)] unfolding here w_def [symmetric] by simp
  have "func_name w = ?n" by (simp add: w_def new_wrapper_def)
  then have name: "endpoint_of ?h1 None (length h) = ?n" "endpoint_of (?h1 @ [w]) None (Suc (length h)) = ?n"
    by (simp_all add: endpoint_of_def nth_append)
  have "flask_add ?h1 views rule None (Some (length h)) = Inr ?v1"
    using free [of views ?h1 None "length h" rule] new by (simp add: name)
  then have first: "wrapped_add_url_rule flask_add h views rule None (Some a) = (Inr ?v1, ?h1)"
    using view by (simp add: wrapped_add_url_rule_def decorate_given_def view_h)
  have "flask_add (?h1 @ [w]) ?v1 rule' None (Some (Suc (length h))) = Inl (Foreign ''AssertionError'')"
    using taken [of ?v1 "?h1 @ [w]" None "Suc (length h)" "length h" rule'] by (simp only: name map_of_update) simp
  then have "fst (wrapped_add_url_rule flask_add ?h1 ?v1 rule' None (Some a)) = Inl (Foreign ''AssertionError'')"
    using view by (simp add: wrapped_add_url_rule_def decorate_given_def view_h1 here)
  moreover have "bindr (flask_add h views rule None (Some a)) (\<lambda>vs. flask_add h vs rule' None (Some a))
      = Inr (AList.update ?n a (AList.update ?n a views))"
    using free [of views h None a] free [of "AList.update ?n a views" h None a] new
    by (simp add: endpoint_of_def map_of_update)
  ultimately show ?thesis using first by blast
qed

text \<open>A registry that keeps the two laws.\<close>

definition demo_registry :: "heap \<Rightarrow> views \<Rightarrow> string \<Rightarrow> string option \<Rightarrow> nat option \<Rightarrow> views res" where
  "demo_registry h views rule endpoint view_func =
     (case view_func of
        None \<Rightarrow> Inr views
      | Some v \<Rightarrow>
          if map_of views (endpoint_of h endpoint v) \<in> {None, Some v}
          then Inr (AList.update (endpoint_of h endpoint v) v views) else Inl (Foreign ''AssertionError''))"

theorem stacked_routes_rejected_witness:
  "bindr (demo_registry [demo_view] [] ''/'' None (Some 0)) (\<lambda>vs. demo_registry [demo_view] vs ''/home'' None (Some 0))
     = Inr [(''index'', 0)]
   \<and> (\<exists>views1 h1. wrapped_add_url_rule demo_registry [demo_view] [] ''/'' None (Some 0) = (Inr views1, h1)
        \<and> fst (wrapped_add_url_rule demo_registry h1 views1 ''/home'' None (Some 0)) = Inl (Foreign ''AssertionError''))"
proof -
  have view: "truthy demo_view" "can_call demo_view" "\<not> decorated_mark demo_view" "is_function (shape demo_view)"
    by (simp_all add: demo_view_def is_function_def)
  have "\<exists>views1 h1. wrapped_add_url_rule demo_registry [demo_view] [] ''/'' None (Some 0) = (Inr views1, h1)
      \<and> fst (wrapped_add_url_rule demo_registry h1 views1 ''/home'' None (Some 0)) = Inl (Foreign ''AssertionError'')"
    by (rule stacked_routes_rejected [THEN conjunct2]) (simp_all add: demo_registry_def view)
  then show ?thesis by (simp add: demo_registry_def endpoint_of_def demo_view_def)
qed

end
