(* ===== verification/HookPatches.thy ===== *)
theory HookPatches
  imports CodeCorrelation Configurator
begin

text \<open>
  The patches that mark spans with the code that serves them: the Django middleware and the REST framework
  (\<open>_django_patches.py\<close>), the Celery, Pika and aio-pika instrumentations (\<open>_celery_patches.py\<close>,
  \<open>_pika_patches.py\<close>, \<open>_aio_pika_patches.py\<close>); the gevent patch and the resource detectors. Each
  calls the original function, a parameter here, and may then mark a span.
\<close>

text \<open>What a span is marked with: the callable and its source.\<close>

type_synonym target = "callable_obj \<times> source_info"

definition mark_span :: "bool \<Rightarrow> target \<Rightarrow> span \<Rightarrow> span" where
  "mark_span is_recording t sp = add_code_attributes_to_span is_recording (fst t) (snd t) sp"

section \<open>Django\<close>

text \<open>A view function; a class-based one knows its class and the handlers of the class.\<close>

record django_view =
  view_true :: bool
  view_target :: target
  view_class :: "(target \<times> (string \<times> target) list) option"

record django_request =
  meta_activation :: bool
  meta_span :: "span option"
  request_method :: "string option"

definition view_handler :: "django_view \<Rightarrow> string option \<Rightarrow> target res" where
  "view_handler view request_meth =
     (case view_class view of
        None \<Rightarrow> Inr (view_target view)
      | Some (cls, handlers) \<Rightarrow>
          (case request_meth of
             None \<Rightarrow> Inl AttributeError
           | Some m \<Rightarrow> Inr (case map_of handlers (py_lower m) of Some h \<Rightarrow> h | None \<Rightarrow> cls)))"

definition annotate_request :: "bool \<Rightarrow> django_view \<Rightarrow> django_request \<Rightarrow> django_request" where
  "annotate_request is_recording view rq =
     (case meta_span rq of
        None \<Rightarrow> rq
      | Some sp \<Rightarrow>
          if meta_activation rq \<and> view_true view \<and> is_recording
          then case view_handler view (request_method rq) of
                 Inr t \<Rightarrow> rq\<lparr>meta_span := Some (mark_span is_recording t sp)\<rparr>
               | Inl e \<Rightarrow> rq
          else rq)"

definition patched_process_view ::
    "(django_request \<Rightarrow> 'r res \<times> django_request) \<Rightarrow> bool \<Rightarrow> django_view \<Rightarrow> django_request
      \<Rightarrow> 'r res \<times> django_request" where
  "patched_process_view original is_recording view rq =
     (case original rq of
        (Inl e, rq') \<Rightarrow> (Inl e, rq')
      | (Inr r, rq') \<Rightarrow> (Inr r, annotate_request is_recording view rq'))"

text \<open>
  A view of the REST framework: whether it is a view set, its action and the methods it has, with whether
  they can be called. The span is the current one, after the original \<open>dispatch\<close>.
\<close>

record rest_view =
  is_viewset :: bool
  view_action :: "string option"
  view_methods :: "(string \<times> (bool \<times> target)) list"

definition action_handler :: "rest_view \<Rightarrow> target option" where
  "action_handler view =
     (if is_viewset view
      then case view_action view of
             None \<Rightarrow> None
           | Some a \<Rightarrow> if a = [] then None
                       else (case map_of (view_methods view) a of Some (True, t) \<Rightarrow> Some t | _ \<Rightarrow> None)
      else None)"

definition mark_current :: "bool \<Rightarrow> target option \<Rightarrow> span option \<Rightarrow> span option" where
  "mark_current is_recording t current =
     (case t of None \<Rightarrow> current | Some x \<Rightarrow> map_option (mark_span is_recording x) current)"

definition patched_dispatch ::
    "(span option \<Rightarrow> 'r res \<times> span option) \<Rightarrow> bool \<Rightarrow> rest_view \<Rightarrow> span option \<Rightarrow> 'r res \<times> span option" where
  "patched_dispatch original is_recording view current =
     (case original current of
        (Inl e, current') \<Rightarrow> (Inl e, current')
      | (Inr r, current') \<Rightarrow> (Inr r, mark_current is_recording (action_handler view) current'))"

section \<open>Celery\<close>

text \<open>
  A callable attribute of a task: whether it can be called, itself, the function below a bound method with
  its name, and its own name; a name may be missing.
\<close>

record task_attr =
  attr_callable :: bool
  attr_self :: target
  attr_func :: "(target \<times> string option) option"
  attr_own_name :: "string option"

record task =
  task_run :: "task_attr option"
  task_call :: "task_attr option"
  task_wrapped :: "task_attr option"

text \<open>
  \<open>_extract_task_function\<close>, one look after the other: \<open>Inr (Some t)\<close> is an answer, \<open>Inr None\<close> goes on,
  and an exception ends the search without one.
\<close>

definition run_function :: "task_attr option \<Rightarrow> target option res" where
  "run_function r =
     (case r of
        None \<Rightarrow> Inr None
      | Some a \<Rightarrow>
          if \<not> attr_callable a then Inr None
          else case attr_func a of
                 Some (f, n) \<Rightarrow> Inr (Some f)
               | None \<Rightarrow> (case attr_own_name a of
                            None \<Rightarrow> Inl AttributeError
                          | Some n \<Rightarrow> Inr (if n \<noteq> ''run'' then Some (attr_self a) else None)))"

definition own_call :: "task_attr \<Rightarrow> target option res" where
  "own_call a =
     (case attr_own_name a of
        None \<Rightarrow> Inl AttributeError
      | Some n \<Rightarrow> Inr (if n \<noteq> ''__call__'' then Some (attr_self a) else None))"

definition call_function :: "task_attr option \<Rightarrow> target option res" where
  "call_function r =
     (case r of
        None \<Rightarrow> Inr None
      | Some a \<Rightarrow>
          if \<not> attr_callable a then Inr None
          else case attr_func a of
                 None \<Rightarrow> own_call a
               | Some (f, None) \<Rightarrow> Inl AttributeError
               | Some (f, Some n) \<Rightarrow> if n \<noteq> ''__call__'' then Inr (Some f) else own_call a)"

definition wrapped_function :: "task_attr option \<Rightarrow> target option" where
  "wrapped_function r =
     (case r of Some a \<Rightarrow> if attr_callable a then Some (attr_self a) else None | None \<Rightarrow> None)"

definition extract_task_function :: "task option \<Rightarrow> target option" where
  "extract_task_function t =
     (case t of
        None \<Rightarrow> None
      | Some x \<Rightarrow>
          (case run_function (task_run x) of
             Inl e \<Rightarrow> None
           | Inr (Some f) \<Rightarrow> Some f
           | Inr None \<Rightarrow>
               (case call_function (task_call x) of
                  Inl e \<Rightarrow> None
                | Inr (Some f) \<Rightarrow> Some f
                | Inr None \<Rightarrow> wrapped_function (task_wrapped x))))"

definition add_code_correlation_to_span :: "bool \<Rightarrow> task option \<Rightarrow> span option \<Rightarrow> span option" where
  "add_code_correlation_to_span is_recording t sp =
     (if is_recording then mark_current is_recording (extract_task_function t) sp else sp)"

text \<open>
  The handler of \<open>task_prerun\<close>. The span is the one the instrumentation has stored for the task and its
  identifier, if it has; \<open>retrieve_context\<close> gives it or raises.
\<close>

definition patched_trace_prerun ::
    "(span option \<Rightarrow> 'r res \<times> span option) \<Rightarrow> exn option \<Rightarrow> bool
      \<Rightarrow> task option \<Rightarrow> string option \<Rightarrow> span option \<Rightarrow> 'r res \<times> span option" where
  "patched_trace_prerun original retrieve_raises is_recording t task_id stored =
     (case original stored of
        (Inl e, stored') \<Rightarrow> (Inl e, stored')
      | (Inr r, stored') \<Rightarrow>
          (Inr r,
           if t = None \<or> task_id = None \<or> retrieve_raises \<noteq> None \<or> stored' = None then stored'
           else add_code_correlation_to_span is_recording t stored'))"

section \<open>Pika\<close>

text \<open>
  The hook handed to the instrumentation: marks the span with the callback, then calls the hook of the
  user, whose exceptions are dropped.
\<close>

definition enhanced_consume_hook ::
    "(span option \<Rightarrow> exn option \<times> span option) \<Rightarrow> bool \<Rightarrow> target \<Rightarrow> span option \<Rightarrow> exn option \<times> span option" where
  "enhanced_consume_hook consume_hook is_recording callback sp =
     (None, snd (consume_hook (if is_recording then mark_current is_recording (Some callback) sp else sp)))"

definition patched_decorate_callback ::
    "(target \<Rightarrow> (span option \<Rightarrow> exn option \<times> span option) \<Rightarrow> 'r)
      \<Rightarrow> target \<Rightarrow> (span option \<Rightarrow> exn option \<times> span option) \<Rightarrow> bool \<Rightarrow> 'r" where
  "patched_decorate_callback original callback consume_hook is_recording =
     original callback (enhanced_consume_hook consume_hook is_recording callback)"

section \<open>aio-pika\<close>

definition patched_decorate ::
    "(('a \<Rightarrow> span option \<Rightarrow> 'b \<times> span option) \<Rightarrow> 'r) \<Rightarrow> bool \<Rightarrow> target
      \<Rightarrow> ('a \<Rightarrow> span option \<Rightarrow> 'b \<times> span option) \<Rightarrow> 'r" where
  "patched_decorate original is_recording t callback =
     original (record_code_attributes is_recording (fst t) (snd t) callback)"

section \<open>gevent\<close>

text \<open>The call of \<open>monkey.patch_all\<close>, if there is one; its exceptions are logged.\<close>

datatype gevent_call = PatchAll | PatchModules "(string \<times> bool) list"

definition gevent_modules :: "string list" where
  "gevent_modules =
     [''socket'', ''time'', ''select'', ''thread'', ''os'', ''ssl'', ''subprocess'', ''sys'', ''builtins'', ''signal'',
      ''queue'', ''contextvars'']"

definition apply_gevent_monkey_patch :: "bool \<Rightarrow> env \<Rightarrow> gevent_call option" where
  "apply_gevent_monkey_patch gevent_installed e =
     (if \<not> gevent_installed then None
      else let gevent_patch_module = getenv_or e ''AWS_GEVENT_PATCH_MODULES'' ''all''
           in if gevent_patch_module = ''none'' then None
              else if gevent_patch_module = ''all'' then Some PatchAll
              else let module_list = map py_strip (py_split CHR '','' gevent_patch_module)
                   in Some (PatchModules (map (\<lambda>m. (m, m \<in> set module_list)) gevent_modules)))"

section \<open>Starlette middleware\<close>

text \<open>
  Under agent observability a new middleware leaves out the spans of single events, where it has the
  fields for that.
\<close>

record asgi_middleware =
  exclude_receive_span :: "bool option"
  exclude_send_span :: "bool option"

definition starlette_dependencies :: "string list" where
  "starlette_dependencies = [''starlette >= 0.13'']"

definition patched_middleware_init :: "env \<Rightarrow> (unit \<Rightarrow> asgi_middleware res) \<Rightarrow> asgi_middleware res" where
  "patched_middleware_init e original_init =
     (if agent_observability e
      then bindr (original_init ()) (\<lambda>m. Inr
             \<lparr>exclude_receive_span = map_option (\<lambda>_. True) (exclude_receive_span m),
              exclude_send_span = map_option (\<lambda>_. True) (exclude_send_span m)\<rparr>)
      else original_init ())"

section \<open>Resource detectors\<close>

text \<open>The requests of the patched detectors; \<open>urlopen\<close> with the decoding of the answer is a parameter.\<close>

record http_request =
  request_url :: string
  request_verb :: string
  request_headers :: "(string \<times> string) list"
  ca_file :: "string option"
  timeout_sec :: nat

definition ec2_aws_http_request ::
    "(http_request \<Rightarrow> string res) \<Rightarrow> string \<Rightarrow> string \<Rightarrow> (string \<times> string) list \<Rightarrow> string res" where
  "ec2_aws_http_request urlopen verb url_path headers =
     urlopen \<lparr>request_url = ''http://169.254.169.254'' @ url_path, request_verb = verb, request_headers = headers,
              ca_file = None, timeout_sec = 5\<rparr>"

definition eks_aws_http_request ::
    "(http_request \<Rightarrow> string res) \<Rightarrow> string \<Rightarrow> string \<Rightarrow> string \<Rightarrow> string res" where
  "eks_aws_http_request urlopen verb url_path cred_value =
     urlopen \<lparr>request_url = ''https://kubernetes.default.svc'' @ url_path, request_verb = verb,
              request_headers = [(''Authorization'', cred_value)],
              ca_file = Some ''/var/run/secrets/kubernetes.io/serviceaccount/ca.crt'', timeout_sec = 5\<rparr>"

section \<open>The patched functions are transparent\<close>

definition code_keys :: "string set" where
  "code_keys = {''code.function.name'', ''code.file.path'', ''code.line.number''}"

text \<open>The second span is the first one with, at most, other code attributes.\<close>

definition marked :: "span \<Rightarrow> span \<Rightarrow> bool" where
  "marked sp sp' \<longleftrightarrow> sp' = sp\<lparr>attributes := attributes sp'\<rparr> \<and> (\<forall>k. k \<notin> code_keys \<longrightarrow> get sp' k = get sp k)"

lemma marked_refl [simp]: "marked sp sp"
  by (simp add: marked_def)

lemma marked_set:
  assumes "k \<in> code_keys" "marked sp sp'"
  shows "marked sp (set_attribute k v sp')"
proof -
  have "set_attribute k v sp' = sp\<lparr>attributes := attributes (set_attribute k v sp')\<rparr>"
    using assms(2) unfolding marked_def set_attribute_def
    by (metis (no_types, lifting) span.select_convs(5) span.surjective span.update_convs(5))
  moreover have "get (set_attribute k v sp') j = get sp j" if "j \<notin> code_keys" for j
    using that assms by (auto simp: marked_def)
  ultimately show ?thesis by (simp add: marked_def)
qed

lemma marked_span [simp]: "marked sp (mark_span is_recording t sp)"
  by (auto simp: mark_span_def add_code_attributes_to_span_def set_line_def Let_def code_keys_def
      intro!: marked_set split: sum.split option.split)

lemma mark_current_marked [simp]: "rel_option marked sp (mark_current is_recording t sp)"
  by (cases sp; cases t) (simp_all add: mark_current_def)

lemma rel_marked_refl [simp]: "rel_option marked sp sp"
  by (cases sp) simp_all

text \<open>C40: The patched hooks of Django, its REST framework, Celery and Pika give the result or the exception of
  the function they wrap and change nothing but the code attributes of the span, whatever the task or
  view looks like; the Pika hook never raises and calls the hook of the user with the span.\<close>

theorem hooks_transparent:
  "fst (patched_process_view original is_recording view rq) = fst (original rq)
   \<and> rel_option marked (meta_span (snd (original rq)))
       (meta_span (snd (patched_process_view original is_recording view rq)))
   \<and> fst (patched_dispatch dispatch is_recording rest current) = fst (dispatch current)
   \<and> rel_option marked (snd (dispatch current)) (snd (patched_dispatch dispatch is_recording rest current))
   \<and> fst (patched_trace_prerun prerun fails is_recording t task_id stored) = fst (prerun stored)
   \<and> rel_option marked (snd (prerun stored)) (snd (patched_trace_prerun prerun fails is_recording t task_id stored))
   \<and> (\<exists>sp'. rel_option marked sp sp'
        \<and> enhanced_consume_hook consume_hook is_recording callback sp = (None, snd (consume_hook sp')))"
proof -
  have django: "rel_option marked (meta_span q) (meta_span (annotate_request is_recording view q))" for q
    by (cases "meta_span q") (auto simp: annotate_request_def split: sum.splits)
  have "rel_option marked q (add_code_correlation_to_span is_recording t q)" for q
    by (simp add: add_code_correlation_to_span_def)
  moreover have "rel_option marked sp (if is_recording then mark_current is_recording (Some callback) sp else sp)"
    by simp
  ultimately show ?thesis
    using django
    by (auto simp: patched_process_view_def patched_dispatch_def patched_trace_prerun_def
        enhanced_consume_hook_def split: prod.splits sum.splits)
qed

end
