(* ===== verification/PyValues.thy ===== *)
theory PyValues
  imports Json
begin

text \<open>
  Python's operations on dynamically typed values (events of Lambda, parameters and results of botocore,
  chunks of a stream), with dictionaries as \<open>JObj\<close> and \<open>None\<close> as \<open>JNull\<close>.
\<close>

section \<open>Reading\<close>

definition json_true :: "json \<Rightarrow> bool" where
  "json_true v =
     (case v of JStr s \<Rightarrow> s \<noteq> [] | JInt i \<Rightarrow> i \<noteq> 0 | JFloat q \<Rightarrow> q \<noteq> 0 | JBool b \<Rightarrow> b | JNull \<Rightarrow> False
      | JList vs \<Rightarrow> vs \<noteq> [] | JObj fs \<Rightarrow> fs \<noteq> [] | JUnknown \<Rightarrow> True)"

definition dict_get :: "(string \<times> json) list \<Rightarrow> string \<Rightarrow> json" where
  "dict_get d k = (case map_of d k of Some v \<Rightarrow> v | None \<Rightarrow> JNull)"

text \<open>\<open>v[key]\<close>, \<open>key in v\<close> and \<open>v.get(key)\<close> for a text key.\<close>

definition get_item :: "json \<Rightarrow> string \<Rightarrow> json res" where
  "get_item v key =
     (case v of
        JObj d \<Rightarrow> (case map_of d key of Some x \<Rightarrow> Inr x | None \<Rightarrow> Inl KeyError)
      | _ \<Rightarrow> Inl TypeError)"

definition contains :: "string \<Rightarrow> json \<Rightarrow> bool res" where
  "contains key v =
     (case v of
        JObj d \<Rightarrow> Inr (key \<in> fst ` set d)
      | JStr s \<Rightarrow> Inr (py_in key s)
      | JList vs \<Rightarrow> Inr (JStr key \<in> set vs)
      | _ \<Rightarrow> Inl TypeError)"

definition get_method :: "json \<Rightarrow> string \<Rightarrow> json res" where
  "get_method v key = (case v of JObj d \<Rightarrow> Inr (dict_get d key) | _ \<Rightarrow> Inl AttributeError)"

definition text_value :: "(json \<Rightarrow> string) \<Rightarrow> json \<Rightarrow> string" where
  "text_value str_json v = (case v of JStr s \<Rightarrow> s | _ \<Rightarrow> str_json v)"

lemma contains_dict [simp]: "contains k (JObj d) = Inr (k \<in> fst ` set d)"
  by (simp add: contains_def)

lemma get_item_dict: "k \<in> fst ` set d \<Longrightarrow> \<exists>v. get_item (JObj d) k = Inr v"
  by (cases "map_of d k") (auto simp: get_item_def map_of_eq_None_iff)

text \<open>What a loop over a value sees: the items of a list, the characters of a text, the keys of a dictionary.\<close>

definition iterate :: "json \<Rightarrow> json list res" where
  "iterate v =
     (case v of
        JList vs \<Rightarrow> Inr vs
      | JStr s \<Rightarrow> Inr (map (\<lambda>c. JStr [c]) s)
      | JObj d \<Rightarrow> Inr (map (JStr \<circ> fst) d)
      | _ \<Rightarrow> Inl TypeError)"

section \<open>Changing\<close>

text \<open>\<open>v[key] = x\<close> and \<open>v.append(x)\<close>, as the value afterwards; \<open>v + w\<close> on texts, numbers and lists.\<close>

definition set_item :: "json \<Rightarrow> string \<Rightarrow> json \<Rightarrow> json res" where
  "set_item v key x = (case v of JObj d \<Rightarrow> Inr (JObj (AList.update key x d)) | _ \<Rightarrow> Inl TypeError)"

definition append_item :: "json \<Rightarrow> json \<Rightarrow> json res" where
  "append_item v x = (case v of JList vs \<Rightarrow> Inr (JList (vs @ [x])) | _ \<Rightarrow> Inl AttributeError)"

definition add_values :: "json \<Rightarrow> json \<Rightarrow> json res" where
  "add_values v w =
     (case (v, w) of
        (JStr s, JStr t) \<Rightarrow> Inr (JStr (s @ t))
      | (JList vs, JList ws) \<Rightarrow> Inr (JList (vs @ ws))
      | (JInt i, JInt j) \<Rightarrow> Inr (JInt (i + j))
      | _ \<Rightarrow> Inl TypeError)"

text \<open>\<open>v.get(key, default)\<close>.\<close>

definition get_default :: "json \<Rightarrow> string \<Rightarrow> json \<Rightarrow> json res" where
  "get_default v key other =
     (case v of
        JObj d \<Rightarrow> Inr (case map_of d key of Some x \<Rightarrow> x | None \<Rightarrow> other)
      | _ \<Rightarrow> Inl AttributeError)"

end
