(* ===== verification/LambdaLayer.thy ===== *)
theory LambdaLayer
  imports PyValues
begin

text \<open>
  The Lambda layer: the instrumentation of the handler (\<open>opentelemetry/instrumentation/aws_lambda\<close>)
  and the module that Lambda loads instead of the user's (\<open>otel_wrapper.py\<close>).

  Events and results are Python values, here JSON values with dictionaries as \<open>JObj\<close>. What the SDK
  keeps of an attribute value (it refuses \<open>None\<close>, dictionaries and mixed lists), \<open>str()\<close> of a value
  that is no text, the propagators and the providers are parameters.
\<close>

section \<open>Query strings\<close>

text \<open>\<open>urllib.parse.urlencode\<close>: texts are quoted byte by byte in UTF-8.\<close>

definition hex_upper :: "nat \<Rightarrow> char" where
  "hex_upper n = (if n < 10 then char_of (48 + n) else char_of (55 + n))"

definition percent :: "nat \<Rightarrow> string" where
  "percent n = [CHR ''%'', hex_upper (n div 16), hex_upper (n mod 16)]"

definition utf8 :: "char \<Rightarrow> nat list" where
  "utf8 c = (if ord c < 128 then [ord c] else [192 + ord c div 64, 128 + ord c mod 64])"

definition quote_plus :: "string \<Rightarrow> string" where
  "quote_plus s =
     concat (map (\<lambda>c. if char_isalpha c \<and> ord c < 128 \<or> is_dec c \<or> c \<in> set ''_.-~'' then [c]
                      else if c = CHR '' '' then ''+'' else concat (map percent (utf8 c))) s)"

definition urlencode :: "(json \<Rightarrow> string) \<Rightarrow> json \<Rightarrow> string res" where
  "urlencode str_json v =
     (case v of
        JObj fs \<Rightarrow>
          Inr (py_join ''&'' (map (\<lambda>(k, x). quote_plus k @ ''='' @ quote_plus (text_value str_json x)) fs))
      | _ \<Rightarrow> Inl TypeError)"

section \<open>Attributes\<close>

text \<open>
  Steps that set attributes; one that raises ends the sequence and what was set before stays.
\<close>

type_synonym step = "attrs \<Rightarrow> exn option \<times> attrs"

fun run_steps :: "step list \<Rightarrow> step" where
  "run_steps [] a = (None, a)"
| "run_steps (f # fs) a = (case f a of (None, a') \<Rightarrow> run_steps fs a' | (Some e, a') \<Rightarrow> (Some e, a'))"

definition put :: "(json \<Rightarrow> aval option) \<Rightarrow> string \<Rightarrow> json res \<Rightarrow> step" where
  "put clean key r a =
     (case r of
        Inl e \<Rightarrow> (Some e, a)
      | Inr v \<Rightarrow> (None, case clean v of Some x \<Rightarrow> AList.update key x a | None \<Rightarrow> a))"

definition when_res :: "bool res \<Rightarrow> step \<Rightarrow> step" where
  "when_res r f a =
     (case r of Inl e \<Rightarrow> (Some e, a) | Inr b \<Rightarrow> if b then f a else (None, a))"

record value_ops =
  clean_value :: "json \<Rightarrow> aval option"
  str_value :: "json \<Rightarrow> string"

definition put_if_in :: "value_ops \<Rightarrow> string \<Rightarrow> json \<Rightarrow> string \<Rightarrow> step" where
  "put_if_in vs key v name = when_res (contains name v) (put (clean_value vs) key (get_item v name))"

definition set_api_gateway_v1_proxy_attributes :: "value_ops \<Rightarrow> (string \<times> json) list \<Rightarrow> step" where
  "set_api_gateway_v1_proxy_attributes vs lambda_event =
     (let headers = dict_get lambda_event ''headers'';
          route = dict_get lambda_event ''resource'';
          query = dict_get lambda_event ''queryStringParameters''
      in run_steps
           [put (clean_value vs) ''http.method'' (Inr (dict_get lambda_event ''httpMethod'')),
            when_res (Inr (json_true headers)) (run_steps
              [put_if_in vs ''http.user_agent'' headers ''User-Agent'',
               put_if_in vs ''http.scheme'' headers ''X-Forwarded-Proto'',
               put_if_in vs ''net.host.name'' headers ''Host'']),
            when_res (contains ''resource'' (JObj lambda_event)) (run_steps
              [put (clean_value vs) ''http.route'' (Inr route),
               put (clean_value vs) ''http.target''
                 (if json_true query
                  then bindr (urlencode (str_value vs) query) (\<lambda>q.
                         Inr (JStr (text_value (str_value vs) route @ ''?'' @ q)))
                  else Inr route)])])"

definition set_api_gateway_v2_proxy_attributes :: "value_ops \<Rightarrow> (string \<times> json) list \<Rightarrow> step" where
  "set_api_gateway_v2_proxy_attributes vs lambda_event =
     (let request_context = dict_get lambda_event ''requestContext'';
          query = dict_get lambda_event ''rawQueryString''
      in run_steps
           [put_if_in vs ''net.host.name'' request_context ''domainName'',
            (case get_method request_context ''http'' of
               Inl e \<Rightarrow> (\<lambda>a. (Some e, a))
             | Inr http \<Rightarrow> when_res (Inr (json_true http)) (run_steps
                 [put_if_in vs ''http.method'' http ''method'',
                  put_if_in vs ''http.user_agent'' http ''userAgent'',
                  when_res (contains ''path'' http) (run_steps
                    [put (clean_value vs) ''http.route'' (get_item http ''path''),
                     put (clean_value vs) ''http.target''
                       (bindr (get_item http ''path'') (\<lambda>p.
                          Inr (if json_true query
                               then JStr (text_value (str_value vs) p @ ''?'' @ text_value (str_value vs) query)
                               else p)))])]))])"

text \<open>The attributes of an event that came from an API Gateway.\<close>

definition api_gateway_attributes :: "value_ops \<Rightarrow> json \<Rightarrow> json option \<Rightarrow> step" where
  "api_gateway_attributes vs lambda_event result a =
     (case lambda_event of
        JObj ev \<Rightarrow>
          if \<not> json_true (dict_get ev ''requestContext'') then (None, a)
          else run_steps
            [put (clean_value vs) ''faas.trigger'' (Inr (JStr ''http'')),
             (if dict_get ev ''version'' = JStr ''2.0'' then set_api_gateway_v2_proxy_attributes vs ev
              else set_api_gateway_v1_proxy_attributes vs ev),
             (case result of
                Some (JObj d) \<Rightarrow> when_res (Inr (json_true (dict_get d ''statusCode'')))
                  (put (clean_value vs) ''http.status_code'' (Inr (dict_get d ''statusCode'')))
              | _ \<Rightarrow> (\<lambda>a. (None, a)))] a
      | _ \<Rightarrow> (None, a))"

section \<open>Parent context\<close>

text \<open>The headers of an event, or none; both extractors use them.\<close>

definition event_headers :: "json \<Rightarrow> (string \<times> json) list" where
  "event_headers lambda_event =
     (case get_item lambda_event ''headers'' of Inr (JObj d) \<Rightarrow> d | _ \<Rightarrow> [])"

definition default_event_context_extractor :: "((string \<times> json) list \<Rightarrow> 'ctx res) \<Rightarrow> json \<Rightarrow> 'ctx res" where
  "default_event_context_extractor extract lambda_event = extract (event_headers lambda_event)"

definition determine_parent_context ::
    "((string \<times> json) list \<Rightarrow> 'ctx res) \<Rightarrow> (json \<Rightarrow> 'ctx res) option \<Rightarrow> json \<Rightarrow> 'ctx res" where
  "determine_parent_context extract event_context_extractor lambda_event =
     (case event_context_extractor of
        None \<Rightarrow> default_event_context_extractor extract lambda_event
      | Some f \<Rightarrow> f lambda_event)"

text \<open>
  \<open>custom_event_context_extractor\<close> of the wrapper: the trace header of the Lambda environment wins when it
  yields a valid context.
\<close>

definition custom_event_context_extractor ::
    "(string option \<Rightarrow> 'ctx) \<Rightarrow> ('ctx \<Rightarrow> bool) \<Rightarrow> ((string \<times> json) list \<Rightarrow> 'ctx res) \<Rightarrow> string option \<Rightarrow> json \<Rightarrow> 'ctx res"
    where
  "custom_event_context_extractor xray_extract valid_context extract xray_env_var lambda_event =
     (let lambda_trace_context = xray_extract xray_env_var
      in if \<not> valid_context lambda_trace_context then extract (event_headers lambda_event)
         else Inr lambda_trace_context)"

section \<open>The instrumented call\<close>

record lambda_context =
  invoked_function_arn :: string
  aws_request_id :: string

text \<open>
  The span is what the call leaves in it. \<open>flush\<close> is a \<open>force_flush\<close> with its time limit in milliseconds;
  a provider without the method is \<open>None\<close>, an exception it raises is logged. The clock is read before the
  flushes and before each of the last two.
\<close>

record lambda_span =
  lambda_attributes :: attrs
  lambda_error :: bool
  recorded_exceptions :: "exn list"

datatype flush = FlushTraces rat | FlushMetrics rat | FlushLogs rat

record providers =
  tracer_flush :: "(rat \<Rightarrow> exn option) option"
  meter_flush :: "(rat \<Rightarrow> exn option) option"
  logger_flush :: "(rat \<Rightarrow> exn option) option"

record clock_readings =
  before_flush :: rat
  before_metrics :: rat
  before_logs :: rat

definition flush_after :: "(rat \<Rightarrow> flush) \<Rightarrow> (rat \<Rightarrow> exn option) option \<Rightarrow> rat \<Rightarrow> flush list" where
  "flush_after what provider rem =
     (case provider of Some f \<Rightarrow> if rem > 0 then [what rem] else [] | None \<Rightarrow> [])"

definition flush_all :: "providers \<Rightarrow> rat \<Rightarrow> clock_readings \<Rightarrow> flush list" where
  "flush_all ps flush_timeout t =
     (case tracer_flush ps of Some f \<Rightarrow> [FlushTraces flush_timeout] | None \<Rightarrow> [])
     @ flush_after FlushMetrics (meter_flush ps) (flush_timeout - (before_metrics t - before_flush t) * 1000)
     @ flush_after FlushLogs (logger_flush ps) (flush_timeout - (before_logs t - before_flush t) * 1000)"

definition invocation_attributes :: "lambda_context \<Rightarrow> (attrs \<Rightarrow> attrs) \<Rightarrow> step" where
  "invocation_attributes lc code_attributes =
     run_steps
       [(\<lambda>a. (None, AList.update ''cloud.resource_id'' (AStr (invoked_function_arn lc)) a)),
        (\<lambda>a. (None, AList.update ''faas.invocation_id'' (AStr (aws_request_id lc)) a)),
        (\<lambda>a. let arn_parts = py_split CHR '':'' (invoked_function_arn lc)
             in if length arn_parts \<le> 4 then (Some IndexError, a)
                else (None, AList.update ''cloud.account.id'' (AStr (arn_parts ! 4)) a)),
        (\<lambda>a. (None, code_attributes a))]"

text \<open>
  The wrapper around the handler: the result or the exception it ends with, the span (\<open>None\<close> when none was
  started), the calls of the handler with their parent contexts, and the flushes.
\<close>

record 'ctx outcome =
  call_result :: "json res"
  call_span :: "lambda_span option"
  handler_calls :: "(json \<times> 'ctx) list"
  flushes :: "flush list"

definition new_lambda_span :: "attrs \<Rightarrow> lambda_span" where
  "new_lambda_span a = \<lparr>lambda_attributes = a, lambda_error = False, recorded_exceptions = []\<rparr>"

definition after_handler :: "value_ops \<Rightarrow> providers \<Rightarrow> rat \<Rightarrow> clock_readings \<Rightarrow> json \<Rightarrow> 'ctx
    \<Rightarrow> attrs \<Rightarrow> json res \<Rightarrow> 'ctx outcome" where
  "after_handler vs ps flush_timeout t lambda_event parent_context a r =
     (let sp = (case r of
                  Inr _ \<Rightarrow> new_lambda_span a
                | Inl e \<Rightarrow> (new_lambda_span a)\<lparr>lambda_error := True, recorded_exceptions := [e]\<rparr>);
          (error, a') = api_gateway_attributes vs lambda_event (case r of Inr v \<Rightarrow> Some v | Inl _ \<Rightarrow> None) a;
          sp' = sp\<lparr>lambda_attributes := a'\<rparr>
      in case error of
           Some e \<Rightarrow> \<lparr>call_result = Inl e, call_span = Some sp',
                      handler_calls = [(lambda_event, parent_context)], flushes = []\<rparr>
         | None \<Rightarrow> \<lparr>call_result = r, call_span = Some sp',
                    handler_calls = [(lambda_event, parent_context)],
                    flushes = flush_all ps flush_timeout t\<rparr>)"

definition instrumented_lambda_handler_call ::
    "value_ops \<Rightarrow> providers \<Rightarrow> rat \<Rightarrow> clock_readings \<Rightarrow> (json \<Rightarrow> 'ctx res) \<Rightarrow> bool \<Rightarrow> (attrs \<Rightarrow> attrs)
      \<Rightarrow> (json \<Rightarrow> 'ctx \<Rightarrow> json res) \<Rightarrow> json \<Rightarrow> lambda_context \<Rightarrow> 'ctx outcome" where
  "instrumented_lambda_handler_call vs ps flush_timeout t parent_context_of is_recording code_attributes
       call_wrapped lambda_event lc =
     (case parent_context_of lambda_event of
        Inl e \<Rightarrow> \<lparr>call_result = Inl e, call_span = None, handler_calls = [], flushes = []\<rparr>
      | Inr parent_context \<Rightarrow>
          (case (if is_recording then invocation_attributes lc code_attributes [] else (None, [])) of
             (Some e, a) \<Rightarrow> \<lparr>call_result = Inl e, call_span = Some (new_lambda_span a),
                             handler_calls = [], flushes = []\<rparr>
           | (None, a) \<Rightarrow>
               after_handler vs ps flush_timeout t lambda_event parent_context a
                 (call_wrapped lambda_event parent_context)))"

section \<open>Finding the handler\<close>

text \<open>\<open>text.rsplit(".", 1)\<close> unpacked into two names.\<close>

definition rsplit_name :: "string \<Rightarrow> (string \<times> string) res" where
  "rsplit_name s =
     (let function_name = rev (takeWhile (\<lambda>c. c \<noteq> CHR ''.'') (rev s))
      in if CHR ''.'' \<in> set s
         then Inr (take (length s - length function_name - 1) s, function_name)
         else Inl ValueError)"

record instrumentor =
  wrapped_module_name :: string
  wrapped_function_name :: string
  flush_limit :: int

definition getenv_value :: "(string \<times> string) list \<Rightarrow> string \<Rightarrow> string option" where
  "getenv_value e name = map_of e name"

definition instrument_lambda :: "(string \<times> string) list \<Rightarrow> instrumentor option res" where
  "instrument_lambda e =
     (case (case getenv_value e ''ORIG_HANDLER'' of Some h \<Rightarrow> Some h | None \<Rightarrow> getenv_value e ''_HANDLER'') of
        None \<Rightarrow> Inr None
      | Some lambda_handler \<Rightarrow>
          if lambda_handler = [] then Inr None
          else bindr (rsplit_name lambda_handler) (\<lambda>(m, f).
            Inr (Some \<lparr>wrapped_module_name = m, wrapped_function_name = f,
              flush_limit = (case getenv_value e ''OTEL_INSTRUMENTATION_AWS_LAMBDA_FLUSH_TIMEOUT'' of
                 None \<Rightarrow> 30000
               | Some s \<Rightarrow> (case py_int s of Some n \<Rightarrow> n | None \<Rightarrow> 30000))\<rparr>)))"

definition modify_module_name :: "string \<Rightarrow> string" where
  "modify_module_name module_name = py_join ''.'' (py_split CHR ''/'' module_name)"

text \<open>
  Loading the wrapper: it instruments, then imports the handler's module and looks the handler up. What it
  gives is the wrapped module and function, and the imported ones.
\<close>

definition handler_error :: exn where "handler_error = Foreign ''HandlerError''"

definition load_wrapper ::
    "(string \<times> string) list \<Rightarrow> (instrumentor option \<times> string \<times> string) res" where
  "load_wrapper e =
     bindr (instrument_lambda e) (\<lambda>i.
       case getenv_value e ''ORIG_HANDLER'' of
         None \<Rightarrow> Inl handler_error
       | Some handler_path \<Rightarrow>
           (case rsplit_name handler_path of
              Inl _ \<Rightarrow> Inl handler_error
            | Inr (mod_name, handler_name) \<Rightarrow> Inr (i, modify_module_name mod_name, handler_name)))"

section \<open>Transparency\<close>

definition dict_or_false :: "json \<Rightarrow> bool" where
  "dict_or_false v \<longleftrightarrow> (case v of JObj d \<Rightarrow> True | _ \<Rightarrow> \<not> json_true v)"

text \<open>An event with the types that the API Gateway documents, or one without a request context.\<close>

definition gateway_event_ok :: "json \<Rightarrow> bool" where
  "gateway_event_ok v \<longleftrightarrow>
     (case v of
        JObj ev \<Rightarrow>
          \<not> json_true (dict_get ev ''requestContext'')
          \<or> (if dict_get ev ''version'' = JStr ''2.0''
             then (case dict_get ev ''requestContext'' of JObj rc \<Rightarrow> dict_or_false (dict_get rc ''http'') | _ \<Rightarrow> False)
             else dict_or_false (dict_get ev ''headers'') \<and> dict_or_false (dict_get ev ''queryStringParameters''))
      | _ \<Rightarrow> True)"

lemma run_steps_ok: "(\<And>f a. f \<in> set fs \<Longrightarrow> fst (f a) = None) \<Longrightarrow> fst (run_steps fs a) = None"
proof (induction fs arbitrary: a)
  case (Cons f fs)
  then have "fst (f a) = None" by simp
  then obtain a' where "f a = (None, a')" by (metis prod.collapse)
  with Cons show ?case by simp
qed simp

lemma put_Inr [simp]: "fst (put clean k (Inr v) a) = None"
  by (simp add: put_def)

lemma when_res_ok: "(b \<Longrightarrow> fst (f a) = None) \<Longrightarrow> fst (when_res (Inr b) f a) = None"
  by (simp add: when_res_def)

lemma put_if_in_dict [simp]: "fst (put_if_in vs key (JObj d) name a) = None"
  unfolding put_if_in_def contains_dict
proof (rule when_res_ok)
  assume "name \<in> fst ` set d"
  then obtain v where "get_item (JObj d) name = Inr v" using get_item_dict by blast
  then show "fst (put (clean_value vs) key (get_item (JObj d) name) a) = None" by simp
qed

lemma dict_or_false_cases:
  assumes "dict_or_false v" "json_true v"
  obtains d where "v = JObj d"
  using assms by (cases v) (auto simp: dict_or_false_def)

lemma v1_ok:
  assumes "dict_or_false (dict_get ev ''headers'')" "dict_or_false (dict_get ev ''queryStringParameters'')"
  shows "fst (set_api_gateway_v1_proxy_attributes vs ev a) = None"
  unfolding set_api_gateway_v1_proxy_attributes_def Let_def contains_dict
proof (rule run_steps_ok, simp only: list.set insert_iff empty_iff, elim disjE FalseE; hypsubst)
  fix a
  show "fst (put (clean_value vs) ''http.method'' (Inr (dict_get ev ''httpMethod'')) a) = None" by simp
  show "fst (when_res (Inr (json_true (dict_get ev ''headers''))) (run_steps
      [put_if_in vs ''http.user_agent'' (dict_get ev ''headers'') ''User-Agent'',
       put_if_in vs ''http.scheme'' (dict_get ev ''headers'') ''X-Forwarded-Proto'',
       put_if_in vs ''net.host.name'' (dict_get ev ''headers'') ''Host'']) a) = None"
  proof (rule when_res_ok)
    assume "json_true (dict_get ev ''headers'')"
    with assms(1) obtain d where "dict_get ev ''headers'' = JObj d" by (rule dict_or_false_cases)
    then show "fst (run_steps
      [put_if_in vs ''http.user_agent'' (dict_get ev ''headers'') ''User-Agent'',
       put_if_in vs ''http.scheme'' (dict_get ev ''headers'') ''X-Forwarded-Proto'',
       put_if_in vs ''net.host.name'' (dict_get ev ''headers'') ''Host''] a) = None"
      by (intro run_steps_ok) auto
  qed
  have "\<exists>v. (if json_true (dict_get ev ''queryStringParameters'')
      then bindr (urlencode (str_value vs) (dict_get ev ''queryStringParameters'')) (\<lambda>q.
        Inr (JStr (text_value (str_value vs) (dict_get ev ''resource'') @ ''?'' @ q)))
      else Inr (dict_get ev ''resource'')) = Inr v"
    using assms(2) by (auto simp: urlencode_def elim!: dict_or_false_cases)
  then show "fst (when_res (Inr (''resource'' \<in> fst ` set ev)) (run_steps
      [put (clean_value vs) ''http.route'' (Inr (dict_get ev ''resource'')),
       put (clean_value vs) ''http.target''
         (if json_true (dict_get ev ''queryStringParameters'')
          then bindr (urlencode (str_value vs) (dict_get ev ''queryStringParameters'')) (\<lambda>q.
            Inr (JStr (text_value (str_value vs) (dict_get ev ''resource'') @ ''?'' @ q)))
          else Inr (dict_get ev ''resource''))]) a) = None"
    by (intro when_res_ok run_steps_ok) (auto simp: put_Inr)
qed

lemma v2_ok:
  assumes "dict_get ev ''requestContext'' = JObj rc" "dict_or_false (dict_get rc ''http'')"
  shows "fst (set_api_gateway_v2_proxy_attributes vs ev a) = None"
proof -
  have http: "fst (when_res (Inr (json_true (dict_get rc ''http''))) (run_steps
       [put_if_in vs ''http.method'' (dict_get rc ''http'') ''method'',
        put_if_in vs ''http.user_agent'' (dict_get rc ''http'') ''userAgent'',
        when_res (contains ''path'' (dict_get rc ''http'')) (run_steps
          [put (clean_value vs) ''http.route'' (get_item (dict_get rc ''http'') ''path''),
           put (clean_value vs) ''http.target'' (bindr (get_item (dict_get rc ''http'') ''path'') (\<lambda>p. Inr (f p)))])]) a)
     = None" for f a
  proof (rule when_res_ok)
    assume "json_true (dict_get rc ''http'')"
    with assms(2) obtain d where d: "dict_get rc ''http'' = JObj d" by (rule dict_or_false_cases)
    show "fst (run_steps
       [put_if_in vs ''http.method'' (dict_get rc ''http'') ''method'',
        put_if_in vs ''http.user_agent'' (dict_get rc ''http'') ''userAgent'',
        when_res (contains ''path'' (dict_get rc ''http'')) (run_steps
          [put (clean_value vs) ''http.route'' (get_item (dict_get rc ''http'') ''path''),
           put (clean_value vs) ''http.target'' (bindr (get_item (dict_get rc ''http'') ''path'') (\<lambda>p. Inr (f p)))])] a)
      = None"
      unfolding d contains_dict
      by (intro run_steps_ok) (auto intro!: when_res_ok run_steps_ok dest!: get_item_dict)
  qed
  show ?thesis
    unfolding set_api_gateway_v2_proxy_attributes_def Let_def assms(1)
    by (rule run_steps_ok) (auto simp: get_method_def http)
qed

lemma gateway_attributes_ok:
  assumes "gateway_event_ok event"
  shows "fst (api_gateway_attributes vs event r a) = None"
proof (cases "\<exists>ev. event = JObj ev \<and> json_true (dict_get ev ''requestContext'')")
  case False
  then show ?thesis by (auto simp: api_gateway_attributes_def split: json.splits)
next
  case True
  then obtain ev where ev: "event = JObj ev" "json_true (dict_get ev ''requestContext'')" by blast
  let ?proxy = "if dict_get ev ''version'' = JStr ''2.0'' then set_api_gateway_v2_proxy_attributes vs ev
      else set_api_gateway_v1_proxy_attributes vs ev"
  have proxy: "fst (?proxy a) = None" for a
    using assms ev
    by (auto simp: gateway_event_ok_def intro: v1_ok v2_ok split: json.splits if_splits)
  let ?status = "case r of
      Some (JObj d) \<Rightarrow> when_res (Inr (json_true (dict_get d ''statusCode'')))
        (put (clean_value vs) ''http.status_code'' (Inr (dict_get d ''statusCode'')))
    | _ \<Rightarrow> (\<lambda>a. (None, a))"
  have status: "fst (?status a) = None" for a
    by (auto split: option.splits json.splits intro!: when_res_ok)
  have "fst (run_steps [put (clean_value vs) ''faas.trigger'' (Inr (JStr ''http'')), ?proxy, ?status] a) = None"
    using proxy status by (intro run_steps_ok) auto
  then show ?thesis using ev(2) by (simp add: api_gateway_attributes_def ev(1) del: run_steps.simps)
qed

definition flush_time :: "flush \<Rightarrow> rat" where
  "flush_time f = (case f of FlushTraces r \<Rightarrow> r | FlushMetrics r \<Rightarrow> r | FlushLogs r \<Rightarrow> r)"

lemma flush_after_times:
  "x \<in> set (flush_after FlushMetrics p r) \<Longrightarrow> 0 < r \<and> flush_time x = r"
  "x \<in> set (flush_after FlushLogs p r) \<Longrightarrow> 0 < r \<and> flush_time x = r"
  by (auto simp: flush_after_def flush_time_def split: option.splits if_splits)

lemma flush_all_times:
  assumes "before_flush t \<le> before_metrics t" "before_flush t \<le> before_logs t" "x \<in> set (flush_all ps limit t)"
  shows "flush_time x \<le> limit" and "flush_time x = limit \<or> 0 < flush_time x"
  using assms by (auto simp: flush_all_def flush_time_def dest!: flush_after_times split: option.splits)

lemma invocation_attributes_ok:
  "4 < length (py_split CHR '':'' (invoked_function_arn lc)) \<Longrightarrow> fst (invocation_attributes lc code a) = None"
  by (simp add: invocation_attributes_def)

text \<open>C10: The instrumentation is invisible to the function. When the parent context can be extracted, the ARN has
  its account part and the event, if it claims to come from an API Gateway, has the documented types, the
  handler is called exactly once with the event under that context, and its result, or the exception it
  raises, is what the caller gets; the span is marked as failed exactly when it raised. The three providers
  are flushed in order, traces with the whole time limit and the others with what is left of it.\<close>

theorem lambda_handler_transparent:
  assumes "gateway_event_ok event" "parent_context_of event = Inr ctx"
    and "is_recording \<longrightarrow> 4 < length (py_split CHR '':'' (invoked_function_arn lc))"
    and "before_flush t \<le> before_metrics t" "before_flush t \<le> before_logs t"
  shows "\<exists>sp. instrumented_lambda_handler_call vs ps limit t parent_context_of is_recording code handler event lc
      = \<lparr>call_result = handler event ctx, call_span = Some sp, handler_calls = [(event, ctx)],
         flushes = flush_all ps limit t\<rparr>
    \<and> (lambda_error sp \<longleftrightarrow> (\<exists>e. handler event ctx = Inl e))
    \<and> (\<forall>x \<in> set (flush_all ps limit t). flush_time x \<le> limit \<and> (flush_time x = limit \<or> 0 < flush_time x))
    \<and> (tracer_flush ps \<noteq> None \<longrightarrow> hd (flush_all ps limit t) = FlushTraces limit)"
proof -
  define before where "before = (if is_recording then invocation_attributes lc code [] else (None, []))"
  have "fst before = None" using assms(3) invocation_attributes_ok by (simp add: before_def)
  then obtain a where a: "before = (None, a)" by (metis prod.collapse)
  let ?r = "handler event ctx"
  have "fst (api_gateway_attributes vs event (case ?r of Inr v \<Rightarrow> Some v | Inl _ \<Rightarrow> None) a) = None"
    using gateway_attributes_ok [OF assms(1)] .
  then obtain a' where a': "api_gateway_attributes vs event (case ?r of Inr v \<Rightarrow> Some v | Inl _ \<Rightarrow> None) a = (None, a')"
    by (metis prod.collapse)
  have "instrumented_lambda_handler_call vs ps limit t parent_context_of is_recording code handler event lc
      = after_handler vs ps limit t event ctx a ?r"
    using a assms(2) by (simp add: instrumented_lambda_handler_call_def before_def)
  moreover have "\<exists>sp. after_handler vs ps limit t event ctx a ?r
      = \<lparr>call_result = ?r, call_span = Some sp, handler_calls = [(event, ctx)], flushes = flush_all ps limit t\<rparr>
      \<and> (lambda_error sp \<longleftrightarrow> (\<exists>e. ?r = Inl e))"
    using a' by (cases ?r) (simp_all add: after_handler_def new_lambda_span_def)
  moreover have "tracer_flush ps \<noteq> None \<longrightarrow> hd (flush_all ps limit t) = FlushTraces limit"
    by (auto simp: flush_all_def)
  ultimately show ?thesis using flush_all_times [OF assms(4,5)] by auto
qed

definition demo_event :: json where
  "demo_event = JObj [(''version'', JStr ''2.0''),
     (''requestContext'', JObj [(''http'', JObj [(''method'', JStr ''GET''), (''path'', JStr ''/pets'')])])]"

definition demo_lambda_context :: lambda_context where
  "demo_lambda_context =
     \<lparr>invoked_function_arn = ''arn:aws:lambda:eu-west-1:123456789012:function:pets'', aws_request_id = ''r-1''\<rparr>"

theorem lambda_handler_transparent_witness:
  "let t = \<lparr>before_flush = 1, before_metrics = 2, before_logs = 3\<rparr>;
       ps = \<lparr>tracer_flush = Some (\<lambda>_. None), meter_flush = None, logger_flush = Some (\<lambda>_. Some RuntimeError)\<rparr>;
       r = instrumented_lambda_handler_call \<lparr>clean_value = (\<lambda>v. None), str_value = (\<lambda>v. [])\<rparr> ps 30000 t
             (\<lambda>_. Inr ()) True (\<lambda>a. a) (\<lambda>ev u. Inl ValueError) demo_event demo_lambda_context
   in call_result r = Inl ValueError \<and> flushes r = [FlushTraces 30000, FlushLogs 28000]"
proof -
  let ?t = "\<lparr>before_flush = 1, before_metrics = 2, before_logs = 3\<rparr> :: clock_readings"
  let ?ps = "\<lparr>tracer_flush = Some (\<lambda>_. None), meter_flush = None, logger_flush = Some (\<lambda>_. Some RuntimeError)\<rparr>"
  have event: "gateway_event_ok demo_event" by code_simp
  have arn: "True \<longrightarrow> 4 < length (py_split CHR '':'' (invoked_function_arn demo_lambda_context))" by code_simp
  have times: "before_flush ?t \<le> before_metrics ?t" "before_flush ?t \<le> before_logs ?t" by simp_all
  have parent_ok: "(\<lambda>_. Inr () :: unit res) demo_event = Inr ()" by simp
  have "flush_all ?ps 30000 ?t = [FlushTraces 30000, FlushLogs 28000]"
    by (simp add: flush_all_def flush_after_def)
  then show ?thesis
    using lambda_handler_transparent [OF event parent_ok arn times, where ps = ?ps and limit = 30000
        and vs = "\<lparr>clean_value = (\<lambda>v. None), str_value = (\<lambda>v. [])\<rparr>" and code = "\<lambda>a. a"
        and handler = "\<lambda>ev u. Inl ValueError"]
    by (auto simp: Let_def)
qed

text \<open>
  Outside these types the instrumentation is visible: a request context that is a text makes the wrapper raise
  after the handler has returned, and the result is lost.
\<close>

lemma text_request_context_loses_result:
  "call_result (instrumented_lambda_handler_call vs ps limit t (\<lambda>_. Inr ()) False code (\<lambda>ev u. Inr (JInt 1))
     (JObj [(''version'', JStr ''2.0''), (''requestContext'', JStr ''ctx'')]) lc) = Inl AttributeError"
  by (simp add: instrumented_lambda_handler_call_def after_handler_def api_gateway_attributes_def dict_get_def
      json_true_def set_api_gateway_v2_proxy_attributes_def get_method_def put_def put_if_in_def contains_def
      when_res_def new_lambda_span_def split: option.splits)

section \<open>The handler that is wrapped\<close>

lemma rsplit_name_Inr:
  assumes "rsplit_name s = Inr (m, f)"
  shows "s = m @ CHR ''.'' # f" and "CHR ''.'' \<notin> set f"
proof -
  let ?w = "takeWhile (\<lambda>c. c \<noteq> CHR ''.'') (rev s)"
  let ?d = "dropWhile (\<lambda>c. c \<noteq> CHR ''.'') (rev s)"
  have dot: "CHR ''.'' \<in> set s" and f: "f = rev ?w" and m: "m = take (length s - length f - 1) s"
    using assms by (auto simp: rsplit_name_def Let_def split: if_splits)
  have "?d \<noteq> []" using dot by (auto simp: dropWhile_eq_Nil_conv)
  moreover from this have "hd ?d = CHR ''.''" using hd_dropWhile by blast
  ultimately obtain rest where d: "?d = CHR ''.'' # rest" by (cases ?d) auto
  have "rev s = ?w @ CHR ''.'' # rest" using takeWhile_dropWhile_id [of "\<lambda>c. c \<noteq> CHR ''.''" "rev s"] d by simp
  then have "rev (rev s) = rev (?w @ CHR ''.'' # rest)" by simp
  then have s: "s = rev rest @ CHR ''.'' # f" by (simp add: f)
  then show "s = m @ CHR ''.'' # f" by (simp add: m)
  show "CHR ''.'' \<notin> set f" by (auto simp: f dest: set_takeWhileD)
qed

lemma py_join_set: "set (py_join sep ws) \<subseteq> set sep \<union> \<Union> (set ` set ws)"
  by (induction sep ws rule: py_join.induct) auto

lemma modified_module: "modify_module_name m = m \<longleftrightarrow> CHR ''/'' \<notin> set m"
proof
  assume "CHR ''/'' \<notin> set m"
  then show "modify_module_name m = m" by (simp add: modify_module_name_def py_split_no_sep)
next
  assume "modify_module_name m = m"
  moreover have "CHR ''/'' \<notin> set (modify_module_name m)"
    using py_join_set [of "''.''" "py_split CHR ''/'' m"] py_split_parts [of _ "CHR ''/''" m]
    by (auto simp: modify_module_name_def)
  ultimately show "CHR ''/'' \<notin> set m" by simp
qed

lemma loaded_wrapper:
  assumes "map_of e ''ORIG_HANDLER'' = Some h" "load_wrapper e = Inr (i, m, f)"
  obtains n where "i = Some \<lparr>wrapped_module_name = n, wrapped_function_name = f, flush_limit =
        (case map_of e ''OTEL_INSTRUMENTATION_AWS_LAMBDA_FLUSH_TIMEOUT'' of
           None \<Rightarrow> 30000 | Some s \<Rightarrow> (case py_int s of Some n \<Rightarrow> n | None \<Rightarrow> 30000))\<rparr>"
    "rsplit_name h = Inr (n, f)" "m = modify_module_name n"
  using assms
  by (cases "h = []"; cases "rsplit_name h")
     (auto simp: load_wrapper_def instrument_lambda_def getenv_value_def bindr_eq_Inr rsplit_name_def [of "[]"])

text \<open>The function that is instrumented is the one Lambda runs, unless its module is written with slashes.
  When the wrapper loads, the instrumented and the imported handler have the same function name, the two
  names together are the configured path, and the module that is instrumented is the module that is
  imported exactly when the path has no slash; a path without a dot never loads.\<close>

theorem wrapped_handler_is_imported:
  assumes "map_of e ''ORIG_HANDLER'' = Some h"
  shows "(\<forall>i m f. load_wrapper e = Inr (i, m, f) \<longrightarrow>
      (\<exists>w. i = Some w \<and> wrapped_function_name w = f
        \<and> h = wrapped_module_name w @ ''.'' @ f \<and> CHR ''.'' \<notin> set f
        \<and> m = modify_module_name (wrapped_module_name w)
        \<and> (wrapped_module_name w = m \<longleftrightarrow> CHR ''/'' \<notin> set (wrapped_module_name w))))
    \<and> (CHR ''.'' \<notin> set h \<longrightarrow> (\<exists>error. load_wrapper e = Inl error))"
proof -
  have "(\<exists>w. i = Some w \<and> wrapped_function_name w = f
        \<and> h = wrapped_module_name w @ ''.'' @ f \<and> CHR ''.'' \<notin> set f
        \<and> m = modify_module_name (wrapped_module_name w)
        \<and> (wrapped_module_name w = m \<longleftrightarrow> CHR ''/'' \<notin> set (wrapped_module_name w)))"
    if run: "load_wrapper e = Inr (i, m, f)" for i m f
  proof -
    obtain n where n: "i = Some \<lparr>wrapped_module_name = n, wrapped_function_name = f, flush_limit =
        (case map_of e ''OTEL_INSTRUMENTATION_AWS_LAMBDA_FLUSH_TIMEOUT'' of
           None \<Rightarrow> 30000 | Some s \<Rightarrow> (case py_int s of Some n \<Rightarrow> n | None \<Rightarrow> 30000))\<rparr>"
      "rsplit_name h = Inr (n, f)" "m = modify_module_name n"
      using loaded_wrapper [OF assms run] by blast
    have "h = n @ ''.'' @ f" "CHR ''.'' \<notin> set f" using rsplit_name_Inr [OF n(2)] by simp_all
    moreover have "n = m \<longleftrightarrow> CHR ''/'' \<notin> set n" using modified_module [of n] n(3) by auto
    ultimately show ?thesis using n by simp
  qed
  moreover have "CHR ''.'' \<notin> set h \<Longrightarrow> \<exists>error. load_wrapper e = Inl error"
    using assms by (cases "h = []") (simp_all add: load_wrapper_def instrument_lambda_def getenv_value_def rsplit_name_def)
  ultimately show ?thesis by blast
qed

theorem wrapped_handler_is_imported_witness:
  "\<exists>w. load_wrapper [(''ORIG_HANDLER'', ''src/app.handler'')] = Inr (Some w, ''src.app'', ''handler'')
     \<and> wrapped_module_name w = ''src/app''"
proof -
  have load: "load_wrapper [(''ORIG_HANDLER'', ''src/app.handler'')] =
      Inr (Some \<lparr>wrapped_module_name = ''src/app'', wrapped_function_name = ''handler'', flush_limit = 30000\<rparr>,
           ''src.app'', ''handler'')"
    by code_simp
  show ?thesis
    using wrapped_handler_is_imported [of "[(''ORIG_HANDLER'', ''src/app.handler'')]" "''src/app.handler''"]
    by (simp add: load)
qed

end
