(* ===== verification/BotocorePatches.thy ===== *)
theory BotocorePatches
  imports PyValues
begin

text \<open>
  The patches of the botocore instrumentation (\<open>_botocore_patches.py\<close>, \<open>_bedrock_patches.py\<close>,
  \<open>_bedrock_agentcore_patches.py\<close>): the wrapped API call, the attributes taken from the parameters and
  the result of a call, and the reassembly of streamed messages.

  The upstream methods that are called first (\<open>old_extract_attributes\<close>, \<open>old_on_success\<close>,
  \<open>old_process_event\<close>, \<open>_process_invocation_metrics\<close>) and \<open>json.loads\<close> are parameters. A value that raises
  leaves the state as it was changed up to then.
\<close>

type_synonym fields = "(string \<times> json) list"

section \<open>Streams\<close>

record stream =
  record_message :: bool
  stream_message :: json
  content_block :: json
  tool_json_input_buf :: string
  response :: fields
  finished :: "fields list"

definition try_step :: "'v res \<Rightarrow> stream \<Rightarrow> ('v \<Rightarrow> exn option \<times> stream) \<Rightarrow> exn option \<times> stream" where
  "try_step r st k = (case r of Inl e \<Rightarrow> (Some e, st) | Inr v \<Rightarrow> k v)"

lemma try_step_simps [simp]:
  "try_step (Inl e) st k = (Some e, st)"
  "try_step (Inr v) st k = k v"
  by (simp_all add: try_step_def)

text \<open>The collected tool input: the value of the JSON text, or the text when it is none.\<close>

definition tool_input :: "(string \<Rightarrow> json option) \<Rightarrow> string \<Rightarrow> json" where
  "tool_input loads buf = (case loads buf of Some v \<Rightarrow> v | None \<Rightarrow> JStr buf)"

definition append_block :: "stream \<Rightarrow> exn option \<times> stream" where
  "append_block st =
     try_step (bindr (get_item (stream_message st) ''content'') (\<lambda>c.
               bindr (append_item c (content_block st)) (set_item (stream_message st) ''content''))) st
       (\<lambda>m. (None, st\<lparr>stream_message := m, content_block := JObj [], tool_json_input_buf := []\<rparr>))"

text \<open>\<open>patched_process_event\<close>, for the events of \<open>converse_stream\<close>.\<close>

definition converse_delta :: "json \<Rightarrow> stream \<Rightarrow> exn option \<times> stream" where
  "converse_delta delta st =
     try_step (contains ''text'' delta) st (\<lambda>has_text.
       if has_text
       then try_step (get_default (content_block st) ''text'' (JStr [])) st (\<lambda>old.
            let st1 = (case set_item (content_block st) ''text'' old of
                         Inr b \<Rightarrow> st\<lparr>content_block := b\<rparr> | Inl e \<Rightarrow> st)
            in try_step (bindr (get_item delta ''text'') (add_values old)) st1 (\<lambda>text.
               try_step (set_item (content_block st1) ''text'' text) st1 (\<lambda>b.
                 (None, st1\<lparr>content_block := b\<rparr>))))
       else try_step (contains ''toolUse'' delta) st (\<lambda>has_tool.
            if has_tool
            then try_step (bindr (get_item delta ''toolUse'') (\<lambda>t. get_method t ''input'')) st (\<lambda>input_buf.
                 if input_buf = JNull then (None, st)
                 else (case input_buf of
                         JStr s \<Rightarrow> (None, st\<lparr>tool_json_input_buf := tool_json_input_buf st @ s\<rparr>)
                       | _ \<Rightarrow> (Some TypeError, st)))
            else (None, st)))"

definition converse_stop :: "(string \<Rightarrow> json option) \<Rightarrow> stream \<Rightarrow> exn option \<times> stream" where
  "converse_stop loads st =
     (if \<not> record_message st then (None, st)
      else if tool_json_input_buf st = [] then append_block st
      else try_step (bindr (get_item (content_block st) ''toolUse'') (\<lambda>t.
                     bindr (set_item t ''input'' (tool_input loads (tool_json_input_buf st)))
                       (set_item (content_block st) ''toolUse''))) st
             (\<lambda>b. append_block (st\<lparr>content_block := b\<rparr>)))"

definition process_event ::
    "(string \<Rightarrow> json option) \<Rightarrow> (fields \<Rightarrow> stream \<Rightarrow> exn option \<times> stream) \<Rightarrow> fields \<Rightarrow> stream
      \<Rightarrow> exn option \<times> stream" where
  "process_event loads old_process_event event st =
     (case map_of event ''contentBlockStart'' of
        Some block_start \<Rightarrow>
          try_step (get_default block_start ''start'' (JObj [])) st (\<lambda>start.
          try_step (contains ''toolUse'' start) st (\<lambda>has_tool.
            if has_tool
            then try_step (get_item start ''toolUse'') st (\<lambda>tool.
                   (None, st\<lparr>content_block := JObj [(''toolUse'', tool)]\<rparr>))
            else (None, st)))
      | None \<Rightarrow>
        (case map_of event ''contentBlockDelta'' of
           Some block_delta \<Rightarrow>
             if record_message st
             then try_step (get_default block_delta ''delta'' (JObj [])) st (\<lambda>delta. converse_delta delta st)
             else (None, st)
         | None \<Rightarrow>
           (if ''contentBlockStop'' \<in> fst ` set event then converse_stop loads st
            else old_process_event event st)))"

text \<open>\<open>patched_process_anthropic_claude_chunk\<close>, for the chunks of \<open>invoke_model_with_response_stream\<close>.\<close>

definition claude_message_start :: "fields \<Rightarrow> stream \<Rightarrow> exn option \<times> stream" where
  "claude_message_start chunk st =
     try_step (bindr (get_default (JObj chunk) ''message'' (JObj [])) (\<lambda>m. get_method m ''role'')) st (\<lambda>role.
       if role \<noteq> JStr ''assistant'' then (None, st)
       else let st1 = st\<lparr>record_message := True\<rparr>
            in try_step (bindr (get_item (JObj chunk) ''message'') (\<lambda>m.
                         bindr (get_item m ''role'') (\<lambda>r.
                         bindr (get_default m ''content'' (JList [])) (\<lambda>c.
                           Inr (JObj [(''role'', r), (''content'', c)]))))) st1
                 (\<lambda>m. (None, st1\<lparr>stream_message := m\<rparr>)))"

definition claude_block_start :: "fields \<Rightarrow> stream \<Rightarrow> exn option \<times> stream" where
  "claude_block_start chunk st =
     (if \<not> record_message st then (None, st)
      else try_step (get_default (JObj chunk) ''content_block'' (JObj [])) st (\<lambda>block.
           try_step (get_method block ''type'') st (\<lambda>t.
             if t = JStr ''text'' \<or> t = JStr ''tool_use'' then (None, st\<lparr>content_block := block\<rparr>)
             else (None, st))))"

definition claude_block_delta :: "fields \<Rightarrow> stream \<Rightarrow> exn option \<times> stream" where
  "claude_block_delta chunk st =
     (if \<not> record_message st then (None, st)
      else try_step (get_default (JObj chunk) ''delta'' (JObj [])) st (\<lambda>delta.
           try_step (get_method delta ''type'') st (\<lambda>t.
             if t = JStr ''text_delta''
             then try_step (bindr (get_item (content_block st) ''text'') (\<lambda>old.
                            bindr (get_default delta ''text'' (JStr [])) (\<lambda>text.
                            bindr (add_values old text) (set_item (content_block st) ''text'')))) st
                    (\<lambda>b. (None, st\<lparr>content_block := b\<rparr>))
             else if t = JStr ''input_json_delta''
             then try_step (get_default delta ''partial_json'' (JStr [])) st (\<lambda>part.
                    case part of
                      JStr s \<Rightarrow> (None, st\<lparr>tool_json_input_buf := tool_json_input_buf st @ s\<rparr>)
                    | _ \<Rightarrow> (Some TypeError, st))
             else (None, st))))"

definition claude_block_stop :: "(string \<Rightarrow> json option) \<Rightarrow> stream \<Rightarrow> exn option \<times> stream" where
  "claude_block_stop loads st =
     (if tool_json_input_buf st = [] then append_block st
      else try_step (set_item (content_block st) ''input'' (tool_input loads (tool_json_input_buf st))) st
             (\<lambda>b. append_block (st\<lparr>content_block := b\<rparr>)))"

definition claude_message_stop ::
    "(json \<Rightarrow> fields \<Rightarrow> fields res) \<Rightarrow> fields \<Rightarrow> stream \<Rightarrow> exn option \<times> stream" where
  "claude_message_stop process_invocation_metrics chunk st =
     (let invocation_metrics = dict_get chunk ''amazon-bedrock-invocationMetrics''
      in try_step (if json_true invocation_metrics then process_invocation_metrics invocation_metrics (response st)
                   else Inr (response st)) st (\<lambda>r.
           let st1 = st\<lparr>response := r\<rparr>;
               st2 = (if record_message st1
                      then st1\<lparr>response := AList.update ''output'' (JObj [(''message'', stream_message st1)]) r,
                               record_message := False, stream_message := JNull\<rparr>
                      else st1)
           in (None, st2\<lparr>finished := finished st2 @ [response st2]\<rparr>)))"

definition process_claude_chunk ::
    "(string \<Rightarrow> json option) \<Rightarrow> (json \<Rightarrow> fields \<Rightarrow> fields res) \<Rightarrow> fields \<Rightarrow> stream
      \<Rightarrow> exn option \<times> stream" where
  "process_claude_chunk loads process_invocation_metrics chunk st =
     (let t = dict_get chunk ''type''
      in if t = JStr ''message_start'' then claude_message_start chunk st
         else if t = JStr ''content_block_start'' then claude_block_start chunk st
         else if t = JStr ''content_block_delta'' then claude_block_delta chunk st
         else if t = JStr ''content_block_stop'' then claude_block_stop loads st
         else if t = JStr ''message_delta'' then
           try_step (bindr (get_default (JObj chunk) ''delta'' (JObj [])) (\<lambda>d. get_method d ''stop_reason'')) st
             (\<lambda>stop_reason. (None, if stop_reason = JNull then st
                else st\<lparr>response := AList.update ''stopReason'' stop_reason (response st)\<rparr>))
         else if t = JStr ''message_stop'' then claude_message_stop process_invocation_metrics chunk st
         else (None, st))"

text \<open>A stream of events.\<close>

fun run_stream :: "('e \<Rightarrow> 's \<Rightarrow> exn option \<times> 's) \<Rightarrow> 'e list \<Rightarrow> 's \<Rightarrow> exn option \<times> 's" where
  "run_stream f [] s = (None, s)"
| "run_stream f (e # es) s =
     (case f e s of (None, s') \<Rightarrow> run_stream f es s' | (Some x, s') \<Rightarrow> (Some x, s'))"

lemma run_stream_append:
  "run_stream f xs s = (None, s') \<Longrightarrow> run_stream f (xs @ ys) s = run_stream f ys s'"
  by (induction xs arbitrary: s) (auto split: prod.splits option.splits)

section \<open>Reassembly\<close>

text \<open>
  A protocol of blocks: each block is a sequence of events that appends one value to the content. Both
  event formats are such protocols.
\<close>

locale block_stream =
  fixes process :: "'e \<Rightarrow> 's \<Rightarrow> exn option \<times> 's" and ready :: "json list \<Rightarrow> 's \<Rightarrow> bool"
    and events :: "'b \<Rightarrow> 'e list" and content_of :: "'b \<Rightarrow> json" and valid :: "'b \<Rightarrow> bool"
  assumes block: "valid b \<Longrightarrow> ready cs s \<Longrightarrow>
    \<exists>s'. run_stream process (events b) s = (None, s') \<and> ready (cs @ [content_of b]) s'"
begin

lemma blocks:
  assumes "\<forall>b \<in> set bs. valid b" "ready cs s"
  shows "\<exists>s'. run_stream process (concat (map events bs)) s = (None, s') \<and> ready (cs @ map content_of bs) s'"
  using assms
proof (induction bs arbitrary: cs s)
  case Nil
  then show ?case by simp
next
  case (Cons b bs)
  then obtain s1 where "run_stream process (events b) s = (None, s1)" "ready (cs @ [content_of b]) s1"
    using block by (metis list.set_intros(1))
  moreover from this(2) obtain s' where "run_stream process (concat (map events bs)) s1 = (None, s')"
    "ready ((cs @ [content_of b]) @ map content_of bs) s'"
    using Cons.IH Cons.prems(1) by (metis list.set_intros(2))
  ultimately show ?case by (auto simp: run_stream_append)
qed

end

text \<open>
  The blocks of a Claude message: the dictionary of the start event with the pieces of text, or the
  dictionary of a tool use with the pieces of its input.
\<close>

datatype claude_block = ClaudeText fields string "string list" | ClaudeTool fields "string list"

definition typed_chunk :: "string \<Rightarrow> fields \<Rightarrow> fields" where
  "typed_chunk t rest = (''type'', JStr t) # rest"

fun claude_chunks :: "claude_block \<Rightarrow> fields list" where
  "claude_chunks (ClaudeText d first_text texts) =
     typed_chunk ''content_block_start'' [(''content_block'', JObj d)]
     # map (\<lambda>t. typed_chunk ''content_block_delta''
             [(''delta'', JObj [(''type'', JStr ''text_delta''), (''text'', JStr t)])]) texts
     @ [typed_chunk ''content_block_stop'' []]"
| "claude_chunks (ClaudeTool d pieces) =
     typed_chunk ''content_block_start'' [(''content_block'', JObj d)]
     # map (\<lambda>p. typed_chunk ''content_block_delta''
             [(''delta'', JObj [(''type'', JStr ''input_json_delta''), (''partial_json'', JStr p)])]) pieces
     @ [typed_chunk ''content_block_stop'' []]"

fun claude_content :: "(string \<Rightarrow> json option) \<Rightarrow> claude_block \<Rightarrow> json" where
  "claude_content loads (ClaudeText d first_text texts) =
     JObj (AList.update ''text'' (JStr (first_text @ concat texts)) d)"
| "claude_content loads (ClaudeTool d pieces) =
     (if concat pieces = [] then JObj d
      else JObj (AList.update ''input'' (tool_input loads (concat pieces)) d))"

fun claude_valid :: "claude_block \<Rightarrow> bool" where
  "claude_valid (ClaudeText d first_text texts) \<longleftrightarrow>
     map_of d ''type'' = Some (JStr ''text'') \<and> map_of d ''text'' = Some (JStr first_text)"
| "claude_valid (ClaudeTool d pieces) \<longleftrightarrow> map_of d ''type'' = Some (JStr ''tool_use'')"

definition recording :: "json \<Rightarrow> fields \<Rightarrow> fields list \<Rightarrow> json list \<Rightarrow> stream \<Rightarrow> bool" where
  "recording role r outs cs st \<longleftrightarrow>
     st = \<lparr>record_message = True, stream_message = JObj [(''role'', role), (''content'', JList cs)],
           content_block = JObj [], tool_json_input_buf = [], response = r, finished = outs\<rparr>"

lemma update_same: "map_of d k = Some v \<Longrightarrow> AList.update k v d = d"
  by (induction d) auto

lemma append_block_recording:
  "append_block \<lparr>record_message = True, stream_message = JObj [(''role'', role), (''content'', JList cs)],
     content_block = b, tool_json_input_buf = buf, response = r, finished = outs\<rparr>
   = (None, \<lparr>record_message = True, stream_message = JObj [(''role'', role), (''content'', JList (cs @ [b]))],
     content_block = JObj [], tool_json_input_buf = [], response = r, finished = outs\<rparr>)"
  by (simp add: append_block_def get_item_def append_item_def set_item_def)

lemma claude_text_deltas:
  assumes "map_of d ''text'' = Some (JStr t0)" "record_message st" "content_block st = JObj d"
  shows "run_stream (process_claude_chunk loads metrics)
      (map (\<lambda>t. typed_chunk ''content_block_delta''
             [(''delta'', JObj [(''type'', JStr ''text_delta''), (''text'', JStr t)])]) texts) st
    = (None, st\<lparr>content_block := JObj (AList.update ''text'' (JStr (t0 @ concat texts)) d)\<rparr>)"
  using assms
proof (induction texts arbitrary: d t0 st)
  case Nil
  then show ?case by (simp add: update_same)
next
  case (Cons t texts)
  let ?d = "AList.update ''text'' (JStr (t0 @ t)) d"
  have "process_claude_chunk loads metrics (typed_chunk ''content_block_delta''
      [(''delta'', JObj [(''type'', JStr ''text_delta''), (''text'', JStr t)])]) st
    = (None, st\<lparr>content_block := JObj ?d\<rparr>)"
    using Cons.prems
    by (simp add: process_claude_chunk_def typed_chunk_def dict_get_def claude_block_delta_def get_default_def
        get_method_def get_item_def add_values_def set_item_def)
  with Cons.IH [of ?d "t0 @ t" "st\<lparr>content_block := JObj ?d\<rparr>"] Cons.prems show ?case
    by (simp add: update_last)
qed

lemma claude_tool_deltas:
  assumes "record_message st"
  shows "run_stream (process_claude_chunk loads metrics)
      (map (\<lambda>p. typed_chunk ''content_block_delta''
             [(''delta'', JObj [(''type'', JStr ''input_json_delta''), (''partial_json'', JStr p)])]) pieces) st
    = (None, st\<lparr>tool_json_input_buf := tool_json_input_buf st @ concat pieces\<rparr>)"
  using assms
proof (induction pieces arbitrary: st)
  case (Cons p pieces)
  have "process_claude_chunk loads metrics (typed_chunk ''content_block_delta''
      [(''delta'', JObj [(''type'', JStr ''input_json_delta''), (''partial_json'', JStr p)])]) st
    = (None, st\<lparr>tool_json_input_buf := tool_json_input_buf st @ p\<rparr>)"
    using Cons.prems
    by (simp add: process_claude_chunk_def typed_chunk_def dict_get_def claude_block_delta_def get_default_def
        get_method_def)
  with Cons.IH Cons.prems show ?case by simp
qed simp

lemma claude_start:
  assumes "recording role r outs cs st" "map_of d ''type'' = Some (JStr t)" "t = ''text'' \<or> t = ''tool_use''"
  shows "process_claude_chunk loads metrics (typed_chunk ''content_block_start'' [(''content_block'', JObj d)]) st
    = (None, st\<lparr>content_block := JObj d\<rparr>)"
  using assms
  by (auto simp: process_claude_chunk_def typed_chunk_def dict_get_def claude_block_start_def get_default_def
      get_method_def recording_def)

lemma claude_stop:
  "process_claude_chunk loads metrics (typed_chunk ''content_block_stop'' []) st = claude_block_stop loads st"
  by (simp add: process_claude_chunk_def typed_chunk_def dict_get_def)

interpretation claude: block_stream "process_claude_chunk loads metrics" "recording role r outs" claude_chunks
    "claude_content loads" claude_valid
  for loads metrics role r outs
proof unfold_locales
  fix b cs st
  assume valid: "claude_valid b" and ready: "recording role r outs cs st"
  show "\<exists>s'. run_stream (process_claude_chunk loads metrics) (claude_chunks b) st = (None, s')
      \<and> recording role r outs (cs @ [claude_content loads b]) s'"
  proof (cases b)
    case (ClaudeText d t0 texts)
    with valid have d: "map_of d ''type'' = Some (JStr ''text'')" "map_of d ''text'' = Some (JStr t0)" by simp_all
    have "record_message (st\<lparr>content_block := JObj d\<rparr>)" using ready by (simp add: recording_def)
    note deltas = claude_text_deltas [OF d(2) this, of loads metrics texts]
    show ?thesis
      using ready
      by (simp add: ClaudeText claude_start [OF ready d(1)] run_stream_append [OF deltas] claude_stop)
         (simp add: recording_def claude_block_stop_def append_block_recording)
  next
    case (ClaudeTool d pieces)
    with valid have d: "map_of d ''type'' = Some (JStr ''tool_use'')" by simp
    have "record_message (st\<lparr>content_block := JObj d\<rparr>)" using ready by (simp add: recording_def)
    note deltas = claude_tool_deltas [OF this, of loads metrics pieces]
    show ?thesis
      using ready
      by (simp add: ClaudeTool claude_start [OF ready d] run_stream_append [OF deltas] claude_stop)
         (simp add: recording_def claude_block_stop_def append_block_recording set_item_def)
  qed
qed

text \<open>The blocks of a Converse message: pieces of text, or a tool use with the pieces of its input.\<close>

datatype converse_block = ConverseText "string list" | ConverseTool fields "string list"

definition stop_event :: fields where "stop_event = [(''contentBlockStop'', JObj [])]"

fun converse_events :: "converse_block \<Rightarrow> fields list" where
  "converse_events (ConverseText texts) =
     map (\<lambda>t. [(''contentBlockDelta'', JObj [(''delta'', JObj [(''text'', JStr t)])])]) texts @ [stop_event]"
| "converse_events (ConverseTool d pieces) =
     [(''contentBlockStart'', JObj [(''start'', JObj [(''toolUse'', JObj d)])])]
     # map (\<lambda>p. [(''contentBlockDelta'', JObj [(''delta'', JObj [(''toolUse'', JObj [(''input'', JStr p)])])])]) pieces
     @ [stop_event]"

fun converse_content :: "(string \<Rightarrow> json option) \<Rightarrow> converse_block \<Rightarrow> json" where
  "converse_content loads (ConverseText texts) =
     JObj (if texts = [] then [] else [(''text'', JStr (concat texts))])"
| "converse_content loads (ConverseTool d pieces) =
     JObj [(''toolUse'', JObj (if concat pieces = [] then d
        else AList.update ''input'' (tool_input loads (concat pieces)) d))]"

lemma converse_text_deltas:
  assumes "record_message st" "content_block st = JObj (case before of None \<Rightarrow> [] | Some t \<Rightarrow> [(''text'', JStr t)])"
  shows "run_stream (process_event loads old)
      (map (\<lambda>t. [(''contentBlockDelta'', JObj [(''delta'', JObj [(''text'', JStr t)])])]) texts) st
    = (None, st\<lparr>content_block := JObj (if before = None \<and> texts = [] then []
         else [(''text'', JStr ((case before of None \<Rightarrow> [] | Some t \<Rightarrow> t) @ concat texts))])\<rparr>)"
  using assms
proof (induction texts arbitrary: before st)
  case Nil
  then show ?case by (cases before) simp_all
next
  case (Cons t texts)
  let ?t = "(case before of None \<Rightarrow> [] | Some t \<Rightarrow> t) @ t"
  have "process_event loads old [(''contentBlockDelta'', JObj [(''delta'', JObj [(''text'', JStr t)])])] st
    = (None, st\<lparr>content_block := JObj [(''text'', JStr ?t)]\<rparr>)"
    using Cons.prems
    by (cases before) (simp_all add: process_event_def converse_delta_def get_default_def get_item_def set_item_def
        add_values_def)
  with Cons.IH [of "st\<lparr>content_block := JObj [(''text'', JStr ?t)]\<rparr>" "Some ?t"] Cons.prems(1)
  show ?case by simp
qed

lemma converse_tool_deltas:
  assumes "record_message st"
  shows "run_stream (process_event loads old)
      (map (\<lambda>p. [(''contentBlockDelta'', JObj [(''delta'', JObj [(''toolUse'', JObj [(''input'', JStr p)])])])]) pieces) st
    = (None, st\<lparr>tool_json_input_buf := tool_json_input_buf st @ concat pieces\<rparr>)"
  using assms
proof (induction pieces arbitrary: st)
  case (Cons p pieces)
  have "process_event loads old
      [(''contentBlockDelta'', JObj [(''delta'', JObj [(''toolUse'', JObj [(''input'', JStr p)])])])] st
    = (None, st\<lparr>tool_json_input_buf := tool_json_input_buf st @ p\<rparr>)"
    using Cons.prems
    by (simp add: process_event_def converse_delta_def get_default_def get_item_def get_method_def dict_get_def)
  with Cons.IH Cons.prems show ?case by simp
qed simp

lemma converse_stop_event: "process_event loads old stop_event st = converse_stop loads st"
  by (simp add: process_event_def stop_event_def)

interpretation converse: block_stream "process_event loads old" "recording role r outs" converse_events
    "converse_content loads" "\<lambda>_. True"
  for loads old role r outs
proof unfold_locales
  fix b cs st
  assume ready: "recording role r outs cs st"
  show "\<exists>s'. run_stream (process_event loads old) (converse_events b) st = (None, s')
      \<and> recording role r outs (cs @ [converse_content loads b]) s'"
  proof (cases b)
    case (ConverseText texts)
    have start: "record_message st" "content_block st = JObj (case None of None \<Rightarrow> [] | Some t \<Rightarrow> [(''text'', JStr t)])"
      using ready by (simp_all add: recording_def)
    note deltas = converse_text_deltas [OF start, of loads old texts]
    show ?thesis
      using ready
      by (simp add: ConverseText run_stream_append [OF deltas] converse_stop_event)
         (simp add: recording_def converse_stop_def append_block_recording)
  next
    case (ConverseTool d pieces)
    let ?st = "st\<lparr>content_block := JObj [(''toolUse'', JObj d)]\<rparr>"
    have start: "process_event loads old [(''contentBlockStart'', JObj [(''start'', JObj [(''toolUse'', JObj d)])])] st
        = (None, ?st)"
      by (simp add: process_event_def get_default_def get_item_def)
    have "record_message ?st" using ready by (simp add: recording_def)
    note deltas = converse_tool_deltas [OF this, of loads old pieces]
    show ?thesis
      using ready
      by (simp add: ConverseTool start run_stream_append [OF deltas] converse_stop_event)
         (simp add: recording_def converse_stop_def append_block_recording get_item_def set_item_def)
  qed
qed

text \<open>The chunks of a whole Claude answer.\<close>

definition claude_answer :: "json list \<Rightarrow> claude_block list \<Rightarrow> json \<Rightarrow> fields list" where
  "claude_answer cs bs why =
     typed_chunk ''message_start''
       [(''message'', JObj [(''role'', JStr ''assistant''), (''content'', JList cs)])]
     # concat (map claude_chunks bs)
     @ [typed_chunk ''message_delta'' [(''delta'', JObj [(''stop_reason'', why)])],
        typed_chunk ''message_stop'' []]"

definition fresh_stream :: "fields \<Rightarrow> stream" where
  "fresh_stream r = \<lparr>record_message = False, stream_message = JNull, content_block = JObj [],
     tool_json_input_buf = [], response = r, finished = []\<rparr>"

lemma claude_message_started:
  "process_claude_chunk loads metrics (typed_chunk ''message_start''
      [(''message'', JObj [(''role'', JStr ''assistant''), (''content'', JList cs)])]) (fresh_stream r)
   = (None, \<lparr>record_message = True, stream_message = JObj [(''role'', JStr ''assistant''), (''content'', JList cs)],
       content_block = JObj [], tool_json_input_buf = [], response = r, finished = []\<rparr>)"
  by (simp add: process_claude_chunk_def typed_chunk_def dict_get_def claude_message_start_def get_default_def
      get_method_def get_item_def fresh_stream_def)

lemma claude_message_ended:
  assumes "recording (JStr ''assistant'') r [] cs st" "why \<noteq> JNull"
  shows "\<exists>st'. run_stream (process_claude_chunk loads metrics)
      [typed_chunk ''message_delta'' [(''delta'', JObj [(''stop_reason'', why)])], typed_chunk ''message_stop'' []] st
    = (None, st') \<and> finished st' =
        [AList.update ''output'' (JObj [(''message'', JObj [(''role'', JStr ''assistant''), (''content'', JList cs)])])
          (AList.update ''stopReason'' why r)] \<and> \<not> record_message st'"
  using assms
  by (simp add: process_claude_chunk_def typed_chunk_def dict_get_def get_default_def get_method_def recording_def
      claude_message_stop_def json_true_def)

text \<open>C9: Streamed answers of a model are put together again. A Claude stream that starts an assistant message,
  sends any number of text and tool blocks in pieces and ends the message calls the callback once, with the
  blocks in order, each text the concatenation of its pieces and each tool input the parsed concatenation of
  its pieces (the text itself when it is no JSON), and with the stop reason; all other entries of the
  response are kept. The same holds of the blocks of a Converse stream that is being recorded.\<close>

theorem streams_reassembled:
  assumes "\<forall>b \<in> set bs. claude_valid b" "why \<noteq> JNull"
  shows "(\<exists>st'. run_stream (process_claude_chunk loads metrics) (claude_answer cs bs why) (fresh_stream r) = (None, st')
      \<and> finished st' = [AList.update ''output'' (JObj [(''message'', JObj
             [(''role'', JStr ''assistant''), (''content'', JList (cs @ map (claude_content loads) bs))])])
           (AList.update ''stopReason'' why r)] \<and> \<not> record_message st')
    \<and> (recording role r outs cs st \<longrightarrow>
        (\<exists>st'. run_stream (process_event loads old) (concat (map converse_events ces)) st = (None, st')
          \<and> recording role r outs (cs @ map (converse_content loads) ces) st'))"
proof
  obtain st1 where st1: "run_stream (process_claude_chunk loads metrics) (concat (map claude_chunks bs))
        \<lparr>record_message = True, stream_message = JObj [(''role'', JStr ''assistant''), (''content'', JList cs)],
         content_block = JObj [], tool_json_input_buf = [], response = r, finished = []\<rparr> = (None, st1)"
    "recording (JStr ''assistant'') r [] (cs @ map (claude_content loads) bs) st1"
    using claude.blocks [OF assms(1), where role = "JStr ''assistant''" and r = r and outs = "[]" and cs = cs]
    by (metis recording_def)
  show "\<exists>st'. run_stream (process_claude_chunk loads metrics) (claude_answer cs bs why) (fresh_stream r) = (None, st')
      \<and> finished st' = [AList.update ''output'' (JObj [(''message'', JObj
             [(''role'', JStr ''assistant''), (''content'', JList (cs @ map (claude_content loads) bs))])])
           (AList.update ''stopReason'' why r)] \<and> \<not> record_message st'"
    using claude_message_ended [OF st1(2) assms(2), of loads metrics]
    by (simp add: claude_answer_def claude_message_started run_stream_append [OF st1(1)] del: run_stream.simps(2))
       (simp add: claude_message_started run_stream_append [OF st1(1)])
next
  show "recording role r outs cs st \<longrightarrow>
        (\<exists>st'. run_stream (process_event loads old) (concat (map converse_events ces)) st = (None, st')
          \<and> recording role r outs (cs @ map (converse_content loads) ces) st')"
    using converse.blocks by blast
qed

theorem streams_reassembled_witness:
  "\<exists>st'. run_stream (process_claude_chunk (\<lambda>s. None) (\<lambda>m r. Inr r))
      (claude_answer [] [ClaudeText [(''type'', JStr ''text''), (''text'', JStr [])] [] [''Hel'', ''lo''],
         ClaudeTool [(''type'', JStr ''tool_use''), (''name'', JStr ''f'')] [''{'', ''}'']] (JStr ''end_turn''))
      (fresh_stream []) = (None, st')
    \<and> finished st' = [[(''stopReason'', JStr ''end_turn''),
        (''output'', JObj [(''message'', JObj [(''role'', JStr ''assistant''), (''content'', JList
           [JObj [(''type'', JStr ''text''), (''text'', JStr ''Hello'')],
            JObj [(''type'', JStr ''tool_use''), (''name'', JStr ''f''), (''input'', JStr ''{}'')]])])])]]"
proof -
  let ?bs = "[ClaudeText [(''type'', JStr ''text''), (''text'', JStr [])] [] [''Hel'', ''lo''],
     ClaudeTool [(''type'', JStr ''tool_use''), (''name'', JStr ''f'')] [''{'', ''}'']]"
  have "\<forall>b \<in> set ?bs. claude_valid b" by simp
  from streams_reassembled [THEN conjunct1, OF this, of "JStr ''end_turn''" "\<lambda>s. None" "\<lambda>m r. Inr r" "[]" "[]"]
  show ?thesis by (simp add: tool_input_def) blast
qed

section \<open>Tool calls of a message\<close>

definition has_tool_use :: "json \<Rightarrow> bool res" where
  "has_tool_use item = contains ''toolUse'' item"

fun collect_tool_uses :: "json list \<Rightarrow> json list res" where
  "collect_tool_uses [] = Inr []"
| "collect_tool_uses (item # items) =
     bindr (has_tool_use item) (\<lambda>b.
     bindr (if b then bindr (get_item item ''toolUse'') (\<lambda>t. Inr [t]) else Inr []) (\<lambda>ts.
     bindr (collect_tool_uses items) (\<lambda>rest. Inr (ts @ rest))))"

definition is_claude_tool_use :: "json \<Rightarrow> bool" where
  "is_claude_tool_use item = (case item of JObj d \<Rightarrow> dict_get d ''type'' = JStr ''tool_use'' | _ \<Rightarrow> False)"

definition tool_call :: "bool \<Rightarrow> string \<Rightarrow> json \<Rightarrow> json res" where
  "tool_call capture_content tool_id_key tool_use =
     bindr (get_method tool_use tool_id_key) (\<lambda>call_id.
     bindr (get_method tool_use ''name'') (\<lambda>function_name.
     bindr (get_method tool_use ''input'') (\<lambda>function_input.
       let name = (if json_true function_name then [(''name'', function_name)] else []);
           arguments = (if json_true function_input \<and> capture_content then [(''arguments'', function_input)] else [])
       in Inr (JObj ([(''type'', JStr ''function'')]
            @ (if json_true call_id then [(''id'', call_id)] else [])
            @ (if name @ arguments = [] then [] else [(''function'', JObj (name @ arguments))]))))))"

definition extract_tool_calls :: "fields \<Rightarrow> bool \<Rightarrow> json list option res" where
  "extract_tool_calls message capture_content =
     (if \<not> json_true (dict_get message ''content'') then Inr None
      else bindr (iterate (dict_get message ''content'')) (\<lambda>items.
           bindr (collect_tool_uses items) (\<lambda>tool_uses.
             let (uses, tool_id_key) = (if tool_uses = [] then (filter is_claude_tool_use items, ''id'')
                                        else (tool_uses, ''toolUseId''))
             in if uses = [] then Inr None
                else bindr (map_res (tool_call capture_content tool_id_key) uses) (\<lambda>cs. Inr (Some cs)))))"

text \<open>\<open>patched_from_converse\<close>: the message of the choice and its stop reason.\<close>

definition from_converse :: "fields \<Rightarrow> bool \<Rightarrow> (fields \<times> json) res" where
  "from_converse resp capture_content =
     bindr (get_default (JObj resp) ''output'' (JObj [])) (\<lambda>output.
     bindr (get_default output ''message'' (JObj [])) (\<lambda>orig_message.
     bindr (get_method orig_message ''role'') (\<lambda>role.
       case orig_message of
         JObj m \<Rightarrow>
           bindr (extract_tool_calls m capture_content) (\<lambda>tool_calls.
           bindr (get_item (JObj resp) ''stopReason'') (\<lambda>stop_reason.
             Inr ((if json_true role then [(''role'', role)] else [])
                  @ (case tool_calls of
                       Some (c # cs) \<Rightarrow> [(''tool_calls'', JList (c # cs))]
                     | _ \<Rightarrow> if capture_content \<and> json_true (dict_get m ''content'')
                            then [(''content'', dict_get m ''content'')] else []), stop_reason)))
       | _ \<Rightarrow> Inl AttributeError)))"

section \<open>Attributes of a call\<close>

text \<open>
  An extension adds attributes from the parameters of the call, and after success sets some from the result.
  An exception ends it and is logged by the caller.
\<close>

definition put_param :: "string \<Rightarrow> json \<Rightarrow> fields \<Rightarrow> fields" where
  "put_param key v d = (if json_true v then AList.update key v d else d)"

definition starts_with :: "string \<Rightarrow> json \<Rightarrow> bool res" where
  "starts_with p v = (case v of JStr s \<Rightarrow> Inr (py_startswith p s) | _ \<Rightarrow> Inl AttributeError)"

definition last_part :: "json \<Rightarrow> json" where
  "last_part v = (case v of JStr s \<Rightarrow> JStr (last (py_split CHR '':'' s)) | _ \<Rightarrow> v)"

datatype extension = LambdaExt | SnsExt | SqsExt | DynamoDbExt | StepFunctionsExt | SecretsManagerExt
  | KinesisExt | S3Ext | BedrockExt | BedrockAgentExt | BedrockAgentRuntimeExt | BedrockAgentCoreExt

text \<open>The extensions that the patches register under the names of the services.\<close>

definition known_extensions :: "(string \<times> extension) list" where
  "known_extensions =
     [(''stepfunctions'', StepFunctionsExt), (''secretsmanager'', SecretsManagerExt), (''kinesis'', KinesisExt),
      (''s3'', S3Ext), (''bedrock'', BedrockExt), (''bedrock-agent'', BedrockAgentExt),
      (''bedrock-agent-runtime'', BedrockAgentRuntimeExt), (''bedrock-agentcore'', BedrockAgentCoreExt),
      (''bedrock-agentcore-control'', BedrockAgentCoreExt)]"

definition lambda_extract :: "fields \<Rightarrow> fields \<Rightarrow> exn option \<times> fields" where
  "lambda_extract parameters d =
     (let function_name_param = dict_get parameters ''FunctionName'';
          finish = (\<lambda>d. (None, put_param ''aws.lambda.resource_mapping.id'' (dict_get parameters ''UUID'') d))
      in if json_true function_name_param
         then (case starts_with ''arn:aws:lambda:'' function_name_param of
                 Inl e \<Rightarrow> (Some e, d)
               | Inr by_arn \<Rightarrow>
                   finish (AList.update ''aws.lambda.function.name''
                     (if by_arn then last_part function_name_param else function_name_param) d))
         else finish d)"

definition secretsmanager_extract :: "fields \<Rightarrow> fields \<Rightarrow> exn option \<times> fields" where
  "secretsmanager_extract parameters d =
     (let secret_id = dict_get parameters ''SecretId''
      in if \<not> json_true secret_id then (None, d)
         else case starts_with ''arn:aws:secretsmanager:'' secret_id of
                Inl e \<Rightarrow> (Some e, d)
              | Inr b \<Rightarrow> (None, if b then AList.update ''aws.secretsmanager.secret.arn'' secret_id d else d))"

datatype agent_operation = KnowledgeBaseOperation | DataSourceOperation | AgentOperation

definition operation_names :: "agent_operation \<Rightarrow> string list" where
  "operation_names c =
     (case c of
        AgentOperation \<Rightarrow>
          [''CreateAgentActionGroup'', ''CreateAgentAlias'', ''DeleteAgentActionGroup'', ''DeleteAgentAlias'',
           ''DeleteAgent'', ''DeleteAgentVersion'', ''GetAgentActionGroup'', ''GetAgentAlias'', ''GetAgent'',
           ''GetAgentVersion'', ''ListAgentActionGroups'', ''ListAgentAliases'', ''ListAgentKnowledgeBases'',
           ''ListAgentVersions'', ''PrepareAgent'', ''UpdateAgentActionGroup'', ''UpdateAgentAlias'', ''UpdateAgent'']
      | KnowledgeBaseOperation \<Rightarrow>
          [''AssociateAgentKnowledgeBase'', ''CreateDataSource'', ''DeleteKnowledgeBase'',
           ''DisassociateAgentKnowledgeBase'', ''GetAgentKnowledgeBase'', ''GetKnowledgeBase'',
           ''ListDataSources'', ''UpdateAgentKnowledgeBase'']
      | DataSourceOperation \<Rightarrow> [''DeleteDataSource'', ''GetDataSource'', ''UpdateDataSource''])"

definition operation_name_to_class :: "string \<Rightarrow> agent_operation option" where
  "operation_name_to_class op_name =
     map_of (rev (concat (map (\<lambda>c. map (\<lambda>n. (n, c)) (operation_names c))
       [KnowledgeBaseOperation, DataSourceOperation, AgentOperation]))) op_name"

definition request_attributes :: "agent_operation \<Rightarrow> (string \<times> string) list" where
  "request_attributes c =
     (case c of
        AgentOperation \<Rightarrow> [(''aws.bedrock.agent.id'', ''agentId'')]
      | KnowledgeBaseOperation \<Rightarrow> [(''aws.bedrock.knowledge_base.id'', ''knowledgeBaseId'')]
      | DataSourceOperation \<Rightarrow>
          [(''aws.bedrock.knowledge_base.id'', ''knowledgeBaseId''), (''aws.bedrock.data_source.id'', ''dataSourceId'')])"

definition response_attributes :: "agent_operation \<Rightarrow> (string \<times> string) list" where
  "response_attributes c =
     (case c of
        AgentOperation \<Rightarrow> [(''aws.bedrock.agent.id'', ''agentId'')]
      | KnowledgeBaseOperation \<Rightarrow> [(''aws.bedrock.knowledge_base.id'', ''knowledgeBaseId'')]
      | DataSourceOperation \<Rightarrow> [(''aws.bedrock.data_source.id'', ''dataSourceId'')])"

definition put_params :: "fields \<Rightarrow> (string \<times> string) list \<Rightarrow> fields \<Rightarrow> fields" where
  "put_params parameters keys d = foldl (\<lambda>d (key, p). put_param key (dict_get parameters p) d) d keys"

text \<open>The paths of \<open>_ATTRIBUTE_MAPPING\<close> and the walk along a path.\<close>

definition attribute_mapping :: "(string \<times> string) list" where
  "attribute_mapping =
     [(''agentRuntimeArn'', ''aws.bedrock.agentcore.runtime.arn''),
      (''agentRuntimeEndpointArn'', ''aws.bedrock.agentcore.runtime_endpoint.arn''),
      (''agentRuntimeId'', ''gen_ai.runtime.id''),
      (''browserArn'', ''aws.bedrock.agentcore.browser.arn''),
      (''browserId'', ''gen_ai.browser.id''), (''browserIdentifier'', ''gen_ai.browser.id''),
      (''codeInterpreterArn'', ''aws.bedrock.agentcore.code_interpreter.arn''),
      (''codeInterpreterId'', ''gen_ai.code_interpreter.id''),
      (''codeInterpreterIdentifier'', ''gen_ai.code_interpreter.id''),
      (''gatewayArn'', ''aws.bedrock.agentcore.gateway.arn''),
      (''gatewayId'', ''gen_ai.gateway.id''), (''gatewayIdentifier'', ''gen_ai.gateway.id''),
      (''targetId'', ''aws.gateway.target.id''),
      (''memory.arn'', ''aws.bedrock.agentcore.memory.arn''),
      (''memory.id'', ''gen_ai.memory.id''), (''memoryId'', ''gen_ai.memory.id''),
      (''credentialProviderArn'', ''aws.auth.credential_provider''),
      (''resourceCredentialProviderName'', ''aws.auth.credential_provider''),
      (''workloadIdentityArn'', ''aws.bedrock.agentcore.identity.workload_identity.arn''),
      (''workloadIdentityDetails.workloadIdentityArn'', ''aws.bedrock.agentcore.identity.workload_identity.arn'')]"

fun walk_path :: "string list \<Rightarrow> json \<Rightarrow> json" where
  "walk_path [] v = v"
| "walk_path (k # ks) v =
     (case v of
        JObj d \<Rightarrow> (case map_of d k of Some x \<Rightarrow> walk_path ks x | None \<Rightarrow> JNull)
      | _ \<Rightarrow> JNull)"

definition get_nested_value :: "fields \<Rightarrow> string \<Rightarrow> json" where
  "get_nested_value data keys = walk_path (py_split CHR ''.'' keys) (JObj data)"

definition agentcore_attributes :: "fields \<Rightarrow> fields" where
  "agentcore_attributes parameters =
     foldl (\<lambda>d (keys, attr_key). put_param attr_key (get_nested_value parameters keys) d) [] attribute_mapping"

definition sns_extract :: "fields \<Rightarrow> fields \<Rightarrow> fields" where
  "sns_extract parameters = put_params parameters [(''aws.sns.topic.arn'', ''TopicArn'')]"

definition sqs_extract :: "fields \<Rightarrow> fields \<Rightarrow> fields" where
  "sqs_extract parameters =
     put_params parameters [(''aws.sqs.queue.name'', ''QueueName''), (''aws.sqs.queue.url'', ''QueueUrl'')]"

definition stepfunctions_extract :: "fields \<Rightarrow> fields \<Rightarrow> fields" where
  "stepfunctions_extract parameters =
     put_params parameters [(''aws.stepfunctions.state_machine.arn'', ''stateMachineArn''),
       (''aws.stepfunctions.activity.arn'', ''activityArn'')]"

definition kinesis_extract :: "fields \<Rightarrow> fields \<Rightarrow> fields" where
  "kinesis_extract parameters =
     put_params parameters [(''aws.kinesis.stream.name'', ''StreamName''), (''aws.kinesis.stream.arn'', ''StreamARN'')]"

definition s3_extract :: "fields \<Rightarrow> fields \<Rightarrow> fields" where
  "s3_extract parameters = put_params parameters [(''aws.s3.bucket'', ''Bucket'')]"

definition bedrock_agent_extract :: "string \<Rightarrow> fields \<Rightarrow> fields \<Rightarrow> fields" where
  "bedrock_agent_extract operation parameters d =
     (case operation_name_to_class operation of
        None \<Rightarrow> d | Some c \<Rightarrow> put_params parameters (request_attributes c) d)"

definition bedrock_agent_runtime_extract :: "fields \<Rightarrow> fields \<Rightarrow> fields" where
  "bedrock_agent_runtime_extract parameters =
     put_params parameters
       [(''aws.bedrock.agent.id'', ''agentId''), (''aws.bedrock.knowledge_base.id'', ''knowledgeBaseId'')]"

definition agentcore_extract :: "fields \<Rightarrow> fields \<Rightarrow> fields" where
  "agentcore_extract parameters d = foldl (\<lambda>d (k, v). AList.update k v d) d (agentcore_attributes parameters)"

text \<open>What the upstream method of a patched extension did to the attributes comes in as \<open>d\<close>.\<close>

definition extract_attributes :: "extension \<Rightarrow> string \<Rightarrow> fields \<Rightarrow> fields \<Rightarrow> exn option \<times> fields" where
  "extract_attributes ext operation parameters d =
     (case ext of
        LambdaExt \<Rightarrow> lambda_extract parameters d
      | SecretsManagerExt \<Rightarrow> secretsmanager_extract parameters d
      | SnsExt \<Rightarrow> (None, sns_extract parameters d)
      | SqsExt \<Rightarrow> (None, sqs_extract parameters d)
      | DynamoDbExt \<Rightarrow> (None, d)
      | StepFunctionsExt \<Rightarrow> (None, stepfunctions_extract parameters d)
      | KinesisExt \<Rightarrow> (None, kinesis_extract parameters d)
      | S3Ext \<Rightarrow> (None, s3_extract parameters d)
      | BedrockExt \<Rightarrow> (None, d)
      | BedrockAgentExt \<Rightarrow> (None, bedrock_agent_extract operation parameters d)
      | BedrockAgentRuntimeExt \<Rightarrow> (None, bedrock_agent_runtime_extract parameters d)
      | BedrockAgentCoreExt \<Rightarrow> (None, agentcore_extract parameters d))"

text \<open>\<open>on_success\<close>: the attributes it sets on the span, in order.\<close>

definition lambda_on_success :: "fields \<Rightarrow> fields res" where
  "lambda_on_success result =
     bindr (get_default (JObj result) ''Configuration'' (JObj [])) (\<lambda>c.
     bindr (get_method c ''FunctionArn'') (\<lambda>v. Inr (put_param ''aws.lambda.function.arn'' v [])))"

definition sqs_on_success :: "fields \<Rightarrow> fields res" where
  "sqs_on_success result = Inr (put_params result [(''aws.sqs.queue.url'', ''QueueUrl'')] [])"

definition secretsmanager_on_success :: "fields \<Rightarrow> fields res" where
  "secretsmanager_on_success result = Inr (put_params result [(''aws.secretsmanager.secret.arn'', ''ARN'')] [])"

definition dynamodb_on_success :: "fields \<Rightarrow> fields res" where
  "dynamodb_on_success result =
     bindr (get_default (JObj result) ''Table'' (JObj [])) (\<lambda>t.
     bindr (get_method t ''TableArn'') (\<lambda>v. Inr (put_param ''aws.dynamodb.table.arn'' v [])))"

definition bedrock_on_success :: "fields \<Rightarrow> fields res" where
  "bedrock_on_success result =
     Inr (put_params result
       [(''aws.bedrock.guardrail.id'', ''guardrailId''), (''aws.bedrock.guardrail.arn'', ''guardrailArn'')] [])"

definition bedrock_agent_on_success :: "string \<Rightarrow> fields \<Rightarrow> fields res" where
  "bedrock_agent_on_success operation result =
     Inr (case operation_name_to_class operation of
            None \<Rightarrow> [] | Some c \<Rightarrow> put_params result (response_attributes c) [])"

definition agentcore_on_success :: "bool \<Rightarrow> fields \<Rightarrow> fields res" where
  "agentcore_on_success is_recording result = Inr (if is_recording then agentcore_attributes result else [])"

definition on_success :: "extension \<Rightarrow> string \<Rightarrow> bool \<Rightarrow> fields \<Rightarrow> fields res" where
  "on_success ext operation is_recording result =
     (case ext of
        LambdaExt \<Rightarrow> lambda_on_success result
      | SqsExt \<Rightarrow> sqs_on_success result
      | SecretsManagerExt \<Rightarrow> secretsmanager_on_success result
      | DynamoDbExt \<Rightarrow> dynamodb_on_success result
      | BedrockExt \<Rightarrow> bedrock_on_success result
      | BedrockAgentExt \<Rightarrow> bedrock_agent_on_success operation result
      | BedrockAgentCoreExt \<Rightarrow> agentcore_on_success is_recording result
      | _ \<Rightarrow> Inr [])"

section \<open>The wrapped API call\<close>

text \<open>
  Hooks of the extension are invoked safely: an exception they raise is logged. The hooks of the user and
  \<open>_apply_response_attributes\<close> are not. \<open>getattr(error, "response", None)\<close> of a \<open>ClientError\<close> is its response.
\<close>

datatype call_event = ExtractAttributes | BeforeServiceCall | RequestHook | OriginalCall
  | ApplyResponse | OnSuccess | OnError | AfterServiceCall | ResponseHook

record call_platform =
  instrumentation_enabled :: bool
  context_found :: bool
  should_trace :: bool
  request_hook :: "exn option"
  response_hook :: "exn option"
  apply_response :: "exn option"

definition finish_call :: "call_platform \<Rightarrow> 'r res \<Rightarrow> call_event list \<Rightarrow> 'r res \<times> call_event list" where
  "finish_call pl r calls =
     (case response_hook pl of
        Some e \<Rightarrow> (Inl e, calls @ [AfterServiceCall, ResponseHook])
      | None \<Rightarrow> (r, calls @ [AfterServiceCall, ResponseHook]))"

definition is_client_error :: "exn \<Rightarrow> bool" where
  "is_client_error e = (case e of ClientError _ \<Rightarrow> True | _ \<Rightarrow> False)"

definition patched_api_call :: "call_platform \<Rightarrow> 'r res \<Rightarrow> 'r res \<times> call_event list" where
  "patched_api_call pl original =
     (if \<not> instrumentation_enabled pl \<or> \<not> context_found pl \<or> \<not> should_trace pl
      then (original, [OriginalCall])
      else
        let calls = [ExtractAttributes, BeforeServiceCall, RequestHook]
        in case request_hook pl of
             Some e \<Rightarrow> (Inl e, calls)
           | None \<Rightarrow>
               (case original of
                  Inr r \<Rightarrow>
                    (case apply_response pl of
                       Some e \<Rightarrow> finish_call pl (Inl e) (calls @ [OriginalCall, ApplyResponse])
                     | None \<Rightarrow> finish_call pl (Inr r) (calls @ [OriginalCall, ApplyResponse, OnSuccess]))
                | Inl error \<Rightarrow>
                    if is_client_error error
                    then (case apply_response pl of
                            Some e \<Rightarrow> finish_call pl (Inl e) (calls @ [OriginalCall, ApplyResponse])
                          | None \<Rightarrow> finish_call pl (Inl error) (calls @ [OriginalCall, ApplyResponse, OnError]))
                    else finish_call pl (Inl error) (calls @ [OriginalCall])))"

text \<open>The attributes the span of a call starts with; the server attributes come from the SDK.\<close>

record call_context =
  service_id :: string
  operation_name :: string
  call_region :: json
  server_attributes :: fields

definition base_attributes :: "call_context \<Rightarrow> string option option \<Rightarrow> fields" where
  "base_attributes c credentials =
     (let d = foldl (\<lambda>d (k, v). AList.update k v d)
            [(''rpc.system'', JStr ''aws-api''), (''rpc.service'', JStr (service_id c)),
             (''rpc.method'', JStr (operation_name c)), (''aws.region'', call_region c)]
            (server_attributes c @ [(''aws.auth.region'', call_region c)])
      in case credentials of
           Some (Some access_key) \<Rightarrow> AList.update ''aws.auth.account.access_key'' (JStr access_key) d
         | _ \<Rightarrow> d)"

text \<open>The wrapped API call changes neither the calls nor their outcomes. As long as the hooks of the user and
  the response attributes do not raise, the caller gets the result or the exception of the original call,
  which runs exactly once; a traced call runs the hook after the service call exactly once, in every case
  after the original call, the success hook exactly on a result and the error hook exactly on a client
  error, never both.\<close>

theorem api_call_transparent:
  assumes "request_hook pl = None" "response_hook pl = None" "apply_response pl = None"
    and "patched_api_call pl original = (r, calls)"
  shows "r = original \<and> count_list calls OriginalCall = 1
    \<and> (let traced = instrumentation_enabled pl \<and> context_found pl \<and> should_trace pl
       in count_list calls AfterServiceCall = (if traced then 1 else 0)
        \<and> (OnSuccess \<in> set calls \<longleftrightarrow> traced \<and> (\<exists>v. original = Inr v))
        \<and> (OnError \<in> set calls \<longleftrightarrow> traced \<and> (\<exists>code. original = Inl (ClientError code)))
        \<and> (traced \<longrightarrow> sorted_wrt (\<lambda>x y. \<not> (x = AfterServiceCall \<and> y = OriginalCall)) calls))"
  using assms
  by (cases original; cases "instrumentation_enabled pl \<and> context_found pl \<and> should_trace pl")
     (auto simp: patched_api_call_def finish_call_def is_client_error_def Let_def split: exn.splits if_splits)

theorem api_call_transparent_witness:
  "let pl = \<lparr>instrumentation_enabled = True, context_found = True, should_trace = True, request_hook = None,
        response_hook = None, apply_response = None\<rparr>;
       (r, calls) = patched_api_call pl (Inl (ClientError ''Throttling'') :: unit res)
   in r = Inl (ClientError ''Throttling'') \<and> OnError \<in> set calls \<and> OnSuccess \<notin> set calls"
proof -
  let ?pl = "\<lparr>instrumentation_enabled = True, context_found = True, should_trace = True, request_hook = None,
        response_hook = None, apply_response = None\<rparr>"
  obtain r calls where run: "patched_api_call ?pl (Inl (ClientError ''Throttling'') :: unit res) = (r, calls)"
    by fastforce
  show ?thesis using api_call_transparent [OF _ _ _ run] by (simp add: run)
qed

end
