(* ===== verification/CallResources.thy ===== *)
theory CallResources
  imports BotocorePatches AttributeGenerator
begin

text \<open>
  From an AWS call to its metrics: the attributes that the botocore extensions take from the parameters of a
  call are those from which the metric attribute generator names the remote resource.
\<close>

text \<open>
  The span of a call has the attributes that the SDK keeps; of a text it keeps the text.
\<close>

definition call_span :: "(json \<Rightarrow> aval option) \<Rightarrow> fields \<Rightarrow> span \<Rightarrow> span" where
  "call_span keep d sp = sp\<lparr>attributes := List.map_filter (\<lambda>(k, v). map_option (Pair k) (keep v)) d\<rparr>"

lemma get_call_span:
  assumes "distinct (map fst d)"
  shows "get (call_span keep d sp) k = Option.bind (map_of d k) keep"
proof -
  have "map_of (List.map_filter (\<lambda>(k, v). map_option (Pair k) (keep v)) d) k = Option.bind (map_of d k) keep"
    using assms
  proof (induction d)
    case (Cons x d)
    obtain k' v where x: "x = (k', v)" by fastforce
    have "map_of d k' = None" using Cons.prems by (simp add: x map_of_eq_None_iff)
    with Cons show ?case
      by (cases "keep v") (auto simp: x List.map_filter_def)
  qed (simp add: List.map_filter_def)
  then show ?thesis by (simp add: get_def call_span_def)
qed

text \<open>The attributes that decide the remote resource of a call.\<close>

definition resource_keys :: "string list" where
  "resource_keys =
     [''aws.dynamodb.table_names'', ''aws.dynamodb.table.arn'', ''aws.kinesis.stream.name'',
      ''aws.kinesis.stream.arn'', ''aws.s3.bucket'', ''aws.sqs.queue.name'', ''aws.sqs.queue.url'',
      ''aws.bedrock.agent.id'', ''aws.bedrock.data_source.id'', ''aws.bedrock.guardrail.id'',
      ''aws.bedrock.knowledge_base.id'', ''gen_ai.request.model'', ''aws.secretsmanager.secret.arn'',
      ''aws.sns.topic.arn'', ''aws.stepfunctions.state_machine.arn'', ''aws.stepfunctions.activity.arn'',
      ''aws.lambda.function.name'', ''aws.lambda.function.arn'', ''aws.lambda.resource_mapping.id'']"

text \<open>The attributes a call starts with: those of the SDK system and service and no resource.\<close>

definition plain_call :: "string \<Rightarrow> string \<Rightarrow> fields \<Rightarrow> bool" where
  "plain_call service method d \<longleftrightarrow>
     distinct (map fst d) \<and> map_of d ''rpc.system'' = Some (JStr ''aws-api'')
     \<and> map_of d ''rpc.service'' = Some (JStr service) \<and> map_of d ''rpc.method'' = Some (JStr method)
     \<and> list_all (\<lambda>k. map_of d k = None) resource_keys"

lemma plain_call_updated:
  assumes "plain_call service method d" "K \<in> set resource_keys" "\<forall>s. keep (JStr s) = Some (AStr s)"
  shows "get (call_span keep (AList.update K (JStr b) d) sp) K = Some (AStr b)"
    and "k \<in> set resource_keys \<Longrightarrow> k \<noteq> K \<Longrightarrow> get (call_span keep (AList.update K (JStr b) d) sp) k = None"
    and "get (call_span keep (AList.update K (JStr b) d) sp) ''rpc.system'' = Some (AStr ''aws-api'')"
    and "get (call_span keep (AList.update K (JStr b) d) sp) ''rpc.service'' = Some (AStr service)"
    and "get (call_span keep (AList.update K (JStr b) d) sp) ''rpc.method'' = Some (AStr method)"
proof -
  have "distinct (map fst (AList.update K (JStr b) d))"
    using assms(1) by (simp add: plain_call_def distinct_update_keys)
  note get = get_call_span [OF this, of keep sp]
  have K: "K \<noteq> ''rpc.system''" "K \<noteq> ''rpc.service''" "K \<noteq> ''rpc.method''"
    using assms(2) by (auto simp: resource_keys_def)
  show "get (call_span keep (AList.update K (JStr b) d) sp) K = Some (AStr b)" by (simp add: get assms(3))
  show "get (call_span keep (AList.update K (JStr b) d) sp) k = None" if "k \<in> set resource_keys" "k \<noteq> K"
    using assms(1) that by (simp add: get plain_call_def list_all_iff)
  show "get (call_span keep (AList.update K (JStr b) d) sp) ''rpc.system'' = Some (AStr ''aws-api'')"
    "get (call_span keep (AList.update K (JStr b) d) sp) ''rpc.service'' = Some (AStr service)"
    "get (call_span keep (AList.update K (JStr b) d) sp) ''rpc.method'' = Some (AStr method)"
    using assms(1,3) K by (simp_all add: get plain_call_def)
qed

lemma named_resource:
  assumes "plain_call service method d" "\<forall>s. keep (JStr s) = Some (AStr s)"
    and "(K, T) \<in> {(''aws.s3.bucket'', ''AWS::S3::Bucket''), (''aws.kinesis.stream.name'', ''AWS::Kinesis::Stream''),
      (''aws.sqs.queue.name'', ''AWS::SQS::Queue'')}"
  shows "remote_resource rt (call_span keep (AList.update K (JStr b) d) sp) = Inr (Some T, Some (escape_text b), None)"
proof -
  have K: "K \<in> set resource_keys" using assms(3) by (auto simp: resource_keys_def)
  note upd = plain_call_updated [OF assms(1) K assms(2), where b = b and sp = sp]
  have others: "\<forall>k \<in> set resource_keys. k \<noteq> K \<longrightarrow> get (call_span keep (AList.update K (JStr b) d) sp) k = None"
    using upd(2) by blast
  note facts = others [unfolded resource_keys_def] upd(1,3)
  consider "K = ''aws.s3.bucket''" "T = ''AWS::S3::Bucket''"
    | "K = ''aws.kinesis.stream.name''" "T = ''AWS::Kinesis::Stream''"
    | "K = ''aws.sqs.queue.name''" "T = ''AWS::SQS::Queue''"
    using assms(3) by blast
  then show ?thesis
  proof cases
    case 1
    then show ?thesis using facts
      by (simp add: remote_resource_def is_aws_sdk_span_def sdk_resource_def is_key_present_def typed_def
          escape_delimiters_def Let_def)
  next
    case 2
    then show ?thesis using facts
      by (simp add: remote_resource_def is_aws_sdk_span_def sdk_resource_def is_key_present_def typed_def
          escape_delimiters_def Let_def)
  next
    case 3
    then show ?thesis using facts
      by (simp add: remote_resource_def is_aws_sdk_span_def sdk_resource_def is_key_present_def typed_def
          escape_delimiters_def Let_def)
  qed
qed

lemma lambda_resource:
  assumes "plain_call service method d" "\<forall>s. keep (JStr s) = Some (AStr s)"
    and "map_of aws_sdk_service_mapping service \<noteq> Some ''AWS::BedrockAgentCore''" "method \<noteq> ''Invoke''"
  shows "remote_resource rt (call_span keep (AList.update ''aws.lambda.function.name'' (JStr b) d) sp)
    = Inr (Some ''AWS::Lambda::Function'', Some (escape_text b), None)"
proof -
  have K: "''aws.lambda.function.name'' \<in> set resource_keys" by (simp add: resource_keys_def)
  let ?sp = "call_span keep (AList.update ''aws.lambda.function.name'' (JStr b) d) sp"
  note upd = plain_call_updated [OF assms(1) K assms(2), where b = b and sp = sp]
  have others: "\<forall>k \<in> set resource_keys. k \<noteq> ''aws.lambda.function.name'' \<longrightarrow> get ?sp k = None"
    using upd(2) by blast
  have "\<not> is_lambda_invoke_operation ?sp" using upd(5) assms(4) by (simp add: is_lambda_invoke_operation_def)
  with others upd(1,3,4) assms(3) show ?thesis
    by (simp add: remote_resource_def is_aws_sdk_span_def sdk_resource_def resource_keys_def is_key_present_def
        typed_def escape_delimiters_def Let_def py_str_def)
qed

lemma put_param_text: "b \<noteq> [] \<Longrightarrow> put_param key (JStr b) d = AList.update key (JStr b) d"
  by (simp add: put_param_def json_true_def)

lemma put_param_absent: "put_param key JNull d = d"
  by (simp add: put_param_def json_true_def)



text \<open>An ARN with a version or an alias is cut at its last part: the name is then that of the alias.\<close>

lemma qualified_arn_named_by_alias:
  "lambda_extract [(''FunctionName'', JStr ''arn:aws:lambda:eu-west-1:123456789012:function:pay:PROD'')] []
   = (None, [(''aws.lambda.function.name'', JStr ''PROD'')])"
  by code_simp

end
