(* ===== verification/Eachdist.thy ===== *)
theory Eachdist
  imports Prelude
begin

text \<open>
  The development scripts with logic of their own: \<open>src/scripts/eachdist.py\<close>, which selects the
  distributions of the repository and runs a command for each or all of them, and
  \<open>src/checkers/file_header_checker.py\<close>. A directory is a tree; globbing, \<open>Path.match\<close>, the configuration
  parser and the subprocess are parameters; \<open>str.format\<close>, \<open>shlex.quote\<close> and \<open>shlex.split\<close> are written out.
\<close>

section \<open>Finding distributions\<close>

datatype entry = File string | Folder string "entry list"

fun entry_name :: "entry \<Rightarrow> string" where
  "entry_name (File n) = n"
| "entry_name (Folder n es) = n"

type_synonym place = "string list"

definition project_markers :: "string list" where
  "project_markers = [''.git'', ''tox.ini'']"

text \<open>The start and its parents, innermost first; the first part of a path is the root.\<close>

definition and_parents :: "place \<Rightarrow> place list" where
  "and_parents p = map (\<lambda>k. take k p) (rev [1..<Suc (length p)])"

definition find_projectroot :: "(place \<Rightarrow> bool) \<Rightarrow> place \<Rightarrow> place option" where
  "find_projectroot path_exists search_start =
     find (\<lambda>r. list_ex (\<lambda>marker. path_exists (r @ [marker])) project_markers) (and_parents search_start)"

fun find_targets_unordered :: "place \<Rightarrow> entry list \<Rightarrow> place list" where
  "find_targets_unordered rootpath [] = []"
| "find_targets_unordered rootpath (File n # es) = find_targets_unordered rootpath es"
| "find_targets_unordered rootpath (Folder n subdir # es) =
     (if prefix ''.'' n \<or> prefix ''venv'' n then []
      else if ''pyproject.toml'' \<in> entry_name ` set subdir then [rootpath @ [n]]
      else find_targets_unordered (rootpath @ [n]) subdir)
     @ find_targets_unordered rootpath es"

definition getlistcfg :: "string \<Rightarrow> string list" where
  "getlistcfg strval =
     concat (map (\<lambda>line. map py_strip (filter (\<lambda>v. py_strip v \<noteq> []) (py_split CHR '','' line)))
       (py_split (char_of (10 :: nat)) strval))"

fun unique_from :: "'a list \<Rightarrow> 'a list \<Rightarrow> 'a list" where
  "unique_from seen [] = []"
| "unique_from seen (x # xs) =
     (if x \<in> set seen then unique_from seen xs else x # unique_from (x # seen) xs)"

definition unique :: "'a list \<Rightarrow> 'a list" where
  "unique xs = unique_from [] xs"

text \<open>
  What the script asks of the file system: the entries of the root, the matches of a glob below a directory,
  whether a path relative to the root matches a pattern, and whether a path exists.
\<close>

record tree =
  root_entries :: "entry list"
  glob_below :: "place \<Rightarrow> string \<Rightarrow> place list"
  path_match :: "place \<Rightarrow> string \<Rightarrow> bool"
  place_exists :: "place \<Rightarrow> bool"

definition relative :: "place \<Rightarrow> place \<Rightarrow> place" where
  "relative rootpath p = drop (length rootpath) p"

text \<open>The position of the first pattern that matches; no match counts as infinity, behind all of them.\<close>

fun first_match_index :: "(string \<Rightarrow> bool) \<Rightarrow> string list \<Rightarrow> nat" where
  "first_match_index m [] = 0"
| "first_match_index m (p # ps) = (if \<not> m p then 1 + first_match_index m ps else 0)"

definition sort_key_of :: "tree \<Rightarrow> place \<Rightarrow> string list \<Rightarrow> place \<Rightarrow> nat" where
  "sort_key_of t rootpath sortfirst p = first_match_index (path_match t (relative rootpath p)) sortfirst"

definition subglob_targets :: "tree \<Rightarrow> string list \<Rightarrow> place list \<Rightarrow> place list" where
  "subglob_targets t subglobs targets =
     filter (\<lambda>e. \<not> py_in ''.egg-info'' (py_join ''/'' e) \<and> place_exists t e)
       (concat (map (\<lambda>target. concat (map (\<lambda>subglob.
          if subglob = ''.'' then [target] else glob_below t target subglob) subglobs)) targets))"

text \<open>
  \<open>find_targets\<close>: without a root the script exits; a missing section of the configuration is a
  \<open>KeyError\<close>. An option that is not there does nothing.
\<close>

definition selected_targets :: "tree \<Rightarrow> (string \<times> string) list \<Rightarrow> place \<Rightarrow> place list" where
  "selected_targets t mcfg rootpath =
     (let targets0 = find_targets_unordered rootpath (root_entries t);
          targets1 = (case map_of mcfg ''extraroots'' of
             Some v \<Rightarrow> targets0 @ concat (map (glob_below t rootpath) (getlistcfg v)) | None \<Rightarrow> targets0);
          targets2 = (case map_of mcfg ''sortfirst'' of
             Some v \<Rightarrow> sort_key (sort_key_of t rootpath (getlistcfg v)) targets1 | None \<Rightarrow> targets1);
          targets3 = (case map_of mcfg ''ignore'' of
             Some v \<Rightarrow> filter (\<lambda>p. \<not> list_ex (path_match t (relative rootpath p)) (getlistcfg v)) targets2
           | None \<Rightarrow> targets2);
          subglobs = getlistcfg (case map_of mcfg ''subglob'' of Some v \<Rightarrow> v | None \<Rightarrow> [])
      in unique (if subglobs \<noteq> [] then subglob_targets t subglobs targets3 else targets3))"

definition find_targets ::
    "tree \<Rightarrow> (string \<Rightarrow> (string \<times> string) list option) \<Rightarrow> string \<Rightarrow> place option \<Rightarrow> place list res" where
  "find_targets t cfg mode rootpath =
     (case rootpath of
        None \<Rightarrow> Inl (Foreign ''SystemExit'')
      | Some r \<Rightarrow> (case cfg mode of None \<Rightarrow> Inl KeyError | Some mcfg \<Rightarrow> Inr (selected_targets t mcfg r)))"

section \<open>Command lines\<close>

text \<open>
  \<open>str.format\<close> for the fields the script uses: \<open>lookup n f\<close> is the text of the field \<open>f\<close>, the \<open>n\<close>-th unnamed
  one when \<open>f\<close> is empty. The second argument is the field being read.
\<close>

fun format_from :: "(nat \<Rightarrow> string \<Rightarrow> string res) \<Rightarrow> nat \<Rightarrow> string option \<Rightarrow> string \<Rightarrow> string res" where
  "format_from lookup n None [] = Inr []"
| "format_from lookup n (Some f) [] = Inl ValueError"
| "format_from lookup n None (c # cs) =
     (if c = CHR ''{'' then
        (if cs \<noteq> [] \<and> hd cs = CHR ''{'' then bindr (format_from lookup n None (tl cs)) (\<lambda>r. Inr (c # r))
         else format_from lookup n (Some []) cs)
      else if c = CHR ''}'' then
        (if cs \<noteq> [] \<and> hd cs = CHR ''}'' then bindr (format_from lookup n None (tl cs)) (\<lambda>r. Inr (c # r))
         else Inl ValueError)
      else bindr (format_from lookup n None cs) (\<lambda>r. Inr (c # r)))"
| "format_from lookup n (Some f) (c # cs) =
     (if c = CHR ''}'' then
        bindr (lookup n f) (\<lambda>t.
        bindr (format_from lookup (if f = [] then Suc n else n) None cs) (\<lambda>r. Inr (t @ r)))
      else format_from lookup n (Some (f @ [c])) cs)"

definition py_format :: "(nat \<Rightarrow> string \<Rightarrow> string res) \<Rightarrow> string \<Rightarrow> string res" where
  "py_format lookup fmt = format_from lookup 0 None fmt"

definition posix_text :: "place \<Rightarrow> string" where
  "posix_text p = (case p of [] \<Rightarrow> ''.'' | r # rest \<Rightarrow> if r = ''/'' then ''/'' @ py_join ''/'' rest else py_join ''/'' p)"

definition fmt_for_path :: "place \<Rightarrow> string \<Rightarrow> place \<Rightarrow> string res" where
  "fmt_for_path rootpath fmt p =
     py_format (\<lambda>n f.
       if f = [] then (if n = 0 then Inr (posix_text p) else Inl IndexError)
       else if f = ''rel'' \<or> f = ''rawrel'' then Inr (posix_text (relative rootpath p))
       else if f = ''raw'' then Inr (posix_text p)
       else Inl KeyError) fmt"

definition fmt_all :: "string \<Rightarrow> string \<Rightarrow> string res" where
  "fmt_all fmt allstr =
     py_format (\<lambda>n f. if f = [] then (if n = 0 then Inr allstr else Inl IndexError) else Inl KeyError) fmt"

text \<open>\<open>shlex.quote\<close> and \<open>join_args\<close>.\<close>

definition shell_safe :: "char \<Rightarrow> bool" where
  "shell_safe c \<longleftrightarrow>
     (let n = (of_char c :: nat) in 48 \<le> n \<and> n < 58 \<or> 65 \<le> n \<and> n < 91 \<or> 97 \<le> n \<and> n < 123)
     \<or> c \<in> set ''_@%+=:,./-''"

definition shlex_quote :: "string \<Rightarrow> string" where
  "shlex_quote s =
     (if s = [] then [CHR 0x27, CHR 0x27]
      else if list_all shell_safe s then s
      else [CHR 0x27] @ concat (map (\<lambda>c. if c = CHR 0x27 then [c, CHR 0x22, c, CHR 0x22, c] else [c]) s)
           @ [CHR 0x27])"

definition join_args :: "string list \<Rightarrow> string" where
  "join_args arglist = py_join '' '' (map shlex_quote arglist)"

text \<open>
  \<open>shlex.split\<close>: outside quotes, inside them, and after a backslash (inside double quotes it only takes itself
  and the quote). The second argument is the word being read; a word has begun once a character or a quote was read.
\<close>

datatype lexer = Bare | Within char | Escape "char option"

definition shell_space :: "char \<Rightarrow> bool" where
  "shell_space c \<longleftrightarrow> c = CHR '' '' \<or> c = CHR 0x09 \<or> c = CHR 0x0D \<or> c = CHR 0x0A"

definition begun :: "string option \<Rightarrow> string" where
  "begun w = (case w of Some s \<Rightarrow> s | None \<Rightarrow> [])"

fun shlex_from :: "lexer \<Rightarrow> string option \<Rightarrow> string \<Rightarrow> string list res" where
  "shlex_from Bare w [] = Inr (case w of Some s \<Rightarrow> [s] | None \<Rightarrow> [])"
| "shlex_from (Within q) w [] = Inl ValueError"
| "shlex_from (Escape q) w [] = Inl ValueError"
| "shlex_from Bare w (c # cs) =
     (if shell_space c
      then (case w of None \<Rightarrow> shlex_from Bare None cs
            | Some s \<Rightarrow> bindr (shlex_from Bare None cs) (\<lambda>ws. Inr (s # ws)))
      else if c = CHR 0x5C then shlex_from (Escape None) w cs
      else if c = CHR 0x27 \<or> c = CHR 0x22 then shlex_from (Within c) (Some (begun w)) cs
      else shlex_from Bare (Some (begun w @ [c])) cs)"
| "shlex_from (Within q) w (c # cs) =
     (if c = q then shlex_from Bare w cs
      else if c = CHR 0x5C \<and> q = CHR 0x22 then shlex_from (Escape (Some q)) w cs
      else shlex_from (Within q) (Some (begun w @ [c])) cs)"
| "shlex_from (Escape None) w (c # cs) = shlex_from Bare (Some (begun w @ [c])) cs"
| "shlex_from (Escape (Some q)) w (c # cs) =
     shlex_from (Within q) (Some (begun w @ (if c \<noteq> CHR 0x5C \<and> c \<noteq> q then [CHR 0x5C, c] else [c]))) cs"

definition shlex_split :: "string \<Rightarrow> string list res" where
  "shlex_split s = shlex_from Bare None s"

section \<open>Running commands\<close>

text \<open>
  The options of \<open>exec\<close>; \<open>run\<close> is the exit code of a command line, which the operating system may refuse. The
  result is what was started and the exit code of the script, if it exits because of a command.
\<close>

record exec_options =
  dry_run :: bool
  command_format :: string
  all_format :: "string option"
  all_sep :: "string option"
  allow_exit_codes :: "int list"

fun run_commands ::
    "exec_options \<Rightarrow> (string list \<Rightarrow> int res) \<Rightarrow> string list res list \<Rightarrow> (string list list \<times> int option) res" where
  "run_commands opts run [] = Inr ([], None)"
| "run_commands opts run (cmd # cmds) =
     bindr cmd (\<lambda>params.
       if dry_run opts then run_commands opts run cmds
       else bindr (case params of [] \<Rightarrow> Inl IndexError | _ \<Rightarrow> run params) (\<lambda>code.
         if code \<notin> set (allow_exit_codes opts) then Inr ([params], Some code)
         else bindr (run_commands opts run cmds) (\<lambda>(started, exit). Inr (params # started, exit))))"

definition nonempty_text :: "string option \<Rightarrow> bool" where
  "nonempty_text s \<longleftrightarrow> (case s of Some (c # cs) \<Rightarrow> True | _ \<Rightarrow> False)"

text \<open>The command for all targets together, and the one for each.\<close>

definition command_for_all :: "exec_options \<Rightarrow> place \<Rightarrow> place list \<Rightarrow> string list res" where
  "command_for_all opts rootpath targets =
     bindr (map_res (fmt_for_path rootpath (the (all_format opts))) targets) (\<lambda>texts.
     bindr (fmt_all (command_format opts)
              (py_join (if nonempty_text (all_sep opts) then the (all_sep opts) else '' '') texts)) shlex_split)"

definition command_for_one :: "exec_options \<Rightarrow> place \<Rightarrow> place \<Rightarrow> string list res" where
  "command_for_one opts rootpath p = bindr (fmt_for_path rootpath (command_format opts) p) shlex_split"

definition execute_args ::
    "(string list \<Rightarrow> int res) \<Rightarrow> exec_options \<Rightarrow> place \<Rightarrow> place list res \<Rightarrow> (string list list \<times> int option) res" where
  "execute_args run opts rootpath targets =
     (if nonempty_text (all_sep opts) \<and> \<not> nonempty_text (all_format opts) then Inl (Foreign ''SystemExit'')
      else bindr targets (\<lambda>ts.
        if ts = [] then Inr ([], None)
        else if nonempty_text (all_format opts) then run_commands opts run [command_for_all opts rootpath ts]
        else run_commands opts run (map (command_for_one opts rootpath) ts)))"

section \<open>Installing\<close>

record install_options =
  install_dry_run :: bool
  editable :: bool
  with_test_deps :: bool
  with_dev_deps :: bool
  eager_upgrades :: bool

definition clean_remainder_args :: "string list \<Rightarrow> string list" where
  "clean_remainder_args args = (case args of a # rest \<Rightarrow> if a = ''--'' then rest else args | [] \<Rightarrow> [])"

definition pip_args :: "install_options \<Rightarrow> string list \<Rightarrow> string list" where
  "pip_args opt args = clean_remainder_args args @ (if eager_upgrades opt then [''--upgrade-strategy=eager''] else [])"

definition install_all_format :: "install_options \<Rightarrow> string" where
  "install_all_format opt =
     (if editable opt then ''-e '' else []) @ [CHR 0x27] @ ''file://{}'' @ (if with_test_deps opt then ''[test]'' else [])
     @ [CHR 0x27]"

definition install_exec :: "install_options \<Rightarrow> string list \<Rightarrow> exec_options" where
  "install_exec opt args =
     \<lparr>dry_run = install_dry_run opt, command_format = ''python -m pip install {} '' @ join_args (pip_args opt args),
      all_format = Some (install_all_format opt), all_sep = None, allow_exit_codes = [0]\<rparr>"

text \<open>The two commands around the installation, when the development dependencies are wanted.\<close>

definition upgrade_command :: "install_options \<Rightarrow> string list \<Rightarrow> string list list" where
  "upgrade_command opt args =
     (if with_dev_deps opt
      then [[''python'', ''-m'', ''pip'', ''install'', ''--upgrade'', ''pip'', ''setuptools'', ''wheel''] @ pip_args opt args]
      else [])"

definition requirements_command :: "install_options \<Rightarrow> place \<Rightarrow> string list \<Rightarrow> string list list" where
  "requirements_command opt rootpath args =
     (if with_dev_deps opt
      then [[''python'', ''-m'', ''pip'', ''install'', ''--upgrade'', ''-r'',
             posix_text (rootpath @ [''dev-requirements.txt''])] @ pip_args opt args]
      else [])"

definition develop_options :: "bool \<Rightarrow> install_options" where
  "develop_options dry = \<lparr>install_dry_run = dry, editable = True, with_test_deps = True, with_dev_deps = True,
     eager_upgrades = True\<rparr>"

text \<open>The commands of \<open>lint\<close> before its two \<open>exec\<close> commands, and of \<open>format\<close>, with their working directories.\<close>

definition lint_commands :: "bool \<Rightarrow> string \<Rightarrow> (string list \<times> string option) list" where
  "lint_commands check_only rootdir =
     [([''black'', ''--config'', rootdir @ ''/pyproject.toml'', ''.''] @ (if check_only then [''--diff'', ''--check''] else []),
       Some rootdir),
      ([''isort'', ''--settings-path'', rootdir @ ''/.isort.cfg'', ''.'']
         @ (if check_only then [''--diff'', ''--check-only''] else []), Some rootdir),
      ([''flake8'', ''--config'', rootdir @ ''/.flake8'', rootdir], None)]"

definition test_exec :: "bool \<Rightarrow> string list \<Rightarrow> exec_options" where
  "test_exec dry args =
     \<lparr>dry_run = dry, command_format = ''pytest {} '' @ join_args (clean_remainder_args args), all_format = None,
      all_sep = None, allow_exit_codes = [0]\<rparr>"

definition format_commands :: "string \<Rightarrow> string \<Rightarrow> (string list \<times> string) list" where
  "format_commands root_dir format_dir =
     [([''black'', ''--config'', root_dir @ ''/pyproject.toml'', ''.''], format_dir),
      ([''isort'', ''--settings-path'', root_dir @ ''/.isort.cfg'', ''--profile'', ''black'', ''.''], format_dir)]"

section \<open>Checked commands\<close>

text \<open>
  A command line with its working directory. \<open>which\<close> is the program found on the path, \<open>run\<close> the exit code or the
  exception of the subprocess. A dry run only prints.
\<close>

type_synonym invocation = "string list \<times> string option"

definition resolve :: "(string \<Rightarrow> string option) \<Rightarrow> string list \<Rightarrow> string list res" where
  "resolve which params =
     (case params of
        [] \<Rightarrow> Inl IndexError
      | p # ps \<Rightarrow> Inr ((if nonempty_text (which p) then the (which p) else p) # ps))"

definition runsubprocess ::
    "(string \<Rightarrow> string option) \<Rightarrow> (string list \<Rightarrow> string option \<Rightarrow> int res) \<Rightarrow> bool \<Rightarrow> bool \<Rightarrow> invocation \<Rightarrow> int option res" where
  "runsubprocess which run dry check = (\<lambda>(params, cwd).
     if dry then Inr None
     else bindr (resolve which params) (\<lambda>argv.
       case run argv cwd of
         Inl e \<Rightarrow> Inl (if e = Foreign ''OSError'' then ValueError else e)
       | Inr code \<Rightarrow> if check \<and> code \<noteq> 0 then Inl (Foreign ''CalledProcessError'') else Inr (Some code)))"

text \<open>Commands one after the other, up to the first that fails: the outcome and what was reached.\<close>

fun run_checked ::
    "(string \<Rightarrow> string option) \<Rightarrow> (string list \<Rightarrow> string option \<Rightarrow> int res) \<Rightarrow> bool \<Rightarrow> invocation list \<Rightarrow>
     unit res \<times> invocation list" where
  "run_checked which run dry [] = (Inr (), [])"
| "run_checked which run dry (c # cs) =
     (case runsubprocess which run dry True c of
        Inl e \<Rightarrow> (Inl e, [c])
      | Inr _ \<Rightarrow> (case run_checked which run dry cs of (r, reached) \<Rightarrow> (r, c # reached)))"

text \<open>The \<open>exec\<close> command of another command; its failing exit code ends the script.\<close>

definition lint_exec :: "bool \<Rightarrow> string \<Rightarrow> exec_options" where
  "lint_exec dry fmt =
     \<lparr>dry_run = dry, command_format = fmt, all_format = Some ''{rel}'', all_sep = None, allow_exit_codes = [0]\<rparr>"

definition or_exit :: "(string list list \<times> int option) res \<Rightarrow> unit res" where
  "or_exit r = bindr r (\<lambda>(started, exit). if exit = None then Inr () else Inl (Foreign ''SystemExit''))"

text \<open>\<open>exec mode opts\<close> is \<open>execute_args\<close> with the targets of a mode.\<close>

definition lint_args ::
    "(string \<Rightarrow> string option) \<Rightarrow> (string list \<Rightarrow> string option \<Rightarrow> int res)
      \<Rightarrow> (string \<Rightarrow> exec_options \<Rightarrow> (string list list \<times> int option) res) \<Rightarrow> bool \<Rightarrow> bool \<Rightarrow> string \<Rightarrow> unit res \<times> invocation list" where
  "lint_args which run exec dry check_only rootdir =
     (case run_checked which run dry (lint_commands check_only rootdir) of
        (r, reached) \<Rightarrow>
          (bindr r (\<lambda>_. bindr (or_exit (exec ''lintroots'' (lint_exec dry ''pylint {}'')))
             (\<lambda>_. or_exit (exec ''DEFAULT'' (lint_exec dry ''python scripts/check_for_valid_readme.py {}'')))), reached))"

definition test_args ::
    "(string \<Rightarrow> exec_options \<Rightarrow> (string list list \<times> int option) res) \<Rightarrow> bool \<Rightarrow> string list \<Rightarrow> unit res" where
  "test_args exec dry args = or_exit (exec ''testroots'' (test_exec dry args))"

text \<open>\<open>os.path.join\<close> on two parts.\<close>

definition path_join :: "string \<Rightarrow> string \<Rightarrow> string" where
  "path_join a b =
     (if prefix ''/'' b then b else if a = [] \<or> last a = CHR ''/'' then a @ b else a @ ''/'' @ b)"

definition format_args ::
    "(string \<Rightarrow> string option) \<Rightarrow> (string list \<Rightarrow> string option \<Rightarrow> int res) \<Rightarrow> bool \<Rightarrow> string option \<Rightarrow> string \<Rightarrow>
     unit res \<times> invocation list" where
  "format_args which run dry only root_dir =
     (let format_dir = (if nonempty_text only then path_join root_dir (the only) else root_dir)
      in run_checked which run dry (map (\<lambda>(c, d). (c, Some d)) (format_commands root_dir format_dir)))"

text \<open>The search for a file: \<open>walk\<close> is \<open>os.walk\<close>, a directory with its files at a time.\<close>

definition NON_SRC_DIRS :: "string list" where
  "NON_SRC_DIRS = [''build'', ''dist'', ''__pycache__'', ''lib'', ''venv'', ''.tox'']"

definition find_file :: "string \<Rightarrow> string \<Rightarrow> (string \<times> string list) list \<Rightarrow> string option" where
  "find_file name base walk =
     map_option (\<lambda>(root, files). path_join root name)
       (find (\<lambda>(root, files). \<not> list_ex (\<lambda>d. prefix (path_join base d) root) NON_SRC_DIRS \<and> name \<in> set files) walk)"

section \<open>Facts\<close>

text \<open>A run that succeeds has run every command, in order, and each ended with 0.\<close>

lemma checked_run:
  assumes "runsubprocess which run False True (params, cwd) = Inr code"
  shows "\<exists>argv. resolve which params = Inr argv \<and> run argv cwd = Inr 0"
proof -
  obtain argv where a: "resolve which params = Inr argv"
    using assms by (cases "resolve which params") (simp_all add: runsubprocess_def)
  then have "run argv cwd = Inr 0"
    using assms by (cases "run argv cwd") (simp_all add: runsubprocess_def split: if_splits)
  with a show ?thesis by blast
qed

lemma run_checked_ok:
  "run_checked which run False cs = (Inr (), reached) \<Longrightarrow>
     reached = cs \<and> (\<forall>(params, cwd) \<in> set cs. \<exists>argv. resolve which params = Inr argv \<and> run argv cwd = Inr 0)"
proof (induction cs arbitrary: reached)
  case (Cons c cs)
  obtain params cwd where c: "c = (params, cwd)" by (cases c)
  obtain code where "runsubprocess which run False True c = Inr code"
    using Cons.prems by (auto split: sum.splits)
  moreover from this have "\<exists>argv. resolve which params = Inr argv \<and> run argv cwd = Inr 0"
    unfolding c by (rule checked_run)
  ultimately show ?case using Cons c by (auto split: prod.splits)
qed simp

theorem lint_succeeds_iff_all_do:
  assumes "lint_args which run exec False check_only rootdir = (Inr (), reached)"
  shows "reached = lint_commands check_only rootdir"
    and "\<forall>(params, cwd) \<in> set (lint_commands check_only rootdir). \<exists>argv. resolve which params = Inr argv \<and> run argv cwd = Inr 0"
    and "\<exists>s t. exec ''lintroots'' (lint_exec False ''pylint {}'') = Inr (s, None)
          \<and> exec ''DEFAULT'' (lint_exec False ''python scripts/check_for_valid_readme.py {}'') = Inr (t, None)"
proof -
  obtain r where run: "run_checked which run False (lint_commands check_only rootdir) = (r, reached)"
    and r: "bindr r (\<lambda>_. bindr (or_exit (exec ''lintroots'' (lint_exec False ''pylint {}'')))
             (\<lambda>_. or_exit (exec ''DEFAULT'' (lint_exec False ''python scripts/check_for_valid_readme.py {}'')))) = Inr ()"
    using assms by (auto simp: lint_args_def split: prod.splits)
  then have "r = Inr ()" by (cases r) auto
  from run_checked_ok [OF run [unfolded this]]
  show "reached = lint_commands check_only rootdir"
    "\<forall>(params, cwd) \<in> set (lint_commands check_only rootdir). \<exists>argv. resolve which params = Inr argv \<and> run argv cwd = Inr 0"
    by auto
  show "\<exists>s t. exec ''lintroots'' (lint_exec False ''pylint {}'') = Inr (s, None)
          \<and> exec ''DEFAULT'' (lint_exec False ''python scripts/check_for_valid_readme.py {}'') = Inr (t, None)"
    using r \<open>r = Inr ()\<close> by (auto simp: or_exit_def bindr_eq_Inr split: if_splits)
qed

lemma unique_from_set: "set (unique_from seen xs) = set xs - set seen"
  by (induction seen xs rule: unique_from.induct) auto

lemma unique_from_distinct: "distinct (unique_from seen xs)"
  by (induction seen xs rule: unique_from.induct) (auto simp: unique_from_set)

lemma sorted_subseq: "subseq xs ys \<Longrightarrow> sorted ys \<Longrightarrow> sorted xs"
  by (induction rule: list_emb.induct) (auto dest: list_emb_set)

lemma unique_from_subseq: "subseq (unique_from seen xs) xs"
  by (induction seen xs rule: unique_from.induct) (auto intro: subseq_Cons')

text \<open>Distributions are found below the root.\<close>

lemma target_below: "p \<in> set (find_targets_unordered rootpath es) \<Longrightarrow> \<exists>q. q \<noteq> [] \<and> p = rootpath @ q"
  by (induction rootpath es arbitrary: p rule: find_targets_unordered.induct)
     (fastforce split: if_splits)+

lemma first_match_index_le: "first_match_index m ps \<le> length ps"
  by (induction ps) auto

lemma sort_key_of_found:
  "sort_key_of t rootpath sortfirst p < length sortfirst
    \<longleftrightarrow> list_ex (path_match t (relative rootpath p)) sortfirst"
proof -
  have "first_match_index m ps < length ps \<longleftrightarrow> list_ex m ps" for m ps by (induction ps) auto
  then show ?thesis by (simp add: sort_key_of_def)
qed

text \<open>
  The targets are distinct, and without \<open>subglob\<close> they are the found and the extra ones that are not
  ignored, ordered by the first matching pattern of \<open>sortfirst\<close>.
\<close>

theorem targets_selected:
  assumes "map_of mcfg ''subglob'' = None"
  shows "distinct (selected_targets t mcfg rootpath)
    \<and> set (selected_targets t mcfg rootpath)
       = {p \<in> set (find_targets_unordered rootpath (root_entries t))
             \<union> (case map_of mcfg ''extraroots'' of None \<Rightarrow> {}
                | Some v \<Rightarrow> (\<Union>g \<in> set (getlistcfg v). set (glob_below t rootpath g))).
            \<forall>v. map_of mcfg ''ignore'' = Some v \<longrightarrow> (\<forall>pat \<in> set (getlistcfg v). \<not> path_match t (relative rootpath p) pat)}
    \<and> (\<forall>v. map_of mcfg ''sortfirst'' = Some v \<longrightarrow>
         sorted (map (sort_key_of t rootpath (getlistcfg v)) (selected_targets t mcfg rootpath)))"
proof -
  define found where "found = find_targets_unordered rootpath (root_entries t)
    @ (case map_of mcfg ''extraroots'' of Some v \<Rightarrow> concat (map (glob_below t rootpath) (getlistcfg v)) | None \<Rightarrow> [])"
  define ordered where "ordered = (case map_of mcfg ''sortfirst'' of
      Some v \<Rightarrow> sort_key (sort_key_of t rootpath (getlistcfg v)) found | None \<Rightarrow> found)"
  define kept where "kept = (case map_of mcfg ''ignore'' of
      Some v \<Rightarrow> filter (\<lambda>p. \<not> list_ex (path_match t (relative rootpath p)) (getlistcfg v)) ordered | None \<Rightarrow> ordered)"
  have sel: "selected_targets t mcfg rootpath = unique kept"
    using assms
    by (auto simp: selected_targets_def Let_def kept_def ordered_def found_def getlistcfg_def py_strip_def
        split: option.splits)
  have "set ordered = set found" by (simp add: ordered_def split: option.splits)
  then have set: "set (unique kept) = {p \<in> set found.
      \<forall>v. map_of mcfg ''ignore'' = Some v \<longrightarrow> (\<forall>pat \<in> set (getlistcfg v). \<not> path_match t (relative rootpath p) pat)}"
    by (auto simp: unique_def unique_from_set kept_def list_ex_iff split: option.splits)
  have "sorted (map (sort_key_of t rootpath (getlistcfg v)) (unique kept))" if "map_of mcfg ''sortfirst'' = Some v" for v
  proof -
    have "subseq kept ordered" by (auto simp: kept_def split: option.splits)
    then have "subseq (unique kept) ordered" unfolding unique_def by (rule subseq_order.trans [OF unique_from_subseq])
    then have "subseq (map (sort_key_of t rootpath (getlistcfg v)) (unique kept))
        (map (sort_key_of t rootpath (getlistcfg v)) ordered)" by (rule subseq_map)
    then show ?thesis using that by (auto simp: ordered_def intro: sorted_subseq)
  qed
  with set show ?thesis
    by (auto simp: sel unique_def unique_from_distinct found_def split: option.splits)
qed

section \<open>File headers\<close>

definition copyright_line :: string where
  "copyright_line = ''# Copyright Amazon.com, Inc. or its affiliates. All Rights Reserved.'' @ [char_of (10 :: nat)]"

definition license_line :: string where
  "license_line = ''# SPDX-License-Identifier: Apache-2.0''"

text \<open>The lines with their numbers, and where the two header lines are expected; \<open>Some n\<close> is a message for line \<open>n\<close>.\<close>

fun check_lines :: "nat \<Rightarrow> nat \<Rightarrow> nat \<Rightarrow> string list \<Rightarrow> nat option" where
  "check_lines first_line second_line line_num [] = None"
| "check_lines first_line second_line line_num (line # lines) =
     (if line_num = first_line \<and> prefix ''#!'' line
      then check_lines (Suc first_line) (Suc second_line) (Suc line_num) lines
      else if line_num = first_line \<and> \<not> prefix copyright_line line then Some line_num
      else if line_num = second_line \<and> \<not> prefix license_line line then Some line_num
      else if second_line < line_num then None
      else check_lines first_line second_line (Suc line_num) lines)"

definition process_module :: "string list \<Rightarrow> nat option" where
  "process_module lines = check_lines 0 1 0 lines"

text \<open>A file passes when, after leading lines that begin with \<open>#!\<close>, it begins with the two lines, or ends before.\<close>

lemma check_lines_spec:
  "check_lines n (Suc n) n lines = None \<longleftrightarrow>
     (case dropWhile (prefix ''#!'') lines of
        [] \<Rightarrow> True
      | l # ls \<Rightarrow> prefix copyright_line l \<and> (case ls of [] \<Rightarrow> True | k # ks \<Rightarrow> prefix license_line k))"
proof (induction lines arbitrary: n)
  case (Cons l ls)
  show ?case
  proof (cases "prefix ''#!'' l")
    case True
    with Cons.IH [of "Suc n"] show ?thesis by simp
  next
    case False
    then show ?thesis
      by (cases ls; cases "tl ls") (auto simp: copyright_line_def split: list.splits)
  qed
qed simp

section \<open>Quoting\<close>

lemma quoted_chars:
  "shlex_from (Within CHR 0x27) (Some t)
     (concat (map (\<lambda>c. if c = CHR 0x27 then [c, CHR 0x22, c, CHR 0x22, c] else [c]) s) @ CHR 0x27 # r)
   = shlex_from Bare (Some (t @ s)) r"
proof (induction s arbitrary: t)
  case (Cons c s)
  show ?case
  proof (cases "c = CHR 0x27")
    case True
    with Cons [of "t @ [c]"] show ?thesis by (simp add: begun_def shell_space_def)
  next
    case False
    with Cons [of "t @ [c]"] show ?thesis by (simp add: begun_def)
  qed
qed simp

lemma safe_not_special:
  assumes "shell_safe c"
  shows "\<not> shell_space c" "c \<noteq> CHR 0x5C" "c \<noteq> CHR 0x27" "c \<noteq> CHR 0x22"
proof -
  have "list_all (\<lambda>d. \<not> shell_safe d) [CHR '' '', CHR 0x09, CHR 0x0D, CHR 0x0A, CHR 0x5C, CHR 0x27, CHR 0x22]"
    by code_simp
  with assms show "\<not> shell_space c" "c \<noteq> CHR 0x5C" "c \<noteq> CHR 0x27" "c \<noteq> CHR 0x22"
    by (auto simp: shell_space_def)
qed

lemma safe_chars:
  "list_all shell_safe s \<Longrightarrow> shlex_from Bare (Some t) (s @ r) = shlex_from Bare (Some (t @ s)) r"
  by (induction s arbitrary: t) (simp_all add: safe_not_special begun_def)

text \<open>Quoting one argument: the lexer reads it back as one word, whatever follows.\<close>

lemma quoted_word: "shlex_from Bare None (shlex_quote s @ r) = shlex_from Bare (Some s) r"
proof (cases "s \<noteq> [] \<and> list_all shell_safe s")
  case True
  then obtain c cs where s: "s = c # cs" "shell_safe c" "list_all shell_safe cs" by (cases s) auto
  then show ?thesis
    using safe_chars [of cs "[c]" r] by (simp add: shlex_quote_def safe_not_special begun_def)
next
  case False
  then show ?thesis
    using quoted_chars [of "[]" s r] by (auto simp: shlex_quote_def begun_def shell_space_def)
qed

lemma split_words:
  "shlex_from Bare None (py_join '' '' (map shlex_quote ws)) = Inr ws"
proof (induction ws)
  case Nil
  then show ?case by simp
next
  case (Cons w ws)
  show ?case
  proof (cases ws)
    case Nil
    then show ?thesis using quoted_word [of w "[]"] by simp
  next
    case (Cons v vs)
    with Cons.IH quoted_word [of w "CHR '' '' # py_join '' '' (map shlex_quote ws)"] show ?thesis
      by (simp add: shell_space_def)
  qed
qed

text \<open>Arguments survive: splitting the joined arguments gives them back.\<close>

theorem arguments_survive: "shlex_split (join_args ws) = Inr ws"
  by (simp add: shlex_split_def join_args_def split_words)

section \<open>The installation command\<close>

lemma format_plain: "CHR ''{'' \<notin> set s \<Longrightarrow> CHR ''}'' \<notin> set s \<Longrightarrow> format_from lookup n None s = Inr s"
  by (induction s) auto

lemma format_plain_append:
  "CHR ''{'' \<notin> set s \<Longrightarrow> CHR ''}'' \<notin> set s \<Longrightarrow>
     format_from lookup n None (s @ r) = bindr (format_from lookup n None r) (\<lambda>t. Inr (s @ t))"
  by (induction s) (auto simp: bindr_def split: sum.splits)

lemma quote_chars: "set (shlex_quote s) \<subseteq> set s \<union> {CHR 0x27, CHR 0x22}"
  by (auto simp: shlex_quote_def split: if_splits)

lemma join_chars: "set (join_args ws) \<subseteq> (\<Union>w \<in> set ws. set w) \<union> {CHR 0x27, CHR 0x22, CHR '' ''}"
proof -
  have "set (py_join '' '' vs) \<subseteq> (\<Union>v \<in> set vs. set v) \<union> {CHR '' ''}" for vs
    by (induction "'' ''" vs rule: py_join.induct) auto
  then show ?thesis unfolding join_args_def using quote_chars by fastforce
qed

lemma join_plain:
  "\<forall>w \<in> set ws. CHR ''{'' \<notin> set w \<and> CHR ''}'' \<notin> set w \<Longrightarrow>
     CHR ''{'' \<notin> set (join_args ws) \<and> CHR ''}'' \<notin> set (join_args ws)"
  using join_chars [of ws] by auto

lemma word_end: "shlex_from Bare (Some s) (CHR '' '' # r) = bindr (shlex_from Bare None r) (\<lambda>ws. Inr (s # ws))"
  by (simp add: shell_space_def)

text \<open>The argument of one distribution, quoted in the format and read back.\<close>

definition target_text :: "install_options \<Rightarrow> place \<Rightarrow> string" where
  "target_text opt p =
     (if editable opt then ''-e '' else []) @ [CHR 0x27] @ ''file://'' @ posix_text p
     @ (if with_test_deps opt then ''[test]'' else []) @ [CHR 0x27]"

definition target_words :: "install_options \<Rightarrow> place \<Rightarrow> string list" where
  "target_words opt p =
     (if editable opt then [''-e''] else [])
     @ [''file://'' @ posix_text p @ (if with_test_deps opt then ''[test]'' else [])]"

lemma target_formatted: "fmt_for_path rootpath (install_all_format opt) p = Inr (target_text opt p)"
  by (simp add: fmt_for_path_def py_format_def install_all_format_def target_text_def)

lemma quoted_plain:
  assumes "CHR 0x27 \<notin> set u"
  shows "shlex_from Bare None (CHR 0x27 # u @ CHR 0x27 # r) = shlex_from Bare (Some u) r"
proof -
  have "concat (map (\<lambda>c. if c = CHR 0x27 then [c, CHR 0x22, c, CHR 0x22, c] else [c]) u) = u"
    using assms by (induction u) auto
  with quoted_chars [of "[]" u r] show ?thesis by (simp add: begun_def shell_space_def)
qed

lemma target_split:
  assumes "CHR 0x27 \<notin> set (posix_text p)"
  shows "shlex_from Bare None (target_text opt p @ CHR '' '' # r)
    = bindr (shlex_from Bare None r) (\<lambda>ws. Inr (target_words opt p @ ws))"
proof -
  let ?u = "''file://'' @ posix_text p @ (if with_test_deps opt then ''[test]'' else [])"
  have u: "shlex_from Bare None (CHR 0x27 # ?u @ CHR 0x27 # CHR '' '' # r)
      = bindr (shlex_from Bare None r) (\<lambda>ws. Inr (?u # ws))"
    using quoted_plain [of ?u "CHR '' '' # r"] assms word_end by simp
  show ?thesis
  proof (cases "editable opt")
    case True
    then have "shlex_from Bare None (target_text opt p @ CHR '' '' # r)
        = bindr (shlex_from Bare None (CHR 0x27 # ?u @ CHR 0x27 # CHR '' '' # r)) (\<lambda>ws. Inr (''-e'' # ws))"
      by (simp add: target_text_def shell_space_def begun_def)
    with True u show ?thesis
      by (cases "shlex_from Bare None r") (simp_all add: target_words_def)
  next
    case False
    then have "target_text opt p @ CHR '' '' # r = CHR 0x27 # ?u @ CHR 0x27 # CHR '' '' # r"
      by (simp add: target_text_def)
    with u False show ?thesis by (simp add: target_words_def)
  qed
qed

lemma targets_split:
  assumes "\<forall>p \<in> set ps. CHR 0x27 \<notin> set (posix_text p)" "ps \<noteq> []"
  shows "shlex_from Bare None (py_join '' '' (map (target_text opt) ps) @ CHR '' '' # r)
    = bindr (shlex_from Bare None r) (\<lambda>ws. Inr (concat (map (target_words opt) ps) @ ws))"
  using assms
proof (induction ps)
  case (Cons p ps)
  show ?case
  proof (cases ps)
    case Nil
    with target_split [of p opt r] Cons.prems show ?thesis by simp
  next
    case (Cons q qs)
    let ?rest = "py_join '' '' (map (target_text opt) ps) @ CHR '' '' # r"
    have "py_join '' '' (map (target_text opt) (p # ps)) @ CHR '' '' # r = target_text opt p @ CHR '' '' # ?rest"
      using Cons by simp
    then show ?thesis
      using target_split [of p opt ?rest] Cons.IH Cons.prems Cons
      by (cases "shlex_from Bare None r") simp_all
  qed
qed simp

lemma pip_words:
  "shlex_from Bare None (''python -m pip install '' @ r)
    = bindr (shlex_from Bare None r) (\<lambda>ws. Inr ([''python'', ''-m'', ''pip'', ''install''] @ ws))"
  by (cases "shlex_from Bare None r") (simp_all add: shell_space_def begun_def)

text \<open>
  The installation is one call of pip with all the distributions and then the arguments of the user, when no path
  has a single quote and no argument a brace (a brace is taken for a field of the format).
\<close>

theorem install_runs_pip:
  assumes "ts \<noteq> []" "\<forall>p \<in> set ts. CHR 0x27 \<notin> set (posix_text p)"
    and "\<forall>w \<in> set (pip_args opt args). CHR ''{'' \<notin> set w \<and> CHR ''}'' \<notin> set w"
  shows "command_for_all (install_exec opt args) rootpath ts
    = Inr ([''python'', ''-m'', ''pip'', ''install''] @ concat (map (target_words opt) ts) @ pip_args opt args)"
proof -
  let ?join = "join_args (pip_args opt args)"
  let ?all = "py_join '' '' (map (target_text opt) ts)"
  have texts: "map_res (fmt_for_path rootpath (install_all_format opt)) ts = Inr (map (target_text opt) ts)"
    by (induction ts) (simp_all add: target_formatted)
  have "fmt_all (''python -m pip install {} '' @ ?join) ?all = Inr (''python -m pip install '' @ ?all @ CHR '' '' # ?join)"
    using format_plain [of ?join] join_plain [OF assms(3)] by (simp add: fmt_all_def py_format_def)
  moreover have "shlex_split (''python -m pip install '' @ ?all @ CHR '' '' # ?join)
      = Inr ([''python'', ''-m'', ''pip'', ''install''] @ concat (map (target_words opt) ts) @ pip_args opt args)"
    unfolding shlex_split_def pip_words targets_split [OF assms(2,1)]
    by (simp add: join_args_def split_words)
  ultimately show ?thesis
    by (simp add: command_for_all_def install_exec_def texts nonempty_text_def)
qed

end
