(* ===== verification/Release.thy ===== *)
theory Release
  imports PyValues
begin

text \<open>
  The scripts of the nightly release job: \<open>src/scripts/get_upstream_versions.py\<close> finds the newest versions,
  \<open>find_breaking_changes.py\<close> reads the pinned ones and lists the releases between, \<open>update_dependencies.py\<close>
  writes the new pins, and \<open>check_for_valid_readme.py\<close> checks the readme files. The three regular expressions
  with a single way to match are written as scanners; replies of GitHub and \<open>pip\<close>, the file system, the
  version order of \<open>packaging\<close> and the readme renderer are parameters.
\<close>

section \<open>Dependencies\<close>

definition PYTHON_CORE_DEPS :: "string list" where
  "PYTHON_CORE_DEPS =
     map (\<lambda>n. ''opentelemetry-'' @ n)
       [''api'', ''sdk'', ''proto'', ''exporter-otlp-proto-grpc'', ''exporter-otlp-proto-http'', ''propagator-b3'',
        ''propagator-jaeger'', ''exporter-otlp-proto-common'']"

definition CONTRIB_DEPS :: "string list" where
  "CONTRIB_DEPS =
     map (\<lambda>n. ''opentelemetry-'' @ n)
       ([''distro'', ''processor-baggage'', ''propagator-ot-trace'', ''test-utils'', ''instrumentation'']
        @ map (\<lambda>n. ''instrumentation-'' @ n)
          [''aws-lambda'', ''aio-pika'', ''aiohttp-client'', ''aiokafka'', ''aiopg'', ''asgi'', ''asyncpg'', ''boto'',
           ''boto3sqs'', ''botocore'', ''celery'', ''confluent-kafka'', ''dbapi'', ''django'', ''elasticsearch'',
           ''falcon'', ''fastapi'', ''flask'', ''grpc'', ''httpx'', ''jinja2'', ''kafka-python'', ''logging'',
           ''mysql'', ''mysqlclient'', ''pika'', ''psycopg2'', ''pymemcache'', ''pymongo'', ''pymysql'', ''pyramid'',
           ''redis'', ''remoulade'', ''requests'', ''sqlalchemy'', ''sqlite3'', ''starlette'', ''system-metrics'',
           ''tornado'', ''tortoiseorm'', ''urllib'', ''urllib3'', ''wsgi'', ''cassandra''])"

definition AWS_DEPS :: "string list" where
  "AWS_DEPS = [''opentelemetry-sdk-extension-aws'', ''opentelemetry-propagator-aws-xray'']"

section \<open>The pin of a dependency in a text\<close>

abbreviation quote :: char where
  "quote \<equiv> CHR 0x22"

text \<open>
  The expression for \<open>dep\<close> is an optional quote, the name, blanks, \<open>==\<close>, blanks, a version without blanks,
  commas, brackets and quotes, and an optional quote. What follows the match at the start of a text:
\<close>

definition version_char :: "char \<Rightarrow> bool" where
  "version_char c \<longleftrightarrow> \<not> py_space c \<and> c \<notin> {CHR '','', CHR '']'', quote}"

definition skip_quote :: "string \<Rightarrow> string" where
  "skip_quote s = (if s \<noteq> [] \<and> hd s = quote then tl s else s)"

definition pin_body :: "string \<Rightarrow> string \<Rightarrow> string option" where
  "pin_body dep s =
     (if prefix dep s \<and> prefix ''=='' (dropWhile py_space (drop (length dep) s))
      then Some (skip_quote (dropWhile version_char (dropWhile py_space
             (drop 2 (dropWhile py_space (drop (length dep) s))))))
      else None)"

definition match_pin :: "string \<Rightarrow> string \<Rightarrow> string option" where
  "match_pin dep s = pin_body dep (skip_quote s)"

fun has_pin :: "string \<Rightarrow> string \<Rightarrow> bool" where
  "has_pin dep [] = (match_pin dep [] \<noteq> None)"
| "has_pin dep (c # cs) = (match_pin dep (c # cs) \<noteq> None \<or> has_pin dep cs)"

text \<open>
  \<open>re.sub\<close> reads its replacement as a template: an escape is a character, the whole match (group 0) or an
  error, since the expression has no other group.
\<close>

datatype piece = Lit char | Whole

definition is_oct :: "char \<Rightarrow> bool" where
  "is_oct c \<longleftrightarrow> 48 \<le> ord c \<and> ord c \<le> 55"

definition octal :: "string \<Rightarrow> nat" where
  "octal s = foldl (\<lambda>n c. 8 * n + (ord c - 48)) 0 s"

definition template_escapes :: "(char \<times> nat) list" where
  "template_escapes =
     [(CHR ''a'', 7), (CHR ''b'', 8), (CHR ''f'', 12), (CHR ''n'', 10), (CHR ''r'', 13), (CHR ''t'', 9), (CHR ''v'', 11),
      (CHR 0x5C, 92)]"

definition ascii_alpha :: "char \<Rightarrow> bool" where
  "ascii_alpha c \<longleftrightarrow> char_isalpha c \<and> ord c < 128"

definition is_identifier :: "string \<Rightarrow> bool" where
  "is_identifier s \<longleftrightarrow>
     s \<noteq> [] \<and> (char_isalpha (hd s) \<or> hd s = CHR ''_'')
     \<and> list_all (\<lambda>c. char_isalpha c \<or> is_dec c \<or> c = CHR ''_'' \<or> ord c = 183) s"

definition re_error :: exn where
  "re_error = Foreign ''re.error''"

definition group_piece :: "string \<Rightarrow> piece res" where
  "group_piece n =
     (if n \<noteq> [] \<and> list_all is_dec n then (if list_all (\<lambda>c. c = CHR ''0'') n then Inr Whole else Inl re_error)
      else if is_identifier n then Inl IndexError else Inl re_error)"

text \<open>One escape after the backslash: its piece or pieces, and how many characters it takes.\<close>

definition escape_piece :: "string \<Rightarrow> (piece list \<times> nat) res" where
  "escape_piece s =
     (case s of
        [] \<Rightarrow> Inl re_error
      | c # cs \<Rightarrow>
          if c = CHR ''g'' then
            (if cs \<noteq> [] \<and> hd cs = CHR ''<'' \<and> CHR ''>'' \<in> set cs
             then let n = takeWhile (\<lambda>x. x \<noteq> CHR ''>'') (tl cs)
                  in bindr (group_piece n) (\<lambda>p. Inr ([p], 3 + length n))
             else Inl re_error)
          else if c = CHR ''0'' then
            let d = takeWhile is_oct (take 2 cs) in Inr ([Lit (char_of (octal d))], 1 + length d)
          else if is_dec c then
            (if is_oct c \<and> 2 \<le> length cs \<and> is_oct (cs ! 0) \<and> is_oct (cs ! 1) \<and> octal (c # take 2 cs) \<le> 255
             then Inr ([Lit (char_of (octal (c # take 2 cs)))], 3) else Inl re_error)
          else case map_of template_escapes c of
            Some n \<Rightarrow> Inr ([Lit (char_of n)], 1)
          | None \<Rightarrow> if ascii_alpha c then Inl re_error else Inr ([Lit CHR 0x5C, Lit c], 1))"

function template :: "string \<Rightarrow> piece list res" where
  "template [] = Inr []"
| "template (c # cs) =
     (if c \<noteq> CHR 0x5C then bindr (template cs) (\<lambda>ps. Inr (Lit c # ps))
      else bindr (escape_piece cs) (\<lambda>(qs, n). bindr (template (drop n cs)) (\<lambda>ps. Inr (qs @ ps))))"
  by pat_completeness auto
termination by (relation "measure length") auto

definition expand :: "piece list \<Rightarrow> string \<Rightarrow> string" where
  "expand ps whole = concat (map (\<lambda>p. case p of Lit c \<Rightarrow> [c] | Whole \<Rightarrow> whole) ps)"

lemma length_skip_quote: "length (skip_quote s) \<le> length s"
  by (simp add: skip_quote_def)

lemma pin_body_shorter: "pin_body dep s = Some r \<Longrightarrow> length r < length s"
proof -
  assume "pin_body dep s = Some r"
  then have p: "prefix ''=='' (dropWhile py_space (drop (length dep) s))"
    and r: "r = skip_quote (dropWhile version_char (dropWhile py_space
              (drop 2 (dropWhile py_space (drop (length dep) s)))))"
    by (simp_all add: pin_body_def split: if_splits)
  let ?t = "dropWhile py_space (drop (length dep) s)"
  have "length r \<le> length (drop 2 ?t)"
    unfolding r using length_skip_quote length_dropWhile_le order_trans by metis
  moreover have "length (drop 2 ?t) < length ?t"
    using prefix_length_le [OF p] by simp
  moreover have "length ?t \<le> length s"
    using length_dropWhile_le [of py_space "drop (length dep) s"] by simp
  ultimately show ?thesis by simp
qed

lemma match_pin_shorter: "match_pin dep s = Some r \<Longrightarrow> length r < length s"
  using pin_body_shorter length_skip_quote unfolding match_pin_def by (metis less_le_trans)

text \<open>\<open>re.sub\<close> from left to right.\<close>

function sub_pins :: "string \<Rightarrow> piece list \<Rightarrow> string \<Rightarrow> string" where
  "sub_pins dep ps [] = []"
| "sub_pins dep ps (c # cs) =
     (case match_pin dep (c # cs) of
        Some r \<Rightarrow> expand ps (take (length (c # cs) - length r) (c # cs)) @ sub_pins dep ps r
      | None \<Rightarrow> c # sub_pins dep ps cs)"
  by pat_completeness auto
termination by (relation "measure (\<lambda>(dep, ps, s). length s)") (auto dest: match_pin_shorter)

section \<open>Updating the dependencies of a file\<close>

definition replacement :: "string \<Rightarrow> string \<Rightarrow> string \<Rightarrow> string" where
  "replacement dep ver content =
     (if quote \<in> set content then [quote] @ dep @ '' == '' @ ver @ [quote] else dep @ ''=='' @ ver)"

definition update_dep :: "string \<times> string \<Rightarrow> string \<times> bool \<Rightarrow> (string \<times> bool) res" where
  "update_dep = (\<lambda>(dep, ver) (content, updated).
     if has_pin dep content
     then bindr (template (replacement dep ver content)) (\<lambda>ps. Inr (sub_pins dep ps content, True))
     else Inr (content, updated))"

fun update_all :: "(string \<times> string) list \<Rightarrow> string \<times> bool \<Rightarrow> (string \<times> bool) res" where
  "update_all [] st = Inr st"
| "update_all (a # asg) st = bindr (update_dep a st) (update_all asg)"

definition assignment :: "string \<Rightarrow> string \<Rightarrow> (string \<times> string) list \<Rightarrow> (string \<times> string) list" where
  "assignment python_version contrib_version aws_versions =
     map (\<lambda>dep. (dep, python_version)) PYTHON_CORE_DEPS @ map (\<lambda>dep. (dep, contrib_version)) CONTRIB_DEPS
     @ filter (\<lambda>(dep, ver). ver \<noteq> []) aws_versions"

text \<open>The files by path, and the paths that cannot be opened for writing.\<close>

record disk =
  file_texts :: "(string \<times> string) list"
  read_only :: "string list"

definition update_file_dependencies ::
    "string \<Rightarrow> string \<Rightarrow> string \<Rightarrow> (string \<times> string) list \<Rightarrow> disk \<Rightarrow> bool res \<times> disk" where
  "update_file_dependencies file_path python_version contrib_version aws_versions d =
     (case map_of (file_texts d) file_path of
        None \<Rightarrow> (Inr False, d)
      | Some content \<Rightarrow>
          (case update_all (assignment python_version contrib_version aws_versions) (content, False) of
             Inl e \<Rightarrow> (Inl e, d)
           | Inr (new, updated) \<Rightarrow>
               if \<not> updated then (Inr False, d)
               else if file_path \<in> set (read_only d) then (Inr False, d)
               else (Inr True, d\<lparr>file_texts := AList.update file_path new (file_texts d)\<rparr>)))"

definition files_to_update :: "string list" where
  "files_to_update =
     [''aws-opentelemetry-distro/pyproject.toml'', ''contract-tests/images/mock-collector/pyproject.toml'',
      ''contract-tests/images/mock-collector/requirements.txt'', ''contract-tests/tests/pyproject.toml'',
      ''lambda-layer/src/tests/requirements.txt'']"

fun update_files ::
    "string list \<Rightarrow> string \<Rightarrow> string \<Rightarrow> (string \<times> string) list \<Rightarrow> bool \<Rightarrow> disk \<Rightarrow> bool res \<times> disk" where
  "update_files [] pv cv aws any_updated d = (Inr any_updated, d)"
| "update_files (f # fs) pv cv aws any_updated d =
     (case update_file_dependencies f pv cv aws d of
        (Inl e, d') \<Rightarrow> (Inl e, d')
      | (Inr u, d') \<Rightarrow> update_files fs pv cv aws (any_updated \<or> u) d')"

text \<open>An environment variable; the scripts treat an empty one as missing. \<open>SystemExit\<close> is \<open>sys.exit(1)\<close>.\<close>

definition env_text :: "(string \<times> string) list \<Rightarrow> string \<Rightarrow> string" where
  "env_text env n = (case map_of env n of Some v \<Rightarrow> v | None \<Rightarrow> [])"

definition system_exit :: exn where
  "system_exit = Foreign ''SystemExit''"

definition update_main :: "(string \<times> string) list \<Rightarrow> disk \<Rightarrow> bool res \<times> disk" where
  "update_main env d =
     (let pv = env_text env ''OTEL_PYTHON_VERSION''; cv = env_text env ''OTEL_CONTRIB_VERSION'';
          sdk = env_text env ''OPENTELEMETRY_SDK_EXTENSION_AWS_VERSION'';
          xray = env_text env ''OPENTELEMETRY_PROPAGATOR_AWS_XRAY_VERSION''
      in if pv = [] \<or> cv = [] then (Inl system_exit, d)
         else if sdk = [] \<or> xray = [] then (Inl system_exit, d)
         else update_files files_to_update pv cv
                [(''opentelemetry-sdk-extension-aws'', sdk), (''opentelemetry-propagator-aws-xray'', xray)] False d)"

section \<open>The newest versions\<close>

abbreviation then_scan :: "'a option \<Rightarrow> ('a \<Rightarrow> 'b option) \<Rightarrow> 'b option" where
  "then_scan \<equiv> Option.bind"

definition scan_text :: "string \<Rightarrow> string \<Rightarrow> string option" where
  "scan_text w s = (if prefix w s then Some (drop (length w) s) else None)"

text \<open>One or more characters of a kind, and what follows them.\<close>

definition scan_many :: "(char \<Rightarrow> bool) \<Rightarrow> string \<Rightarrow> (string \<times> string) option" where
  "scan_many P s = (if takeWhile P s = [] then None else Some (takeWhile P s, dropWhile P s))"

definition scan_core_version :: "string \<Rightarrow> (string \<times> string) option" where
  "scan_core_version s =
     then_scan (scan_many is_dec s) (\<lambda>(a, s1). then_scan (scan_text ''.'' s1) (\<lambda>s2.
     then_scan (scan_many is_dec s2) (\<lambda>(b, s3). then_scan (scan_text ''.'' s3) (\<lambda>s4.
     then_scan (scan_many is_dec s4) (\<lambda>(c, s5). Some (a @ ''.'' @ b @ ''.'' @ c, s5))))))"

definition scan_contrib_version :: "string \<Rightarrow> (string \<times> string) option" where
  "scan_contrib_version s =
     then_scan (scan_many is_dec s) (\<lambda>(a, s1). then_scan (scan_text ''.'' s1) (\<lambda>s2.
     then_scan (scan_many is_dec s2) (\<lambda>(b, s3). then_scan (scan_text ''b'' s3) (\<lambda>s4.
     then_scan (scan_many is_dec s4) (\<lambda>(c, s5). Some (a @ ''.'' @ b @ ''b'' @ c, s5))))))"

definition scan_title :: "string \<Rightarrow> (string \<times> string) option" where
  "scan_title s =
     then_scan (scan_text ''Version'' s) (\<lambda>s1. then_scan (scan_many py_space s1) (\<lambda>(_, s2).
     then_scan (scan_core_version s2) (\<lambda>(core, s3). then_scan (scan_text ''/'' s3) (\<lambda>s4.
     then_scan (scan_contrib_version s4) (\<lambda>(contrib, _). Some (core, contrib))))))"

text \<open>\<open>re.search\<close>: the first place where the scanner succeeds.\<close>

fun search :: "(string \<Rightarrow> 'a option) \<Rightarrow> string \<Rightarrow> 'a option" where
  "search p [] = p []"
| "search p (c # cs) = (case p (c # cs) of Some x \<Rightarrow> Some x | None \<Rightarrow> search p cs)"

definition request_error :: exn where
  "request_error = Foreign ''RequestException''"

text \<open>The reply of GitHub: an exception of the request or of a bad status, or the decoded body.\<close>

definition get_latest_otel_versions :: "json res \<Rightarrow> (string \<times> string) res" where
  "get_latest_otel_versions reply =
     (case reply of
        Inl e \<Rightarrow> Inl (if e = request_error then system_exit else e)
      | Inr release_data \<Rightarrow>
          bindr (get_item release_data ''name'') (\<lambda>title.
            case title of
              JStr t \<Rightarrow> (case search scan_title t of None \<Rightarrow> Inl system_exit | Some v \<Rightarrow> Inr v)
            | _ \<Rightarrow> Inl TypeError))"

text \<open>A bracket with at least one character that is not a closing bracket, and a closing bracket.\<close>

definition scan_bracket :: "string \<Rightarrow> string option" where
  "scan_bracket s =
     then_scan (scan_text ''('' s) (\<lambda>s1. then_scan (scan_many (\<lambda>c. c \<noteq> CHR '')'') s1) (\<lambda>(v, s2).
     then_scan (scan_text '')'' s2) (\<lambda>_. Some v)))"

definition pip_version :: "string \<Rightarrow> string option" where
  "pip_version stdout = search scan_bracket (hd (py_split (char_of (10 :: nat)) (py_strip stdout)))"

text \<open>The output of \<open>pip index versions\<close> for each dependency, or the exception of the subprocess.\<close>

fun aws_versions_from ::
    "(string \<Rightarrow> string res) \<Rightarrow> string list \<Rightarrow> (string \<times> string) list \<Rightarrow> (string \<times> string) list res" where
  "aws_versions_from pip [] versions = Inr versions"
| "aws_versions_from pip (dep # deps) versions =
     (case pip dep of
        Inl e \<Rightarrow> Inl (if e \<in> {Foreign ''CalledProcessError'', IndexError, AttributeError} then system_exit else e)
      | Inr stdout \<Rightarrow>
          aws_versions_from pip deps
            (case pip_version stdout of None \<Rightarrow> versions | Some v \<Rightarrow> AList.update dep v versions))"

definition get_latest_aws_versions :: "(string \<Rightarrow> string res) \<Rightarrow> (string \<times> string) list res" where
  "get_latest_aws_versions pip = aws_versions_from pip AWS_DEPS []"

text \<open>What is printed and what is appended to the file of \<open>GITHUB_OUTPUT\<close>: names with their values.\<close>

definition printed_versions :: "string \<times> string \<Rightarrow> (string \<times> string) list \<Rightarrow> (string \<times> string) list" where
  "printed_versions = (\<lambda>(core, contrib) aws.
     [(''OTEL_PYTHON_VERSION'', core), (''OTEL_CONTRIB_VERSION'', contrib)]
     @ map (\<lambda>(dep, ver). (py_upper (py_replace ''-'' ''_'' dep) @ ''_VERSION'', ver)) aws)"

definition output_versions :: "string \<times> string \<Rightarrow> (string \<times> string) list \<Rightarrow> (string \<times> string) list" where
  "output_versions = (\<lambda>(core, contrib) aws.
     [(''otel_python_version'', core), (''otel_contrib_version'', contrib)]
     @ map (\<lambda>(dep, ver). (py_lower (py_replace ''-'' ''_'' dep) @ ''_version'', ver)) aws)"

definition binding_line :: "string \<times> string \<Rightarrow> string" where
  "binding_line = (\<lambda>(n, v). n @ ''='' @ v)"

definition upstream_main ::
    "json res \<Rightarrow> (string \<Rightarrow> string res) \<Rightarrow> (string \<times> string) list \<Rightarrow> (string list \<times> string option) res" where
  "upstream_main reply pip env =
     bindr (get_latest_otel_versions reply) (\<lambda>otel. bindr (get_latest_aws_versions pip) (\<lambda>aws.
       Inr (map binding_line (printed_versions otel aws),
         if map_of env ''GITHUB_OUTPUT'' \<noteq> None
         then Some (concat (map (\<lambda>b. binding_line b @ [char_of (10 :: nat)]) (output_versions otel aws)))
         else None)))"

section \<open>Releases with breaking changes\<close>

definition scan_current :: "string \<Rightarrow> string \<Rightarrow> string option" where
  "scan_current dep s =
     then_scan (scan_text ([quote] @ dep @ '' == '') s) (\<lambda>s1.
       if quote \<in> set s1 then Some (takeWhile (\<lambda>c. c \<noteq> quote) s1) else None)"

definition get_current_version_from_pyproject :: "disk \<Rightarrow> string option \<times> string option" where
  "get_current_version_from_pyproject d =
     (case map_of (file_texts d) ''aws-opentelemetry-distro/pyproject.toml'' of
        None \<Rightarrow> (None, None)
      | Some content \<Rightarrow>
          (search (scan_current ''opentelemetry-api'') content, search (scan_current ''opentelemetry-distro'') content))"

text \<open>The heading, at the start of a line, in capitals or not.\<close>

definition breaking_heading :: "string \<Rightarrow> bool" where
  "breaking_heading s \<longleftrightarrow>
     (let after = (if prefix ''#'' s then Some (dropWhile (\<lambda>c. c = CHR ''#'') s)
                   else if prefix ''**'' s then Some (drop 2 s) else None)
      in case after of
           None \<Rightarrow> False
         | Some r \<Rightarrow> prefix ''breaking changes'' (py_lower (dropWhile py_space r)))"

fun heading_below :: "bool \<Rightarrow> string \<Rightarrow> bool" where
  "heading_below at_start [] \<longleftrightarrow> False"
| "heading_below at_start (c # cs) \<longleftrightarrow>
     at_start \<and> breaking_heading (c # cs) \<or> heading_below (ord c = 10) cs"

definition has_breaking_heading :: "string \<Rightarrow> bool" where
  "has_breaking_heading body \<longleftrightarrow> heading_below True body"

text \<open>
  \<open>newer a b\<close> is the comparison of two parsed versions, with the exception of one that does not parse. The
  order of versions is total, so \<open>a <= b\<close> is that \<open>a\<close> is not newer. A \<open>ValueError\<close>
  (\<open>InvalidVersion\<close> is one) and a \<open>KeyError\<close> skip the release.
\<close>

record release_info =
  release_version :: string
  release_name :: json
  release_url :: json
  release_body :: json

definition examine_release ::
    "(string \<Rightarrow> string \<Rightarrow> bool res) \<Rightarrow> string \<Rightarrow> string \<Rightarrow> string \<Rightarrow> json \<Rightarrow> release_info option res" where
  "examine_release newer current new ver release =
     bindr (newer ver current) (\<lambda>later.
     bindr (if later then bindr (newer ver new) (\<lambda>beyond. Inr (\<not> beyond)) else Inr False) (\<lambda>between.
       if \<not> between then Inr None
       else bindr (get_default release ''body'' (JStr [])) (\<lambda>body.
         case body of
           JStr text \<Rightarrow>
             if \<not> has_breaking_heading text then Inr None
             else bindr (get_item release ''name'') (\<lambda>name. bindr (get_item release ''html_url'') (\<lambda>url.
               Inr (Some \<lparr>release_version = ver, release_name = name, release_url = url, release_body = body\<rparr>)))
         | _ \<Rightarrow> Inl TypeError)))"

fun breaking_releases ::
    "(string \<Rightarrow> string \<Rightarrow> bool res) \<Rightarrow> string \<Rightarrow> string \<Rightarrow> json list \<Rightarrow> release_info list res" where
  "breaking_releases newer current new [] = Inr []"
| "breaking_releases newer current new (release # rs) =
     bindr (get_item release ''tag_name'') (\<lambda>tag.
       case tag of
         JStr t \<Rightarrow>
           (case examine_release newer current new (dropWhile (\<lambda>c. c = CHR ''v'') t) release of
              Inl e \<Rightarrow> if e \<in> {ValueError, KeyError} then breaking_releases newer current new rs else Inl e
            | Inr found \<Rightarrow>
                bindr (breaking_releases newer current new rs) (\<lambda>more.
                  Inr (case found of None \<Rightarrow> more | Some i \<Rightarrow> i # more)))
       | _ \<Rightarrow> Inl AttributeError)"

definition get_releases_with_breaking_changes ::
    "(string \<Rightarrow> string \<Rightarrow> bool res) \<Rightarrow> (string \<Rightarrow> json res) \<Rightarrow> string \<Rightarrow> string \<Rightarrow> string \<Rightarrow> release_info list res" where
  "get_releases_with_breaking_changes newer github repo current new =
     (case bindr (github repo) (\<lambda>releases. bindr (iterate releases) (breaking_releases newer current new)) of
        Inl e \<Rightarrow> Inl (if e = request_error then system_exit else e)
      | Inr found \<Rightarrow> Inr found)"

definition release_line :: "(json \<Rightarrow> string) \<Rightarrow> release_info \<Rightarrow> string" where
  "release_line str_json i =
     ''- ['' @ text_value str_json (release_name i) @ '']('' @ text_value str_json (release_url i) @ '')'' @ [char_of (10 :: nat)]"

definition breaking_info ::
    "(json \<Rightarrow> string) \<Rightarrow> release_info list \<Rightarrow> release_info list \<Rightarrow> string" where
  "breaking_info str_json core contrib =
     (if core \<noteq> [] then ''**opentelemetry-python:**'' @ [char_of (10 :: nat)] @ concat (map (release_line str_json) core) else [])
     @ (if contrib \<noteq> []
        then [char_of (10 :: nat)] @ ''**opentelemetry-python-contrib:**'' @ [char_of (10 :: nat)]
             @ concat (map (release_line str_json) contrib) else [])"

text \<open>What is appended to the output file, if there is one.\<close>

definition breaking_main ::
    "(json \<Rightarrow> string) \<Rightarrow> (string \<Rightarrow> string \<Rightarrow> bool res) \<Rightarrow> (string \<Rightarrow> json res) \<Rightarrow> (string \<times> string) list \<Rightarrow> disk \<Rightarrow>
     string option res" where
  "breaking_main str_json newer github env d =
     (let new_core = env_text env ''OTEL_PYTHON_VERSION''; new_contrib = env_text env ''OTEL_CONTRIB_VERSION''
      in if new_core = [] \<or> new_contrib = [] then Inl system_exit
         else case get_current_version_from_pyproject d of
           (Some core, Some contrib) \<Rightarrow>
             if core = [] \<or> contrib = [] then Inl system_exit
             else bindr (get_releases_with_breaking_changes newer github ''opentelemetry-python'' core new_core) (\<lambda>cs.
               bindr (get_releases_with_breaking_changes newer github ''opentelemetry-python-contrib'' contrib new_contrib)
                 (\<lambda>ks. Inr (if env_text env ''GITHUB_OUTPUT'' \<noteq> []
                           then Some (''breaking_changes_info<<EOF'' @ [char_of (10 :: nat)]
                                 @ breaking_info str_json cs ks @ ''EOF'' @ [char_of (10 :: nat)])
                           else None)))
         | _ \<Rightarrow> Inl system_exit)"

section \<open>The readme check\<close>

text \<open>
  \<open>valid\<close> is the renderer on the file below a path; a missing file is reported and is no error for the exit
  code.
\<close>

fun readme_errors :: "(string \<Rightarrow> bool res) \<Rightarrow> string list \<Rightarrow> bool res" where
  "readme_errors valid [] = Inr False"
| "readme_errors valid (p # ps) =
     (case valid p of
        Inl e \<Rightarrow> if e = Foreign ''FileNotFoundError'' then readme_errors valid ps else Inl e
      | Inr ok \<Rightarrow> bindr (readme_errors valid ps) (\<lambda>err. Inr (\<not> ok \<or> err)))"

definition readme_main :: "(string \<Rightarrow> bool res) \<Rightarrow> string list \<Rightarrow> unit res" where
  "readme_main valid ps = bindr (readme_errors valid ps) (\<lambda>err. if err then Inl system_exit else Inr ())"

end
