(* ===== verification/PinUpdates.thy ===== *)
theory PinUpdates
  imports Release
begin

text \<open>
  What the scripts of \<open>Release\<close> do to a dependency list of quoted pins: the scanner is the expression of the source,
  one replacement changes exactly the pins of one dependency, all replacements give every listed pin its new version,
  and the versions written are the ones read back.
\<close>

section \<open>Texts with pins\<close>

text \<open>
  A dependency list: pins in quotes, each behind some text, and a last text. A pin is the text before it, the
  name, the blanks around \<open>==\<close> and the version.
\<close>

type_synonym pin = "string \<times> string \<times> string \<times> string \<times> string"

definition pin_text :: "string \<Rightarrow> string \<Rightarrow> string \<Rightarrow> string \<Rightarrow> string" where
  "pin_text dep b1 b2 v = [quote] @ dep @ b1 @ ''=='' @ b2 @ v @ [quote]"

fun render :: "pin list \<Rightarrow> string \<Rightarrow> string" where
  "render [] tail = tail"
| "render ((t, dep, b1, b2, v) # ps) tail = t @ pin_text dep b1 b2 v @ render ps tail"

definition plain_name :: "string \<Rightarrow> bool" where
  "plain_name dep \<longleftrightarrow> dep \<noteq> [] \<and> list_all (\<lambda>c. c \<notin> {quote, CHR ''='', CHR 0x5C} \<and> \<not> py_space c) dep"

definition plain_version :: "string \<Rightarrow> bool" where
  "plain_version v \<longleftrightarrow> list_all (\<lambda>c. version_char c \<and> c \<notin> {CHR ''='', CHR 0x5C}) v"

definition pin_for :: "string \<Rightarrow> pin \<Rightarrow> bool" where
  "pin_for dep = (\<lambda>(t, d, b1, b2, v).
     \<not> has_pin dep t \<and> plain_name d \<and> list_all py_space b1 \<and> list_all py_space b2 \<and> plain_version v
     \<and> (d = dep \<or> \<not> suffix dep d))"

definition repin :: "string \<Rightarrow> string \<Rightarrow> pin \<Rightarrow> pin" where
  "repin dep ver = (\<lambda>(t, d, b1, b2, v). if d = dep then (t, d, '' '', '' '', ver) else (t, d, b1, b2, v))"

section \<open>Scanning\<close>

lemma pin_body_None:
  "pin_body dep s = None \<longleftrightarrow> \<not> (prefix dep s \<and> prefix ''=='' (dropWhile py_space (drop (length dep) s)))"
  by (simp add: pin_body_def)

lemma prefix_before:
  assumes "prefix w (x @ r)" "r = [] \<or> hd r \<notin> set w"
  shows "prefix w x"
  using assms(1) unfolding prefix_append
proof
  assume "\<exists>us. w = x @ us \<and> prefix us r"
  then obtain us where "w = x @ us" "prefix us r" by blast
  with assms(2) show ?thesis by (cases us; cases r) auto
qed

lemma quote_facts: "\<not> py_space quote" "quote \<noteq> CHR ''=''" "\<not> version_char quote" "version_char c \<Longrightarrow> \<not> py_space c"
  "\<not> py_space CHR ''=''"
  by (simp_all add: py_space_def version_char_def)

lemma dropWhile_before:
  "r = [] \<or> hd r = quote \<Longrightarrow> dropWhile py_space (x @ r) = dropWhile py_space x @ r"
  by (induction x) (auto simp: quote_facts intro: dropWhile_eq_self_iff [THEN iffD2])

lemma plain_name_no:
  "plain_name dep \<Longrightarrow> quote \<notin> set dep" "plain_name dep \<Longrightarrow> CHR ''='' \<notin> set dep"
  "plain_name dep \<Longrightarrow> c \<in> set dep \<Longrightarrow> \<not> py_space c" "plain_name dep \<Longrightarrow> dep \<noteq> []"
  by (auto simp: plain_name_def list_all_iff)

lemma pin_body_before:
  assumes "plain_name dep" "r = [] \<or> hd r = quote" "pin_body dep x = None"
  shows "pin_body dep (x @ r) = None"
proof (rule ccontr)
  assume "pin_body dep (x @ r) \<noteq> None"
  then have p: "prefix dep (x @ r)" and q: "prefix ''=='' (dropWhile py_space (drop (length dep) (x @ r)))"
    by (simp_all add: pin_body_None)
  have "prefix dep x" using prefix_before [OF p] assms plain_name_no by metis
  moreover from this have "drop (length dep) (x @ r) = drop (length dep) x @ r"
    using prefix_length_le by fastforce
  with q have "prefix ''=='' (dropWhile py_space (drop (length dep) x) @ r)"
    by (simp add: dropWhile_before [OF assms(2)])
  then have "prefix ''=='' (dropWhile py_space (drop (length dep) x))"
    by (rule prefix_before) (use assms(2) quote_facts(2) in auto)
  ultimately show False using assms(3) by (simp add: pin_body_None)
qed

lemma pin_body_quote: "plain_name dep \<Longrightarrow> pin_body dep (quote # s) = None"
  using plain_name_no(1) by (cases dep) (auto simp: pin_body_None plain_name_def)

lemma has_pin_suffix: "plain_name dep \<Longrightarrow> has_pin dep s \<longleftrightarrow> (\<exists>v. suffix v s \<and> pin_body dep v \<noteq> None)"
proof (induction s)
  case Nil
  then show ?case by (simp add: match_pin_def skip_quote_def)
next
  case (Cons c cs)
  have "match_pin dep (c # cs) \<noteq> None \<or> has_pin dep cs \<longleftrightarrow> pin_body dep (c # cs) \<noteq> None \<or> has_pin dep cs"
    using Cons pin_body_quote [OF Cons.prems, of cs]
    by (cases "c = quote") (auto simp: match_pin_def skip_quote_def)
  then show ?case using Cons by (auto simp: suffix_Cons)
qed

text \<open>No match starts in a text that is followed by another one.\<close>

definition unmatched :: "string \<Rightarrow> string \<Rightarrow> string \<Rightarrow> bool" where
  "unmatched dep t r \<longleftrightarrow> (\<forall>v. suffix v t \<longrightarrow> v \<noteq> [] \<longrightarrow> match_pin dep (v @ r) = None)"

lemma unmatched_Cons:
  "unmatched dep (c # t) r \<Longrightarrow> match_pin dep (c # t @ r) = None \<and> unmatched dep t r"
  unfolding unmatched_def by (metis append_Cons list.distinct(1) suffix_ConsI suffix_order.refl)

lemma sub_pins_skip: "unmatched dep t r \<Longrightarrow> sub_pins dep ps (t @ r) = t @ sub_pins dep ps r"
  by (induction t) (auto dest!: unmatched_Cons)

lemma has_pin_skip: "unmatched dep t r \<Longrightarrow> has_pin dep (t @ r) = has_pin dep r"
  by (induction t) (auto dest!: unmatched_Cons)

lemma unmatched_text:
  assumes "plain_name dep" "\<not> has_pin dep t" "r = [] \<or> hd r = quote"
  shows "unmatched dep t r"
  unfolding unmatched_def
proof (intro allI impI)
  fix v assume v: "suffix v t" "v \<noteq> []"
  have "suffix (skip_quote v) t" using v by (cases v) (auto simp: skip_quote_def dest: suffix_ConsD)
  then have "pin_body dep (skip_quote v) = None" using assms(2) by (auto simp: has_pin_suffix [OF assms(1)])
  then have "pin_body dep (skip_quote v @ r) = None" by (rule pin_body_before [OF assms(1,3)])
  moreover have "skip_quote (v @ r) = skip_quote v @ r" using v by (auto simp: skip_quote_def)
  ultimately show "match_pin dep (v @ r) = None" by (simp add: match_pin_def)
qed


text \<open>A pin of another dependency is passed over, one of the dependency itself is matched whole.\<close>

lemma no_equals: "CHR ''='' \<notin> set s \<Longrightarrow> pin_body dep s = None"
proof -
  assume a: "CHR ''='' \<notin> set s"
  have "set (dropWhile py_space (drop (length dep) s)) \<subseteq> set s"
    by (meson set_dropWhileD in_set_dropD subsetI)
  with a have "\<not> prefix ''=='' (dropWhile py_space (drop (length dep) s))"
    by (auto dest!: set_mono_prefix)
  then show ?thesis by (simp add: pin_body_None)
qed

lemma pin_body_bad_start:
  "plain_name dep \<Longrightarrow> c = CHR ''='' \<or> py_space c \<Longrightarrow> pin_body dep (c # s) = None"
  by (cases dep) (auto simp: pin_body_None plain_name_def)

lemma other_name:
  assumes "plain_name dep" "x \<noteq> []" "suffix x d" "plain_name d" "d = dep \<or> \<not> suffix dep d" "d \<noteq> dep"
    "list_all py_space b1"
  shows "pin_body dep (x @ b1 @ CHR ''='' # s) = None"
proof (rule ccontr)
  let ?r = "b1 @ CHR ''='' # s"
  assume "pin_body dep (x @ ?r) \<noteq> None"
  then have p: "prefix dep (x @ ?r)" and q: "prefix ''=='' (dropWhile py_space (drop (length dep) (x @ ?r)))"
    by (simp_all add: pin_body_None)
  have "?r = [] \<or> hd ?r \<notin> set dep"
    using assms(1,7) plain_name_no by (cases b1) auto
  then have "prefix dep x" using prefix_before [OF p] by blast
  then obtain y where y: "x = dep @ y" by (rule prefixE)
  have "y \<noteq> []" using y assms(3,5,6) by auto
  then obtain z zs where z: "y = z # zs" by (cases y) auto
  have "z \<in> set d" using y z set_mono_suffix [OF assms(3)] by auto
  then have "\<not> py_space z" "z \<noteq> CHR ''=''" using assms(4) plain_name_no by blast+
  with q y z show False by simp
qed

lemma suffix_parts: "suffix x (a @ b) \<Longrightarrow> suffix x b \<or> (\<exists>y. y \<noteq> [] \<and> suffix y a \<and> x = y @ b)"
  by (auto simp: suffix_append)

lemma has_pin_other:
  assumes "plain_name dep" "plain_name d" "d = dep \<or> \<not> suffix dep d" "d \<noteq> dep"
    "list_all py_space b1" "list_all py_space b2" "plain_version v"
  shows "\<not> has_pin dep (d @ b1 @ ''=='' @ b2 @ v)"
proof
  assume "has_pin dep (d @ b1 @ ''=='' @ b2 @ v)"
  then obtain x where x: "suffix x (d @ b1 @ ''=='' @ b2 @ v)" "pin_body dep x \<noteq> None"
    using has_pin_suffix [OF assms(1)] by blast
  have tail: "CHR ''='' \<notin> set (b2 @ v)"
    using assms(6,7) quote_facts(5) by (auto simp: plain_version_def list_all_iff)
  from suffix_parts [OF x(1)] consider
    (name) y where "y \<noteq> []" "suffix y d" "x = y @ b1 @ ''=='' @ b2 @ v"
    | (rest) "suffix x (b1 @ ''=='' @ b2 @ v)" by blast
  then show False
  proof cases
    case name
    then show False using other_name [OF assms(1) name(1,2) assms(2,3,4,5)] x(2) by simp
  next
    case rest
    from suffix_parts [OF this] consider
      (blank) y where "y \<noteq> []" "suffix y b1" "x = y @ ''=='' @ b2 @ v"
      | (eq) "suffix x (''=='' @ b2 @ v)" by blast
    then show False
    proof cases
      case blank
      then obtain c cs where "y = c # cs" "py_space c"
        using assms(5) set_mono_suffix [OF blank(2)] by (cases y) (auto simp: list_all_iff)
      then show False using blank x(2) pin_body_bad_start [OF assms(1)] by simp
    next
      case eq
      then have "x = ''=='' @ b2 @ v \<or> x = ''='' @ b2 @ v \<or> suffix x (b2 @ v)" by (auto simp: suffix_Cons)
      then show False
        using x(2) pin_body_bad_start [OF assms(1)] no_equals tail set_mono_suffix by (metis append_Cons subsetD)
    qed
  qed
qed

lemma match_own:
  assumes "plain_name dep" "list_all py_space b1" "list_all py_space b2" "plain_version v"
  shows "match_pin dep (pin_text dep b1 b2 v @ r) = Some r"
proof -
  have d1: "dropWhile py_space (b1 @ ''=='' @ s) = ''=='' @ s" for s
    using assms(2) by (induction b1) (auto simp: py_space_def)
  have "dropWhile py_space (v @ quote # r) = v @ quote # r"
    using assms(4) quote_facts by (cases v) (auto simp: plain_version_def)
  then have d2: "dropWhile py_space (b2 @ v @ quote # r) = v @ quote # r"
    using assms(3) by (induction b2) auto
  have d3: "dropWhile version_char (v @ quote # r) = quote # r"
    using assms(4) quote_facts by (induction v) (auto simp: plain_version_def)
  show ?thesis
    using d1 [of "b2 @ v @ quote # r"] d2 d3
    by (simp add: match_pin_def skip_quote_def pin_text_def pin_body_def)
qed


section \<open>New pins\<close>

definition new_pin :: "string \<Rightarrow> string \<Rightarrow> string" where
  "new_pin dep ver = pin_text dep '' '' '' '' ver"

lemma template_plain: "CHR 0x5C \<notin> set s \<Longrightarrow> template s = Inr (map Lit s)"
  by (induction s) auto

lemma expand_Lit: "expand (map Lit s) whole = s"
  by (simp add: expand_def comp_def)

lemma sub_own:
  assumes "plain_name dep" "list_all py_space b1" "list_all py_space b2" "plain_version v"
  shows "sub_pins dep (map Lit s) (pin_text dep b1 b2 v @ r) = s @ sub_pins dep (map Lit s) r"
    and "has_pin dep (pin_text dep b1 b2 v @ r)"
proof -
  obtain c cs where c: "pin_text dep b1 b2 v @ r = c # cs" by (simp add: pin_text_def)
  with match_own [OF assms, of r] have "match_pin dep (c # cs) = Some r" by simp
  then show "sub_pins dep (map Lit s) (pin_text dep b1 b2 v @ r) = s @ sub_pins dep (map Lit s) r"
    "has_pin dep (pin_text dep b1 b2 v @ r)" unfolding c by (simp_all add: expand_Lit)
qed

lemma suffix_quoted:
  "suffix x (quote # m @ [quote]) \<Longrightarrow> x \<noteq> [] \<Longrightarrow>
     x = quote # m @ [quote] \<or> x = [quote] \<or> (\<exists>y. y \<noteq> [] \<and> suffix y m \<and> x = y @ [quote])"
  by (auto simp: suffix_Cons suffix_append)

lemma unmatched_other:
  assumes "plain_name dep" "plain_name d" "d = dep \<or> \<not> suffix dep d" "d \<noteq> dep"
    "list_all py_space b1" "list_all py_space b2" "plain_version v" "pin_body dep r = None"
  shows "unmatched dep (pin_text d b1 b2 v) r"
  unfolding unmatched_def
proof (intro allI impI)
  fix x assume x: "suffix x (pin_text d b1 b2 v)" "x \<noteq> []"
  let ?m = "d @ b1 @ ''=='' @ b2 @ v"
  have m: "pin_body dep (y @ quote # r) = None" if "suffix y ?m" for y
    using has_pin_other [OF assms(1-7)] that pin_body_before [OF assms(1)] has_pin_suffix [OF assms(1)] by simp
  have "d \<noteq> []" "hd d \<noteq> quote" using assms(2) by (auto simp: plain_name_def list_all_iff)
  have "pin_text d b1 b2 v = quote # ?m @ [quote]" by (simp add: pin_text_def)
  with x suffix_quoted [of x ?m] consider
    "x = quote # ?m @ [quote]" | "x = [quote]" | y where "y \<noteq> []" "suffix y ?m" "x = y @ [quote]" by metis
  then show "match_pin dep (x @ r) = None"
  proof cases
    case 1
    then show ?thesis using m [of ?m] by (simp add: match_pin_def skip_quote_def)
  next
    case 2
    then show ?thesis using assms(8) by (simp add: match_pin_def skip_quote_def)
  next
    case 3
    have "suffix (skip_quote y) ?m" using 3(1,2) by (cases y) (auto simp: skip_quote_def dest: suffix_ConsD)
    then have "pin_body dep (skip_quote y @ quote # r) = None" by (rule m)
    moreover have "skip_quote (x @ r) = skip_quote y @ quote # r" using 3 by (simp add: skip_quote_def)
    ultimately show ?thesis by (simp add: match_pin_def)
  qed
qed


definition wf_pins :: "string \<Rightarrow> pin list \<Rightarrow> string \<Rightarrow> bool" where
  "wf_pins dep ps tail \<longleftrightarrow> plain_name dep \<and> list_all (pin_for dep) ps \<and> \<not> has_pin dep tail"

definition pin_names :: "pin list \<Rightarrow> string list" where
  "pin_names ps = map (\<lambda>(t, d, b1, b2, v). d) ps"

lemma wf_pins_Cons:
  "wf_pins dep ((t, d, b1, b2, v) # ps) tail \<longleftrightarrow> pin_for dep (t, d, b1, b2, v) \<and> wf_pins dep ps tail"
  by (auto simp: wf_pins_def)

lemma starts_with_pin: "pin_text d b1 b2 v @ s = [] \<or> hd (pin_text d b1 b2 v @ s) = quote"
  by (simp add: pin_text_def)

lemma render_start: "wf_pins dep ps tail \<Longrightarrow> pin_body dep (render ps tail) = None"
proof (cases ps)
  case Nil
  assume "wf_pins dep ps tail"
  then show ?thesis using Nil has_pin_suffix [of dep tail] by (auto simp: wf_pins_def)
next
  case (Cons p qs)
  assume w: "wf_pins dep ps tail"
  obtain t d b1 b2 v where p: "p = (t, d, b1, b2, v)" by (cases p)
  have n: "plain_name dep" and t: "\<not> has_pin dep t" using w Cons p by (auto simp: wf_pins_def pin_for_def)
  then have "pin_body dep t = None" using has_pin_suffix [OF n] by blast
  then show ?thesis using pin_body_before [OF n starts_with_pin] Cons p by simp
qed

text \<open>One replacement on a whole dependency list.\<close>

lemma one_pin:
  assumes "wf_pins dep ((t, d, b1, b2, v) # ps) tail"
  shows "sub_pins dep (map Lit s) (render ((t, d, b1, b2, v) # ps) tail)
           = t @ (if d = dep then s else pin_text d b1 b2 v) @ sub_pins dep (map Lit s) (render ps tail)"
    and "has_pin dep (render ((t, d, b1, b2, v) # ps) tail) \<longleftrightarrow> d = dep \<or> has_pin dep (render ps tail)"
proof -
  let ?r = "render ps tail"
  have n: "plain_name dep" and t: "\<not> has_pin dep t" and d: "plain_name d"
    and b: "list_all py_space b1" "list_all py_space b2" and v: "plain_version v"
    and x: "d = dep \<or> \<not> suffix dep d" and w: "wf_pins dep ps tail"
    using assms by (auto simp: wf_pins_Cons pin_for_def wf_pins_def)
  have u: "unmatched dep t (pin_text d b1 b2 v @ ?r)"
    using unmatched_text [OF n t starts_with_pin] .
  have o: "unmatched dep (pin_text d b1 b2 v) ?r" if "d \<noteq> dep"
    using unmatched_other [OF n d x that b v render_start [OF w]] .
  show "sub_pins dep (map Lit s) (render ((t, d, b1, b2, v) # ps) tail)
          = t @ (if d = dep then s else pin_text d b1 b2 v) @ sub_pins dep (map Lit s) ?r"
    using sub_pins_skip [OF u] sub_pins_skip [OF o] sub_own(1) [OF d b v] by (cases "d = dep") simp_all
  show "has_pin dep (render ((t, d, b1, b2, v) # ps) tail) \<longleftrightarrow> d = dep \<or> has_pin dep ?r"
    using has_pin_skip [OF u] has_pin_skip [OF o] sub_own(2) [OF d b v] by auto
qed

lemma has_pin_render: "wf_pins dep ps tail \<Longrightarrow> has_pin dep (render ps tail) \<longleftrightarrow> dep \<in> set (pin_names ps)"
proof (induction ps)
  case Nil
  then show ?case by (simp add: wf_pins_def pin_names_def)
next
  case (Cons p ps)
  obtain t d b1 b2 v where p: "p = (t, d, b1, b2, v)" by (cases p)
  have "wf_pins dep ps tail" using Cons.prems p by (simp add: wf_pins_Cons)
  then show ?case using one_pin(2) [OF Cons.prems [unfolded p]] Cons.IH p by (auto simp: pin_names_def)
qed

lemma sub_pins_tail: "plain_name dep \<Longrightarrow> \<not> has_pin dep tail \<Longrightarrow> sub_pins dep qs tail = tail"
  using unmatched_text [of dep tail "[]"] sub_pins_skip [of dep tail "[]"] by simp

lemma sub_render:
  "wf_pins dep ps tail \<Longrightarrow>
     sub_pins dep (map Lit (new_pin dep ver)) (render ps tail) = render (map (repin dep ver) ps) tail"
proof (induction ps)
  case Nil
  then show ?case by (simp add: wf_pins_def sub_pins_tail)
next
  case (Cons p ps)
  obtain t d b1 b2 v where p: "p = (t, d, b1, b2, v)" by (cases p)
  have "wf_pins dep ps tail" using Cons.prems p by (simp add: wf_pins_Cons)
  then show ?case using one_pin(1) [OF Cons.prems [unfolded p], of "new_pin dep ver"] Cons.IH p
    by (simp add: repin_def new_pin_def)
qed

lemma quote_in_render: "ps \<noteq> [] \<Longrightarrow> quote \<in> set (render ps tail)"
  by (cases ps) (auto simp: pin_text_def)

lemma new_pin_template:
  assumes "plain_name dep" "plain_version ver"
  shows "template (new_pin dep ver) = Inr (map Lit (new_pin dep ver))"
  by (rule template_plain)
    (use assms in \<open>auto simp: new_pin_def pin_text_def plain_name_def plain_version_def list_all_iff\<close>)

lemma update_dep_render:
  assumes "wf_pins dep ps tail" "plain_version ver"
  shows "update_dep (dep, ver) (render ps tail, u)
           = Inr (render (map (repin dep ver) ps) tail, u \<or> dep \<in> set (pin_names ps))"
proof (cases "dep \<in> set (pin_names ps)")
  case True
  then have "quote \<in> set (render ps tail)" using quote_in_render by (cases ps) (auto simp: pin_names_def)
  then have "replacement dep ver (render ps tail) = new_pin dep ver"
    by (simp add: replacement_def new_pin_def pin_text_def)
  moreover have "plain_name dep" using assms(1) by (simp add: wf_pins_def)
  ultimately show ?thesis
    using True has_pin_render [OF assms(1)] new_pin_template [OF _ assms(2)] sub_render [OF assms(1)]
    by (simp add: update_dep_def)
next
  case False
  then have "map (repin dep ver) ps = ps"
    by (intro map_idI) (force simp: repin_def pin_names_def)
  then show ?thesis using False has_pin_render [OF assms(1)] by (simp add: update_dep_def)
qed

lemma wf_repin:
  assumes "wf_pins dep ps tail" "plain_version ver"
  shows "wf_pins dep (map (repin d ver) ps) tail"
proof -
  have "pin_for dep (repin d ver p)" if "pin_for dep p" for p
    using that assms(2) by (cases p) (auto simp: pin_for_def repin_def py_space_def)
  then show ?thesis using assms(1) by (auto simp: wf_pins_def list_all_iff)
qed

text \<open>All replacements: what the file becomes.\<close>

definition repinned :: "(string \<times> string) list \<Rightarrow> pin \<Rightarrow> pin" where
  "repinned asg = (\<lambda>(t, d, b1, b2, v).
     case map_of asg d of None \<Rightarrow> (t, d, b1, b2, v) | Some ver \<Rightarrow> (t, d, '' '', '' '', ver))"

lemma pin_names_repin: "pin_names (map (repin d ver) ps) = pin_names ps"
  by (auto simp: pin_names_def repin_def)

lemma repinned_Cons: "d \<notin> fst ` set asg \<Longrightarrow> repinned asg (repin d ver p) = repinned ((d, ver) # asg) p"
  by (cases p) (auto simp: repinned_def repin_def map_of_eq_None_iff [THEN iffD2])

lemma update_all_render:
  assumes "distinct (map fst asg)" "\<forall>(dep, ver) \<in> set asg. wf_pins dep ps tail \<and> plain_version ver"
  shows "update_all asg (render ps tail, u)
           = Inr (render (map (repinned asg) ps) tail, u \<or> set (map fst asg) \<inter> set (pin_names ps) \<noteq> {})"
  using assms
proof (induction asg arbitrary: ps u)
  case Nil
  have "map (repinned []) ps = ps" by (intro map_idI) (auto simp: repinned_def)
  then show ?case by simp
next
  case (Cons a asg)
  obtain d ver where a: "a = (d, ver)" by (cases a)
  have w: "wf_pins d ps tail" "plain_version ver" using Cons.prems(2) a by auto
  have "\<forall>(dep, ver') \<in> set asg. wf_pins dep (map (repin d ver) ps) tail \<and> plain_version ver'"
    using Cons.prems(2) wf_repin [OF _ w(2)] by auto
  moreover have "distinct (map fst asg)" "d \<notin> fst ` set asg" using Cons.prems(1) a by auto
  ultimately show ?case
    using Cons.IH [of "map (repin d ver) ps"] update_dep_render [OF w] a
    by (auto simp: pin_names_repin repinned_Cons comp_def)
qed


section \<open>The listed dependencies\<close>

definition listed :: "string list" where
  "listed = PYTHON_CORE_DEPS @ CONTRIB_DEPS @ AWS_DEPS"

definition name_chars :: string where
  "name_chars = ''entoirmlyp-asudchgfkbqjwvxz0123456789''"

lemma name_chars_plain: "list_all (\<lambda>c. c \<notin> {quote, CHR ''='', CHR 0x5C} \<and> \<not> py_space c) name_chars"
  by (simp add: name_chars_def py_space_def)

lemma listed_rev: "distinct (map rev listed)"
  by code_simp

lemma listed_once: "list_all (\<lambda>d. prefix ''opentelemetry-'' d \<and> \<not> py_in ''opentelemetry-'' (tl d)) listed"
  by code_simp

lemma listed_chars: "list_all (list_all (\<lambda>c. c \<in> set name_chars)) listed"
  by code_simp

lemma listed_distinct: "distinct listed"
  using listed_rev by (simp only: distinct_map)

lemma listed_plain: "d \<in> set listed \<Longrightarrow> plain_name d"
  using listed_once listed_chars name_chars_plain by (fastforce simp: list_all_iff plain_name_def)

lemma listed_suffix:
  assumes "d \<in> set listed" "dep \<in> set listed"
  shows "d = dep \<or> \<not> suffix dep d"
proof (rule ccontr)
  assume "\<not> (d = dep \<or> \<not> suffix dep d)"
  then obtain u where "u \<noteq> []" and d: "d = u @ dep" by (auto simp: suffix_def)
  then have "tl d = tl u @ dep" by simp
  moreover obtain w where "dep = ''opentelemetry-'' @ w"
    using listed_once assms(2) by (auto simp: list_all_iff prefix_def)
  ultimately have "py_in ''opentelemetry-'' (tl d)" unfolding py_in_iff by metis
  then show False using listed_once assms(1) by (auto simp: list_all_iff)
qed

text \<open>A dependency list as the repository writes it: quoted pins of listed dependencies, and no other pin of one.\<close>

definition dependency_list :: "pin list \<Rightarrow> string \<Rightarrow> bool" where
  "dependency_list ps tail \<longleftrightarrow>
     list_all (\<lambda>(t, d, b1, b2, v). d \<in> set listed \<and> list_all (\<lambda>dep. \<not> has_pin dep t) listed
         \<and> list_all py_space b1 \<and> list_all py_space b2 \<and> plain_version v) ps
     \<and> list_all (\<lambda>dep. \<not> has_pin dep tail) listed"

lemma dependency_list_wf: "dependency_list ps tail \<Longrightarrow> dep \<in> set listed \<Longrightarrow> wf_pins dep ps tail"
  using listed_plain listed_suffix
  by (fastforce simp: dependency_list_def wf_pins_def pin_for_def list_all_iff)

definition plain_versions :: "string \<Rightarrow> string \<Rightarrow> (string \<times> string) list \<Rightarrow> bool" where
  "plain_versions pv cv aws \<longleftrightarrow>
     plain_version pv \<and> plain_version cv \<and> map fst aws = AWS_DEPS \<and> list_all (\<lambda>(dep, ver). plain_version ver) aws"

lemma assignment_keys:
  assumes "map fst aws = AWS_DEPS"
  shows "set (map fst (assignment pv cv aws)) \<subseteq> set listed" "distinct (map fst (assignment pv cv aws))"
proof -
  have "map fst (assignment pv cv aws)
          = PYTHON_CORE_DEPS @ CONTRIB_DEPS @ map fst (filter (\<lambda>(dep, ver). ver \<noteq> []) aws)"
    by (simp add: assignment_def comp_def)
  moreover have "set (map fst (filter (\<lambda>(dep, ver). ver \<noteq> []) aws)) \<subseteq> set AWS_DEPS"
    unfolding assms [symmetric] by auto
  moreover have "distinct (map fst (filter (\<lambda>(dep, ver). ver \<noteq> []) aws))"
    using listed_distinct unfolding listed_def assms [symmetric] by (simp add: distinct_map_filter)
  ultimately show "set (map fst (assignment pv cv aws)) \<subseteq> set listed" "distinct (map fst (assignment pv cv aws))"
    using listed_distinct unfolding listed_def by auto
qed

lemma assignment_plain:
  "plain_versions pv cv aws \<Longrightarrow> (dep, ver) \<in> set (assignment pv cv aws) \<Longrightarrow> plain_version ver"
  by (auto simp: plain_versions_def assignment_def list_all_iff)

lemma update_list:
  assumes "dependency_list ps tail" "plain_versions pv cv aws"
  shows "update_all (assignment pv cv aws) (render ps tail, u)
           = Inr (render (map (repinned (assignment pv cv aws)) ps) tail,
                u \<or> set (map fst (assignment pv cv aws)) \<inter> set (pin_names ps) \<noteq> {})"
proof (rule update_all_render)
  have k: "map fst aws = AWS_DEPS" using assms(2) by (simp add: plain_versions_def)
  show "distinct (map fst (assignment pv cv aws))" using assignment_keys(2) [OF k] .
  show "\<forall>(dep, ver) \<in> set (assignment pv cv aws). wf_pins dep ps tail \<and> plain_version ver"
    using assignment_keys(1) [OF k] assignment_plain [OF assms(2)] dependency_list_wf [OF assms(1)] by force
qed

text \<open>New versions without special characters never make the replacement fail.\<close>

lemma replacement_template:
  "plain_name dep \<Longrightarrow> plain_version ver \<Longrightarrow>
     template (replacement dep ver content) = Inr (map Lit (replacement dep ver content))"
  by (rule template_plain) (auto simp: replacement_def plain_name_def plain_version_def list_all_iff)

lemma update_all_total:
  "\<forall>(dep, ver) \<in> set asg. plain_name dep \<and> plain_version ver \<Longrightarrow> \<exists>st'. update_all asg st = Inr st'"
proof (induction asg arbitrary: st)
  case (Cons a asg)
  then have "\<exists>st'. update_dep a st = Inr st'"
    by (cases a; cases st) (auto simp: update_dep_def replacement_template)
  with Cons show ?case by auto
qed simp

section \<open>Reading the pins back\<close>

lemma pin_body_start: "prefix (dep @ '' == '') s \<Longrightarrow> pin_body dep s \<noteq> None"
  by (auto simp: prefix_def pin_body_def py_space_def)

lemma scan_current_pin: "plain_name dep \<Longrightarrow> match_pin dep s = None \<Longrightarrow> scan_current dep s = None"
  using pin_body_start [of dep "tl s"]
  by (cases s) (auto simp: scan_current_def scan_text_def match_pin_def skip_quote_def)

lemma search_skip:
  "plain_name dep \<Longrightarrow> unmatched dep t r \<Longrightarrow> search (scan_current dep) (t @ r) = search (scan_current dep) r"
  by (induction t) (auto dest!: unmatched_Cons simp: scan_current_pin)

lemma search_own:
  assumes "quote \<notin> set v"
  shows "search (scan_current dep) (new_pin dep v @ r) = Some v"
proof -
  have "takeWhile (\<lambda>c. c \<noteq> quote) (v @ quote # r) = v" using assms by (induction v) auto
  then have "scan_current dep (new_pin dep v @ r) = Some v"
    by (simp add: scan_current_def scan_text_def new_pin_def pin_text_def)
  then show ?thesis by (cases "new_pin dep v @ r") (auto simp: new_pin_def pin_text_def)
qed

lemma plain_version_quote: "plain_version v \<Longrightarrow> quote \<notin> set v"
  by (auto simp: plain_version_def version_char_def list_all_iff)

text \<open>What \<open>find_breaking_changes\<close> reads in a list: the version of the first pin, when it is written as new.\<close>

lemma search_render:
  assumes "wf_pins dep ps tail" "\<forall>(t, d, b1, b2, v) \<in> set ps. d = dep \<longrightarrow> b1 = '' '' \<and> b2 = '' ''"
  shows "search (scan_current dep) (render ps tail) = map_of (map (\<lambda>(t, d, b1, b2, v). (d, v)) ps) dep"
  using assms
proof (induction ps)
  case Nil
  then have n: "plain_name dep" "\<not> has_pin dep tail" by (auto simp: wf_pins_def)
  have "search (scan_current dep) [] = None" by (simp add: scan_current_def scan_text_def)
  then show ?case using search_skip [OF n(1) unmatched_text [OF n, of "[]"]] by simp
next
  case (Cons p ps)
  let ?r = "render ps tail"
  obtain t d b1 b2 v where p: "p = (t, d, b1, b2, v)" by (cases p)
  have n: "plain_name dep" "\<not> has_pin dep t" and d: "plain_name d"
    and b: "list_all py_space b1" "list_all py_space b2" and v: "plain_version v"
    and x: "d = dep \<or> \<not> suffix dep d" and w: "wf_pins dep ps tail"
    using Cons.prems(1) p by (auto simp: wf_pins_Cons pin_for_def wf_pins_def)
  have before: "search (scan_current dep) (render (p # ps) tail) = search (scan_current dep) (pin_text d b1 b2 v @ ?r)"
    using search_skip [OF n(1) unmatched_text [OF n starts_with_pin]] p by simp
  show ?case
  proof (cases "d = dep")
    case True
    then have "pin_text d b1 b2 v = new_pin dep v" using Cons.prems(2) p by (simp add: new_pin_def)
    then show ?thesis using before search_own [OF plain_version_quote [OF v]] True p by simp
  next
    case False
    then show ?thesis
      using before search_skip [OF n(1) unmatched_other [OF n(1) d x False b v render_start [OF w]]]
        Cons.IH [OF w] Cons.prems(2) p by simp
  qed
qed

section \<open>The nightly job\<close>

abbreviation pyproject :: string where
  "pyproject \<equiv> ''aws-opentelemetry-distro/pyproject.toml''"

lemma repinned_name: "repinned asg (t, d, b1, b2, v) = (t', d', b1', b2', v') \<Longrightarrow> d' = d"
  by (auto simp: repinned_def split: option.splits)

lemma wf_repinned:
  assumes "wf_pins dep ps tail" "\<forall>(d, ver) \<in> set asg. plain_version ver"
  shows "wf_pins dep (map (repinned asg) ps) tail"
proof -
  have "pin_for dep (repinned asg p)" if "pin_for dep p" for p
    using that assms(2) by (cases p) (auto simp: pin_for_def repinned_def py_space_def dest!: map_of_SomeD split: option.splits)
  then show ?thesis using assms(1) by (auto simp: wf_pins_def list_all_iff)
qed

lemma pin_names_simps: "pin_names [] = []" "pin_names ((t, d, b1, b2, v) # ps) = d # pin_names ps"
  by (simp_all add: pin_names_def)

lemma read_new_pins:
  assumes "wf_pins dep ps tail" "\<forall>(d, ver) \<in> set asg. plain_version ver" "map_of asg dep = Some ver"
    "dep \<in> set (pin_names ps)"
  shows "search (scan_current dep) (render (map (repinned asg) ps) tail) = Some ver"
proof -
  have "search (scan_current dep) (render (map (repinned asg) ps) tail)
          = map_of (map (\<lambda>(t, d, b1, b2, v). (d, v)) (map (repinned asg) ps)) dep"
    using wf_repinned [OF assms(1,2)] by (rule search_render) (auto simp: repinned_def assms(3) split: option.splits)
  also have "\<dots> = Some ver"
    using assms(3,4) by (induction ps) (auto simp: repinned_def pin_names_simps split: option.splits)
  finally show ?thesis .
qed

lemma plain_versions_list: "plain_versions pv cv aws \<Longrightarrow> \<forall>(d, ver) \<in> set (assignment pv cv aws). plain_version ver"
  using assignment_plain by blast

lemma update_file_list:
  assumes "map_of (file_texts d) f = Some (render ps tail)" "f \<notin> set (read_only d)" "dependency_list ps tail"
    "plain_versions pv cv aws" "set (map fst (assignment pv cv aws)) \<inter> set (pin_names ps) \<noteq> {}"
  shows "update_file_dependencies f pv cv aws d
           = (Inr True, d\<lparr>file_texts := AList.update f (render (map (repinned (assignment pv cv aws)) ps) tail) (file_texts d)\<rparr>)"
  using assms update_list [OF assms(3,4)] by (simp add: update_file_dependencies_def)

lemma update_file_frame:
  assumes "plain_versions pv cv aws"
  obtains u d' where "update_file_dependencies f pv cv aws d = (Inr u, d')" "read_only d' = read_only d"
    "\<And>g. g \<noteq> f \<Longrightarrow> map_of (file_texts d') g = map_of (file_texts d) g"
proof (cases "map_of (file_texts d) f")
  case None
  then show ?thesis by (intro that [of False d]) (simp_all add: update_file_dependencies_def)
next
  case (Some content)
  have "map fst aws = AWS_DEPS" using assms by (simp add: plain_versions_def)
  then have "\<forall>(dep, ver) \<in> set (assignment pv cv aws). plain_name dep \<and> plain_version ver"
    using assignment_keys(1) [of aws pv cv] listed_plain assignment_plain [OF assms] by force
  then obtain new updated where "update_all (assignment pv cv aws) (content, False) = Inr (new, updated)"
    using update_all_total by (metis surj_pair)
  then show ?thesis
    using Some by (cases "updated \<and> f \<notin> set (read_only d)")
      (auto simp: update_file_dependencies_def update_conv' intro: that)
qed

lemma update_files_frame:
  assumes "plain_versions pv cv aws"
  shows "\<exists>u d'. update_files fs pv cv aws b d = (Inr (b \<or> u), d') \<and> (\<forall>g. g \<notin> set fs \<longrightarrow> map_of (file_texts d') g = map_of (file_texts d) g)"
proof (induction fs arbitrary: b d)
  case (Cons f fs)
  obtain u d1 where f: "update_file_dependencies f pv cv aws d = (Inr u, d1)"
    and same: "\<And>g. g \<noteq> f \<Longrightarrow> map_of (file_texts d1) g = map_of (file_texts d) g"
    using update_file_frame [OF assms] by metis
  obtain u' d' where "update_files fs pv cv aws (b \<or> u) d1 = (Inr ((b \<or> u) \<or> u'), d')"
    "\<forall>g. g \<notin> set fs \<longrightarrow> map_of (file_texts d') g = map_of (file_texts d1) g"
    using Cons.IH by blast
  then show ?case using f same by (auto intro!: exI [of _ "u \<or> u'"])
qed (auto intro!: exI [of _ False])

text \<open>The versions of a release title, and that they can be written as they are.\<close>

definition digits :: "string \<Rightarrow> bool" where
  "digits s \<longleftrightarrow> s \<noteq> [] \<and> list_all is_dec s"

lemma scan_many_digits: "digits a \<Longrightarrow> r = [] \<or> \<not> is_dec (hd r) \<Longrightarrow> scan_many is_dec (a @ r) = Some (a, r)"
proof -
  assume a: "digits a" "r = [] \<or> \<not> is_dec (hd r)"
  have "takeWhile is_dec r = [] \<and> dropWhile is_dec r = r" using a(2) by (cases r) auto
  moreover have "takeWhile is_dec (a @ r) = a @ takeWhile is_dec r" "dropWhile is_dec (a @ r) = dropWhile is_dec r"
    using a(1) by (auto simp: digits_def list_all_iff takeWhile_append2 dropWhile_append2)
  ultimately show ?thesis using a(1) by (simp add: scan_many_def digits_def)
qed

lemma scan_many_space: "scan_many py_space (CHR '' '' # c # s) = (if py_space c then scan_many py_space (CHR '' '' # c # s) else Some ('' '', c # s))"
  by (simp add: scan_many_def py_space_def)

lemma title_scanned:
  assumes "digits a" "digits b" "digits c" "digits e" "digits f" "digits g" "s = [] \<or> \<not> is_dec (hd s)"
  shows "scan_title (''Version '' @ a @ ''.'' @ b @ ''.'' @ c @ ''/'' @ e @ ''.'' @ f @ ''b'' @ g @ s)
           = Some (a @ ''.'' @ b @ ''.'' @ c, e @ ''.'' @ f @ ''b'' @ g)"
proof -
  have "\<not> is_dec CHR ''.''" "\<not> is_dec CHR ''/''" "\<not> is_dec CHR ''b''" by (simp_all add: is_dec_def)
  moreover obtain x xs where a: "a = x # xs" "is_dec x" using assms(1) by (cases a) (auto simp: digits_def)
  moreover have "\<not> py_space x" using a(2) by (auto simp: is_dec_def py_space_def)
  ultimately have "scan_many py_space (CHR '' '' # a @ r) = Some ('' '', a @ r)" for r
    by (simp add: scan_many_def py_space_def)
  then show ?thesis
    using assms \<open>\<not> is_dec CHR ''.''\<close> \<open>\<not> is_dec CHR ''/''\<close> \<open>\<not> is_dec CHR ''b''\<close>
    by (simp add: scan_title_def scan_text_def scan_core_version_def scan_contrib_version_def scan_many_digits)
qed

lemma search_SomeD: "search p s = Some x \<Longrightarrow> \<exists>t. suffix t s \<and> p t = Some x"
  by (induction s) (auto split: option.splits simp: suffix_Cons)

definition version_text :: "string \<Rightarrow> bool" where
  "version_text v \<longleftrightarrow> v \<noteq> [] \<and> list_all (\<lambda>c. is_dec c \<or> c = CHR ''.'' \<or> c = CHR ''b'') v"

lemma version_text_plain: "version_text v \<Longrightarrow> plain_version v"
  by (auto simp: version_text_def plain_version_def list_all_iff is_dec_def version_char_def py_space_def)

lemma scan_many_SomeD: "scan_many P s = Some (a, r) \<Longrightarrow> a \<noteq> [] \<and> list_all P a"
  by (auto simp: scan_many_def list_all_iff dest: set_takeWhileD split: if_splits)

lemma core_version_text: "scan_core_version s = Some (v, r) \<Longrightarrow> version_text v"
  by (auto simp: scan_core_version_def version_text_def list_all_iff bind_eq_Some_conv dest!: scan_many_SomeD)

lemma contrib_version_text: "scan_contrib_version s = Some (v, r) \<Longrightarrow> version_text v"
  by (auto simp: scan_contrib_version_def version_text_def list_all_iff bind_eq_Some_conv dest!: scan_many_SomeD)

lemma title_versions: "scan_title s = Some (core, contrib) \<Longrightarrow> version_text core \<and> version_text contrib"
  by (auto simp: scan_title_def bind_eq_Some_conv dest: core_version_text contrib_version_text)

lemma latest_versions_text:
  assumes "get_latest_otel_versions reply = Inr (core, contrib)"
  shows "version_text core \<and> version_text contrib"
proof -
  obtain x where "reply = Inr x" using assms by (cases reply) (auto simp: get_latest_otel_versions_def)
  then obtain title where t: "(case title of
        JStr t \<Rightarrow> (case search scan_title t of None \<Rightarrow> Inl system_exit | Some v \<Rightarrow> Inr v) | _ \<Rightarrow> Inl TypeError)
      = Inr (core, contrib)"
    using assms unfolding get_latest_otel_versions_def by (simp only: sum.case bindr_eq_Inr) blast
  then obtain s where "search scan_title s = Some (core, contrib)"
    by (cases title) (auto split: option.splits)
  from search_SomeD [OF this] obtain w where "scan_title w = Some (core, contrib)" by blast
  then show ?thesis by (rule title_versions)
qed

lemma printed_env:
  assumes "map fst aws = AWS_DEPS"
  shows "env_text (printed_versions (core, contrib) aws) ''OTEL_PYTHON_VERSION'' = core"
    "env_text (printed_versions (core, contrib) aws) ''OTEL_CONTRIB_VERSION'' = contrib"
    "aws = [(''opentelemetry-sdk-extension-aws'',
              env_text (printed_versions (core, contrib) aws) ''OPENTELEMETRY_SDK_EXTENSION_AWS_VERSION''),
            (''opentelemetry-propagator-aws-xray'',
              env_text (printed_versions (core, contrib) aws) ''OPENTELEMETRY_PROPAGATOR_AWS_XRAY_VERSION'')]"
proof -
  obtain v w where aws: "aws = [(''opentelemetry-sdk-extension-aws'', v), (''opentelemetry-propagator-aws-xray'', w)]"
    using assms by (auto simp: AWS_DEPS_def)
  have n: "py_upper (py_replace ''-'' ''_'' ''opentelemetry-sdk-extension-aws'') = ''OPENTELEMETRY_SDK_EXTENSION_AWS''"
    "py_upper (py_replace ''-'' ''_'' ''opentelemetry-propagator-aws-xray'') = ''OPENTELEMETRY_PROPAGATOR_AWS_XRAY''"
    by code_simp+
  have p: "printed_versions (core, contrib) aws
      = [(''OTEL_PYTHON_VERSION'', core), (''OTEL_CONTRIB_VERSION'', contrib),
         (''OPENTELEMETRY_SDK_EXTENSION_AWS_VERSION'', v), (''OPENTELEMETRY_PROPAGATOR_AWS_XRAY_VERSION'', w)]"
    by (simp only: printed_versions_def aws prod.case list.map n append.simps)
  show "env_text (printed_versions (core, contrib) aws) ''OTEL_PYTHON_VERSION'' = core"
    "env_text (printed_versions (core, contrib) aws) ''OTEL_CONTRIB_VERSION'' = contrib"
    "aws = [(''opentelemetry-sdk-extension-aws'',
              env_text (printed_versions (core, contrib) aws) ''OPENTELEMETRY_SDK_EXTENSION_AWS_VERSION''),
            (''opentelemetry-propagator-aws-xray'',
              env_text (printed_versions (core, contrib) aws) ''OPENTELEMETRY_PROPAGATOR_AWS_XRAY_VERSION'')]"
    unfolding p by (simp_all add: env_text_def aws)
qed


lemma assigned_versions:
  "map_of (assignment core contrib aws) ''opentelemetry-api'' = Some core"
  "map_of (assignment core contrib aws) ''opentelemetry-distro'' = Some contrib"
  by (simp_all add: assignment_def PYTHON_CORE_DEPS_def CONTRIB_DEPS_def)

text \<open>C33: the nightly job. The versions found upstream are written into the dependency list of the
  distribution, where they are read back, and no file besides the five of the script changes.
\<close>

theorem nightly_versions_written:
  assumes found: "get_latest_otel_versions reply = Inr (core, contrib)" "get_latest_aws_versions pip = Inr aws"
    and aws: "map fst aws = AWS_DEPS" "list_all (\<lambda>(dep, ver). plain_version ver \<and> ver \<noteq> []) aws"
    and list: "map_of (file_texts d) pyproject = Some (render ps tail)" "dependency_list ps tail"
      "pyproject \<notin> set (read_only d)"
    and pinned: "''opentelemetry-api'' \<in> set (pin_names ps)" "''opentelemetry-distro'' \<in> set (pin_names ps)"
  shows "\<exists>d'. update_main (printed_versions (core, contrib) aws) d = (Inr True, d')
     \<and> map_of (file_texts d') pyproject = Some (render (map (repinned (assignment core contrib aws)) ps) tail)
     \<and> get_current_version_from_pyproject d' = (Some core, Some contrib)
     \<and> (\<forall>g. g \<notin> set files_to_update \<longrightarrow> map_of (file_texts d') g = map_of (file_texts d) g)"
proof -
  let ?asg = "assignment core contrib aws" and ?env = "printed_versions (core, contrib) aws"
  have v: "version_text core" "version_text contrib" using latest_versions_text [OF found(1)] by auto
  have plain: "plain_versions core contrib aws"
    using v aws version_text_plain by (auto simp: plain_versions_def list_all_iff)
  note api = assigned_versions(1) [of core contrib aws] and distro = assigned_versions(2) [of core contrib aws]
  have "set (map fst ?asg) \<inter> set (pin_names ps) \<noteq> {}"
    using pinned(1) map_of_SomeD [OF api] by force
  note first = update_file_list [OF list(1,3,2) plain this]
  let ?d1 = "d\<lparr>file_texts := AList.update pyproject (render (map (repinned ?asg) ps) tail) (file_texts d)\<rparr>"
  obtain u d' where rest: "update_files (tl files_to_update) core contrib aws True ?d1 = (Inr (True \<or> u), d')"
    and same: "\<forall>g. g \<notin> set (tl files_to_update) \<longrightarrow> map_of (file_texts d') g = map_of (file_texts ?d1) g"
    using update_files_frame [OF plain] by blast
  have files: "files_to_update = pyproject # tl files_to_update" by (simp add: files_to_update_def)
  have "update_files (pyproject # tl files_to_update) core contrib aws False d = (Inr True, d')"
    by (simp only: update_files.simps first prod.case sum.case simp_thms rest)
  then have "update_files files_to_update core contrib aws False d = (Inr True, d')"
    unfolding files [symmetric] .
  moreover have "update_main ?env d = update_files files_to_update core contrib aws False d"
  proof -
    have e: "env_text ?env ''OPENTELEMETRY_SDK_EXTENSION_AWS_VERSION'' \<noteq> []"
      "env_text ?env ''OPENTELEMETRY_PROPAGATOR_AWS_XRAY_VERSION'' \<noteq> []"
      using aws(2) by (subst (asm) printed_env(3) [OF aws(1), of core contrib], simp)+
    have "core \<noteq> []" "contrib \<noteq> []" using v by (auto simp: version_text_def)
    then show ?thesis
      using e unfolding update_main_def Let_def printed_env(1,2) [OF aws(1)]
      by (simp only: if_False simp_thms printed_env(3) [OF aws(1), of core contrib, symmetric])
  qed
  moreover have py: "map_of (file_texts d') pyproject = Some (render (map (repinned ?asg) ps) tail)"
    using same by (simp add: files_to_update_def update_conv')
  moreover have "get_current_version_from_pyproject d' = (Some core, Some contrib)"
    using py read_new_pins [OF dependency_list_wf [OF list(2)] plain_versions_list [OF plain] api pinned(1)]
      read_new_pins [OF dependency_list_wf [OF list(2)] plain_versions_list [OF plain] distro pinned(2)]
    by (simp add: get_current_version_from_pyproject_def listed_def PYTHON_CORE_DEPS_def CONTRIB_DEPS_def)
  moreover have "\<forall>g. g \<notin> set files_to_update \<longrightarrow> map_of (file_texts d') g = map_of (file_texts d) g"
    using same by (simp add: files_to_update_def update_conv')
  ultimately show ?thesis by simp
qed

lemma nightly_versions_written_witness:
  "\<exists>d'. update_main (printed_versions (''1.37.0'', ''0.58b0'')
       [(''opentelemetry-sdk-extension-aws'', ''2.1.0''), (''opentelemetry-propagator-aws-xray'', ''1.0.2'')])
       \<lparr>file_texts = [(pyproject, render [(''['', ''opentelemetry-api'', '''', '''', ''1.33.1''),
            ('', '', ''opentelemetry-distro'', '' '', '' '', ''0.54b1'')] '']'')], read_only = []\<rparr> = (Inr True, d')
     \<and> get_current_version_from_pyproject d' = (Some ''1.37.0'', Some ''0.58b0'')"
proof -
  let ?reply = "Inr (JObj [(''name'', JStr ''Version 1.37.0/0.58b0'')]) :: json res"
  let ?aws = "[(''opentelemetry-sdk-extension-aws'', ''2.1.0''), (''opentelemetry-propagator-aws-xray'', ''1.0.2'')]"
  let ?pip = "\<lambda>dep. Inr (dep @ '' ('' @ (if dep = ''opentelemetry-sdk-extension-aws'' then ''2.1.0'' else ''1.0.2'') @ '')'') :: string res"
  let ?ps = "[(''['', ''opentelemetry-api'', '''', '''', ''1.33.1''), ('', '', ''opentelemetry-distro'', '' '', '' '', ''0.54b1'')]"
  have "get_latest_otel_versions ?reply = Inr (''1.37.0'', ''0.58b0'')" by code_simp
  moreover have "get_latest_aws_versions ?pip = Inr ?aws" by code_simp
  moreover have "map fst ?aws = AWS_DEPS" by code_simp
  moreover have "list_all (\<lambda>(dep, ver). plain_version ver \<and> ver \<noteq> []) ?aws" by code_simp
  moreover have "dependency_list ?ps '']''" by code_simp
  moreover have "''opentelemetry-api'' \<in> set (pin_names ?ps)" "''opentelemetry-distro'' \<in> set (pin_names ?ps)"
    by code_simp+
  moreover have "map_of (file_texts \<lparr>file_texts = [(pyproject, render ?ps '']'')], read_only = []\<rparr>) pyproject
      = Some (render ?ps '']'')" by (simp only: disk.simps map_of.simps fst_conv snd_conv fun_upd_same)
  moreover have "pyproject \<notin> set (read_only \<lparr>file_texts = [(pyproject, render ?ps '']'')], read_only = []\<rparr>)" by simp
  ultimately show ?thesis using nightly_versions_written [of ?reply "''1.37.0''" "''0.58b0''" ?pip ?aws
      "\<lparr>file_texts = [(pyproject, render ?ps '']'')], read_only = []\<rparr>" ?ps "'']''"] by blast
qed

text \<open>The scanner of a pin is the expression: a match splits the text as the expression says, as long as it can.\<close>

lemma skip_quote_cases: "s = skip_quote s \<or> s = quote # skip_quote s"
  by (cases s) (auto simp: skip_quote_def)

lemma match_pin_sound:
  assumes "match_pin dep s = Some r"
  shows "\<exists>q b1 b2 v q'. s = q @ dep @ b1 @ ''=='' @ b2 @ v @ q' @ r \<and> q \<in> {[], [quote]} \<and> q' \<in> {[], [quote]}
           \<and> list_all py_space b1 \<and> list_all py_space b2 \<and> list_all version_char v"
proof -
  let ?s = "skip_quote s"
  let ?s1 = "drop (length dep) ?s"
  let ?s2 = "drop 2 (dropWhile py_space ?s1)"
  let ?s3 = "dropWhile version_char (dropWhile py_space ?s2)"
  have p: "prefix dep ?s" "prefix ''=='' (dropWhile py_space ?s1)" and r: "r = skip_quote ?s3"
    using assms by (auto simp: match_pin_def pin_body_def split: if_splits)
  from p(1) have s: "?s = dep @ ?s1" by (auto simp: prefix_def)
  from p(2) have s1: "dropWhile py_space ?s1 = ''=='' @ ?s2" by (auto simp: prefix_def)
  have a: "?s1 = takeWhile py_space ?s1 @ ''=='' @ ?s2"
    by (subst s1 [symmetric]) simp
  have b: "?s2 = takeWhile py_space ?s2 @ takeWhile version_char (dropWhile py_space ?s2) @ ?s3" by simp
  obtain q where q: "s = q @ ?s" "q \<in> {[], [quote]}" using skip_quote_cases [of s] by (metis append_Cons append_Nil insertCI)
  obtain q' where q': "?s3 = q' @ r" "q' \<in> {[], [quote]}"
    using skip_quote_cases [of ?s3] r by (metis append_Cons append_Nil insertCI)
  have "s = q @ dep @ takeWhile py_space ?s1 @ ''=='' @ takeWhile py_space ?s2
          @ takeWhile version_char (dropWhile py_space ?s2) @ q' @ r"
    using q(1) s a b q'(1) by metis
  moreover have "list_all P (takeWhile P xs)" for P :: "char \<Rightarrow> bool" and xs
    by (auto simp: list_all_iff dest: set_takeWhileD)
  ultimately show ?thesis using q(2) q'(2) by metis
qed

end
