(* ===== verification/MockCollector.thy ===== *)
theory MockCollector
  imports Prelude
begin

text \<open>
  The mock collector of the contract tests (\<open>src/contract-tests/images/mock-collector\<close>): the services that keep the
  export requests, and the client that polls them until nothing more arrives. Protobuf requests are trees of
  resources, scopes and signals; serialisation, the clock and failures of the channel are parameters.
\<close>

section \<open>The services\<close>

text \<open>An export request, as its resources with their scopes with their spans or metrics.\<close>

type_synonym ('r, 'c, 'x) export_request = "('r \<times> ('c \<times> 'x list) list) list"

record ('t, 'm) collector =
  trace_requests :: "'t list"
  metric_requests :: "'m list"

datatype ('t, 'm) call = ExportTraces 't | ExportMetrics 'm | ClearAll

fun serve :: "('t, 'm) call \<Rightarrow> ('t, 'm) collector \<Rightarrow> ('t, 'm) collector" where
  "serve (ExportTraces t) s = s\<lparr>trace_requests := trace_requests s @ [t]\<rparr>"
| "serve (ExportMetrics m) s = s\<lparr>metric_requests := metric_requests s @ [m]\<rparr>"
| "serve ClearAll s = s\<lparr>trace_requests := [], metric_requests := []\<rparr>"

definition served_traces :: "('t \<Rightarrow> 'b) \<Rightarrow> ('t, 'm) collector \<Rightarrow> 'b list" where
  "served_traces serialize s = map serialize (trace_requests s)"

definition served_metrics :: "('m \<Rightarrow> 'b) \<Rightarrow> ('t, 'm) collector \<Rightarrow> 'b list" where
  "served_metrics serialize s = map serialize (metric_requests s)"

section \<open>The client\<close>

text \<open>
  The waiting loop. Each round has the time of its test and what the collector answers; an exception is logged and the
  next round follows at once. \<open>None\<close>: the rounds given do not end the loop.
\<close>

fun wait_rounds ::
    "int \<Rightarrow> ('a list \<Rightarrow> 'a list \<Rightarrow> bool) \<Rightarrow> 'a list \<Rightarrow> (int \<times> 'a list res) list \<Rightarrow> 'a list res option" where
  "wait_rounds deadline wait_condition exported [] = None"
| "wait_rounds deadline wait_condition exported ((now, reply) # rounds) =
     (if \<not> deadline > now then Some (Inl RuntimeError)
      else case reply of
        Inl e \<Rightarrow> wait_rounds deadline wait_condition exported rounds
      | Inr current \<Rightarrow>
          if wait_condition exported current then Some (Inr current)
          else wait_rounds deadline wait_condition current rounds)"

definition TIMEOUT_DELAY :: int where
  "TIMEOUT_DELAY = 20000000"

definition wait_for_content ::
    "int \<Rightarrow> ('a list \<Rightarrow> 'a list \<Rightarrow> bool) \<Rightarrow> (int \<times> 'a list res) list \<Rightarrow> 'a list res option" where
  "wait_for_content start wait_condition rounds = wait_rounds (start + TIMEOUT_DELAY) wait_condition [] rounds"

definition traces_settled :: "'a list \<Rightarrow> 'a list \<Rightarrow> bool" where
  "traces_settled exported current \<longleftrightarrow> 0 < length exported \<and> length exported = length current"

text \<open>All signals of the requests, each with its resource and its scope.\<close>

definition flatten :: "('r, 'c, 'x) export_request list \<Rightarrow> ('r \<times> 'c \<times> 'x) list" where
  "flatten rs = concat (map (\<lambda>req. concat (map (\<lambda>(r, scopes).
       concat (map (\<lambda>(c, xs). map (\<lambda>x. (r, c, x)) xs) scopes)) req)) rs)"

text \<open>What a round sees: an exception of the channel, or the bytes of the collector, parsed.\<close>

definition get_export :: "('b \<Rightarrow> 'a res) \<Rightarrow> 'b list res \<Rightarrow> 'a list res" where
  "get_export from_string reply = bindr reply (map_res from_string)"

definition map_reply :: "('a \<Rightarrow> 'b) \<Rightarrow> 'a res option \<Rightarrow> 'b res option" where
  "map_reply f r = map_option (\<lambda>v. bindr v (\<lambda>x. Inr (f x))) r"

definition get_traces ::
    "('b \<Rightarrow> ('r, 'c, 'x) export_request res) \<Rightarrow> int \<Rightarrow> (int \<times> 'b list res) list \<Rightarrow> ('r \<times> 'c \<times> 'x) list res option" where
  "get_traces from_string start rounds =
     map_reply flatten (wait_for_content start traces_settled (map (\<lambda>(now, reply). (now, get_export from_string reply)) rounds))"

definition received_metrics :: "('x \<Rightarrow> string) \<Rightarrow> ('r, 'c, 'x) export_request list \<Rightarrow> string set" where
  "received_metrics metric_name current = set (map (\<lambda>(r, c, x). py_lower (metric_name x)) (flatten current))"

definition metrics_settled ::
    "('x \<Rightarrow> string) \<Rightarrow> bool \<Rightarrow> string list \<Rightarrow> ('r, 'c, 'x) export_request list \<Rightarrow> ('r, 'c, 'x) export_request list \<Rightarrow> bool" where
  "metrics_settled metric_name exact_match present exported current \<longleftrightarrow>
     (if exact_match
      then 0 < length exported \<and> length exported = length current
           \<and> set (map py_lower present) \<subseteq> received_metrics metric_name current
      else set (map py_lower present) \<subseteq> received_metrics metric_name current)"

definition get_metrics ::
    "('b \<Rightarrow> ('r, 'c, 'x) export_request res) \<Rightarrow> ('x \<Rightarrow> string) \<Rightarrow> bool \<Rightarrow> string list \<Rightarrow> int \<Rightarrow> (int \<times> 'b list res) list \<Rightarrow>
     ('r \<times> 'c \<times> 'x) list res option" where
  "get_metrics from_string metric_name exact_match present start rounds =
     map_reply flatten (wait_for_content start (metrics_settled metric_name exact_match present)
       (map (\<lambda>(now, reply). (now, get_export from_string reply)) rounds))"

section \<open>Client and services\<close>

text \<open>
  A test: before each round some calls reach the collector, and the channel may fail. \<open>answer\<close> is what the
  client is sent of the state.
\<close>

type_synonym ('t, 'm) plan = "(int \<times> ('t, 'm) call list \<times> exn option) list"

fun answers ::
    "(('t, 'm) collector \<Rightarrow> 'b list) \<Rightarrow> ('t, 'm) plan \<Rightarrow> ('t, 'm) collector \<Rightarrow> (int \<times> 'b list res) list" where
  "answers answer [] s = []"
| "answers answer ((now, calls, failure) # rounds) s =
     (let s' = fold serve calls s
      in (now, case failure of Some e \<Rightarrow> Inl e | None \<Rightarrow> Inr (answer s')) # answers answer rounds s')"

fun after_rounds :: "nat \<Rightarrow> ('t, 'm) plan \<Rightarrow> ('t, 'm) collector \<Rightarrow> ('t, 'm) collector" where
  "after_rounds 0 plan s = s"
| "after_rounds (Suc n) [] s = s"
| "after_rounds (Suc n) ((now, calls, failure) # rounds) s = after_rounds n rounds (fold serve calls s)"

section \<open>Waiting\<close>

text \<open>The loop ends as soon as the clock has reached the deadline, whatever the collector answers.\<close>

lemma wait_ends:
  "(now, reply) \<in> set rounds \<Longrightarrow> deadline \<le> now \<Longrightarrow> \<exists>r. wait_rounds deadline wait_condition exported rounds = Some r"
  by (induction rounds arbitrary: exported) (auto split: sum.splits)

theorem waiting_ends:
  assumes clock: "\<forall>i < length rounds. start + int i * pause \<le> fst (rounds ! i)"
    and enough: "TIMEOUT_DELAY \<le> int (length rounds - 1) * pause" "rounds \<noteq> []"
  shows "\<exists>r. wait_for_content start wait_condition rounds = Some r"
proof -
  let ?i = "length rounds - 1"
  have "start + int ?i * pause \<le> fst (rounds ! ?i)" using clock enough(2) by simp
  then have "start + TIMEOUT_DELAY \<le> fst (rounds ! ?i)" using enough(1) by linarith
  moreover have "(fst (rounds ! ?i), snd (rounds ! ?i)) \<in> set rounds" using enough(2) by simp
  ultimately show ?thesis unfolding wait_for_content_def by (intro wait_ends)
qed

text \<open>A result is an answer in time, and an earlier answer had as many requests.\<close>

lemma settled_at:
  "wait_rounds deadline traces_settled exported rounds = Some (Inr xs) \<Longrightarrow>
     xs \<noteq> [] \<and> (\<exists>i < length rounds. snd (rounds ! i) = Inr xs \<and> fst (rounds ! i) < deadline
       \<and> (length exported = length xs \<or> (\<exists>j < i. \<exists>ys. snd (rounds ! j) = Inr ys \<and> length ys = length xs)))"
proof (induction rounds arbitrary: exported)
  case (Cons round rounds)
  obtain now reply where r: "round = (now, reply)" by (cases round)
  have later: ?case
    if w: "wait_rounds deadline traces_settled ex rounds = Some (Inr xs)"
      and ex: "ex = exported \<or> reply = Inr ex" for ex
  proof -
    obtain i where i: "xs \<noteq> []" "i < length rounds" "snd (rounds ! i) = Inr xs" "fst (rounds ! i) < deadline"
      "length ex = length xs \<or> (\<exists>j < i. \<exists>ys. snd (rounds ! j) = Inr ys \<and> length ys = length xs)"
      using Cons.IH [OF w] by blast
    have "length exported = length xs \<or> (\<exists>j < Suc i. \<exists>ys. snd ((round # rounds) ! j) = Inr ys \<and> length ys = length xs)"
      using i(5) ex r by (metis Suc_less_eq nth_Cons_0 nth_Cons_Suc snd_conv zero_less_Suc)
    then show ?thesis using i(1-4) by (intro conjI exI [of _ "Suc i"]) auto
  qed
  show ?case
  proof (cases reply)
    case (Inl e)
    then show ?thesis using Cons.prems r later [of exported] by (simp split: if_splits)
  next
    case (Inr current)
    show ?thesis
    proof (cases "traces_settled exported current")
      case True
      then have "xs = current" "now < deadline" using Cons.prems r Inr by (auto split: if_splits)
      then show ?thesis using True r Inr
        by (intro conjI exI [of _ 0]) (auto simp: traces_settled_def)
    next
      case False
      then show ?thesis using Cons.prems r Inr later [of current] by (simp split: if_splits)
    qed
  qed
qed simp

section \<open>What a test is given\<close>

lemma answers_nth:
  "i < length plan \<Longrightarrow> answers answer plan s ! i
     = (fst (plan ! i), case snd (snd (plan ! i)) of Some e \<Rightarrow> Inl e | None \<Rightarrow> Inr (answer (after_rounds (Suc i) plan s)))"
proof (induction plan arbitrary: i s)
  case (Cons round plan)
  obtain now calls failure where "round = (now, calls, failure)" by (cases round)
  then show ?case using Cons by (cases i) (auto simp: Let_def split: option.split)
qed simp

lemma length_answers [simp]: "length (answers answer plan s) = length plan"
  by (induction answer plan s rule: answers.induct) (auto simp: Let_def)

lemma serve_grows: "ClearAll \<notin> set calls \<Longrightarrow> prefix (trace_requests s) (trace_requests (fold serve calls s))"
proof (induction calls arbitrary: s)
  case (Cons c calls)
  have "prefix (trace_requests s) (trace_requests (serve c s))" using Cons.prems by (cases c) auto
  then show ?case using Cons by (auto intro: prefix_order.trans)
qed simp

definition never_cleared :: "('t, 'm) plan \<Rightarrow> bool" where
  "never_cleared plan \<longleftrightarrow> list_all (\<lambda>(now, calls, failure). ClearAll \<notin> set calls) plan"

lemma requests_grow:
  "never_cleared plan \<Longrightarrow> j \<le> i \<Longrightarrow> prefix (trace_requests (after_rounds j plan s)) (trace_requests (after_rounds i plan s))"
proof (induction plan arbitrary: i j s)
  case Nil
  then show ?case by (cases i; cases j) simp_all
next
  case (Cons round plan)
  obtain now calls failure where r: "round = (now, calls, failure)" by (cases round)
  have n: "never_cleared plan" "ClearAll \<notin> set calls" using Cons.prems r by (auto simp: never_cleared_def)
  show ?case
  proof (cases j)
    case 0
    have "prefix (trace_requests (fold serve calls s)) (trace_requests (after_rounds k plan (fold serve calls s)))" for k
      using Cons.IH [OF n(1), of 0 k] by simp
    then show ?thesis using serve_grows [OF n(2), of s] 0 r by (cases i) (auto intro: prefix_order.trans)
  next
    case (Suc j')
    then show ?thesis using Cons.IH [OF n(1)] Cons.prems(2) r by (cases i) auto
  qed
qed

text \<open>
  Without a \<open>clear\<close> in between, the spans a test is given are all spans of the collector at one poll, and since an
  earlier poll no request had arrived.
\<close>

theorem traces_complete:
  assumes parse: "\<And>t. from_string (serialize t) = Inr t"
    and plan: "never_cleared plan"
    and got: "get_traces from_string start (answers (served_traces serialize) plan s) = Some (Inr spans)"
  shows "\<exists>j i. j < i \<and> i < length plan \<and> fst (plan ! i) < start + TIMEOUT_DELAY
     \<and> trace_requests (after_rounds (Suc j) plan s) = trace_requests (after_rounds (Suc i) plan s)
     \<and> trace_requests (after_rounds (Suc i) plan s) \<noteq> []
     \<and> spans = flatten (trace_requests (after_rounds (Suc i) plan s))"
proof -
  let ?at = "\<lambda>i. trace_requests (after_rounds (Suc i) plan s)"
  let ?rounds = "map (\<lambda>(now, reply). (now, get_export from_string reply)) (answers (served_traces serialize) plan s)"
  have ok: "get_export from_string (Inr (map serialize ts)) = Inr ts" for ts
    unfolding get_export_def by (induction ts) (simp_all add: parse)
  have nth: "snd (?rounds ! i) = Inr xs \<Longrightarrow> xs = ?at i" "fst (?rounds ! i) = fst (plan ! i)" if "i < length plan" for i xs
    using that ok by (auto simp: answers_nth served_traces_def get_export_def split: option.splits)
  obtain xs where w: "wait_rounds (start + TIMEOUT_DELAY) traces_settled [] ?rounds = Some (Inr xs)" "spans = flatten xs"
    using got by (auto simp: get_traces_def map_reply_def wait_for_content_def bindr_eq_Inr)
  from settled_at [OF w(1)] obtain i j ys where i: "xs \<noteq> []" "i < length plan" "snd (?rounds ! i) = Inr xs"
    "fst (?rounds ! i) < start + TIMEOUT_DELAY" "j < i" "snd (?rounds ! j) = Inr ys" "length ys = length xs"
    by auto
  have x: "xs = ?at i" "ys = ?at j" using nth(1) i by auto
  have "prefix (?at j) (?at i)" using requests_grow [OF plan] i(5) by simp
  then have "?at j = ?at i" using x i(7) by (auto simp: prefix_def)
  then show ?thesis using i x w(2) nth(2) [OF i(2)] by metis
qed

text \<open>The metrics a test waits for are among those it is given, whatever the case of their names.\<close>

lemma wait_condition_holds:
  "wait_rounds deadline wait_condition exported rounds = Some (Inr xs) \<Longrightarrow> \<exists>ex. wait_condition ex xs"
  by (induction rounds arbitrary: exported) (auto split: if_splits sum.splits)

theorem metrics_present:
  assumes "get_metrics from_string metric_name exact_match present start rounds = Some (Inr metrics)" "name \<in> set present"
  shows "\<exists>(r, c, x) \<in> set metrics. py_lower (metric_name x) = py_lower name"
proof -
  obtain xs where w: "wait_rounds (start + TIMEOUT_DELAY) (metrics_settled metric_name exact_match present) []
      (map (\<lambda>(now, reply). (now, get_export from_string reply)) rounds) = Some (Inr xs)" "metrics = flatten xs"
    using assms(1) by (auto simp: get_metrics_def map_reply_def wait_for_content_def bindr_eq_Inr)
  obtain ex where "metrics_settled metric_name exact_match present ex xs" using wait_condition_holds [OF w(1)] by blast
  then have "set (map py_lower present) \<subseteq> received_metrics metric_name xs"
    by (auto simp: metrics_settled_def split: if_splits)
  then show ?thesis using assms(2) w(2) by (fastforce simp: received_metrics_def)
qed

end
