(* ===== verification/Profiler.thy ===== *)
theory Profiler
  imports Prelude
begin

text \<open>
  The profiler of the performance tests (\<open>src/performance-tests/src/test/resources/profiler.py\<close>): what it
  accumulates from the readings of one process, one record per second. The readings of \<open>psutil\<close> are parameters.
\<close>

section \<open>Sampling\<close>

text \<open>The first process whose name contains the text.\<close>

definition get_pid :: "string \<Rightarrow> (int \<times> string) list \<Rightarrow> int option" where
  "get_pid part processes = map_option fst (find (\<lambda>(pid, name). py_in part name) processes)"

text \<open>The readings of one round; \<open>threads\<close> is the one taken for the peak.\<close>

record reading =
  rss :: int
  vms :: int
  threads :: int
  cpu_percent :: rat
  bytes_sent :: int
  bytes_recv :: int

record profile =
  peak_threads :: int
  rss_mem :: "int list"
  vms_mem :: "int list"
  cpu_usage :: "rat list"
  network_bytes_sent :: "int list"
  network_bytes_recv :: "int list"
  base_sent :: int
  base_recv :: int

definition start_profile :: "int \<Rightarrow> int \<Rightarrow> int \<Rightarrow> profile" where
  "start_profile num_threads sent recv =
     \<lparr>peak_threads = num_threads, rss_mem = [], vms_mem = [], cpu_usage = [], network_bytes_sent = [],
      network_bytes_recv = [], base_sent = sent, base_recv = recv\<rparr>"

text \<open>The arguments of the script, its name first: the two files it writes. No process is \<open>int(None)\<close>.\<close>

definition profiler_start ::
    "(string \<Rightarrow> string \<Rightarrow> string) \<Rightarrow> string list \<Rightarrow> (int \<times> string) list \<Rightarrow> (int \<times> string \<times> string) res" where
  "profiler_start join argv processes =
     (if length argv < 2 then Inl (Foreign ''SystemExit'')
      else if length argv < 3 then Inl IndexError
      else case get_pid ''python3'' processes of
        None \<Rightarrow> Inl TypeError
      | Some pid \<Rightarrow> Inr (pid, join (argv ! 2) (''tmp-'' @ argv ! 1), join (argv ! 2) (argv ! 1)))"

definition sample_round :: "rat \<Rightarrow> reading \<Rightarrow> profile \<Rightarrow> profile" where
  "sample_round cpu_count r p =
     \<lparr>peak_threads = max (peak_threads p) (threads r),
      rss_mem = rss_mem p @ [rss r],
      vms_mem = vms_mem p @ [vms r],
      cpu_usage = cpu_usage p @ [cpu_percent r / cpu_count],
      network_bytes_sent = network_bytes_sent p @ [bytes_sent r - base_sent p],
      network_bytes_recv = network_bytes_recv p @ [bytes_recv r - base_recv p],
      base_sent = bytes_sent r, base_recv = bytes_recv r\<rparr>"

definition profile_after :: "rat \<Rightarrow> profile \<Rightarrow> reading list \<Rightarrow> profile" where
  "profile_after cpu_count p rs = fold (sample_round cpu_count) rs p"

section \<open>Facts\<close>

lemma profile_invariant:
  "sum_list (network_bytes_sent p) = base_sent p - s \<Longrightarrow> sum_list (network_bytes_recv p) = base_recv p - r \<Longrightarrow>
     let q = profile_after cpu_count p rs
     in sum_list (network_bytes_sent q) = base_sent q - s \<and> sum_list (network_bytes_recv q) = base_recv q - r"
  unfolding profile_after_def by (induction rs arbitrary: p) (auto simp: sample_round_def Let_def)

lemma profile_last:
  "base_sent (profile_after cpu_count p rs) = (if rs = [] then base_sent p else bytes_sent (last rs))"
  "base_recv (profile_after cpu_count p rs) = (if rs = [] then base_recv p else bytes_recv (last rs))"
  unfolding profile_after_def by (induction rs arbitrary: p) (auto simp: sample_round_def)

lemma profile_series:
  "rss_mem (profile_after cpu_count p rs) = rss_mem p @ map rss rs"
  "vms_mem (profile_after cpu_count p rs) = vms_mem p @ map vms rs"
  "cpu_usage (profile_after cpu_count p rs) = cpu_usage p @ map (\<lambda>r. cpu_percent r / cpu_count) rs"
  "peak_threads (profile_after cpu_count p rs) = fold max (map threads rs) (peak_threads p)"
  unfolding profile_after_def by (induction rs arbitrary: p) (auto simp: sample_round_def max.commute)

lemma fold_max: "fold max xs (a :: int) = Max (insert a (set xs))"
proof (induction xs arbitrary: a)
  case (Cons x xs)
  then show ?case by (cases "xs = []") (simp_all add: max.assoc max.commute max.left_commute)
qed simp

text \<open>
  The bytes of all rounds add up to the growth of the counters since the start, and the peak is the largest
  number of threads read.
\<close>

theorem profile_totals:
  assumes "rs \<noteq> []"
  shows "sum_list (network_bytes_sent (profile_after cpu_count (start_profile n s r) rs)) = bytes_sent (last rs) - s"
    and "sum_list (network_bytes_recv (profile_after cpu_count (start_profile n s r) rs)) = bytes_recv (last rs) - r"
    and "peak_threads (profile_after cpu_count (start_profile n s r) rs) = Max (insert n (threads ` set rs))"
  using assms profile_invariant [of "start_profile n s r" s r cpu_count rs]
  by (simp_all add: profile_last profile_series fold_max start_profile_def Let_def)

end
