(* ===== verification/Spec2Isabelle.thy ===== *)
theory Spec2Isabelle
  imports RemoteSampler SignalFlow Delivery OtlpLogs EmfExporter LloHandler Distro PathCache Patching ViewPatches
    HookPatches LambdaLayer CallResources Eachdist PinUpdates MockCollector
    Profiler
begin

text \<open>
  Verification library of the AWS Distro for OpenTelemetry Python (\<open>src/aws-opentelemetry-distro\<close> and
  \<open>src/lambda-layer\<close>). File names below are relative to
  \<open>src/aws-opentelemetry-distro/src/amazon/opentelemetry/distro\<close> unless they begin with \<open>src/\<close>.

  \<^bold>\<open>The program.\<close> The distribution hooks into the auto-instrumentation of OpenTelemetry. The distro class
  prepares the environment and patches the instrumentations; the configurator reads the environment and
  builds the pipelines: samplers, span processors, exporters for spans, logs and metrics. When a span starts,
  the sampler decides (\<open>sampler\<close>), and processors put attributes on it; when it ends, processors turn it into
  metrics, and exporters send it with metric attributes, without the texts of language models, or to the
  unsampled queue. The rules of the sampler are polled from X-Ray by timers.

  \<^bold>\<open>Sampling.\<close> \<open>PyDecimal\<close> is the decimal arithmetic, \<open>RateLimiter\<close> the clock, the reservoir and the two
  samplers on it, \<open>SamplingRules\<close> the documents of X-Ray and the client, \<open>Attributes\<close> attribute values,
  \<open>Matcher\<close> the patterns (with the part of \<open>re\<close> they use), \<open>PyUrl\<close> the part of \<open>urllib.parse\<close>, \<open>RuleApplier\<close>,
  \<open>RuleCache\<close> and \<open>RemoteSampler\<close> the appliers, the cache and the sampler with its two timers and the
  always-record wrapper. A history of the sampler is a list of sample and poll events in any order; the lemmas keep
  books of what was counted, reported and is pending.

  \<^bold>\<open>Application Signals.\<close> \<open>Spans\<close> is a span with the predicates of \<open>_aws_span_processing_util.py\<close>, \<open>AwsParsers\<close>
  the queue URL and ARN parsers, \<open>SqlKeywords\<close> the keywords of \<open>sql_dialect_keywords.json\<close>,
  \<open>AttributeGenerator\<close> the metric attribute generator, \<open>SpanProcessors\<close> the processors and the wrapping exporter,
  \<open>SignalFlow\<close> their composition, \<open>Delivery\<close> builders, the signing session and the console exporter.

  \<^bold>\<open>Exporters.\<close> \<open>Batching\<close> is the interface that the CloudWatch client (\<open>LogClient\<close>) and the OTLP log processor
  (\<open>OtlpLogs\<close>) share; \<open>EmfExporter\<close> makes EMF documents of metrics, \<open>LloHandler\<close> separates the texts of
  language models from spans, \<open>UdpExporter\<close> writes datagrams with base64 payloads; \<open>Json\<close> and \<open>PyValues\<close>
  are the documents and dynamic values.

  \<^bold>\<open>Configuration and patches.\<close> \<open>Configurator\<close> and \<open>Distro\<close> model the environment (an association list that the
  code reads and changes) and what is built from it, as data. \<open>Memo\<close> is the contract of a cache,
  \<open>CodeCorrelation\<close> the attribution of spans to user code and of files to packages, \<open>PathCache\<close> its
  path cache under threads, \<open>Patching\<close>, \<open>ViewPatches\<close> and \<open>HookPatches\<close> the patches of the web and task frameworks,
  \<open>BotocorePatches\<close> those of botocore (the streams of Bedrock models included), \<open>CallResources\<close> their composition
  with the metric generator, \<open>LambdaLayer\<close> the Lambda instrumentation and \<open>otel_wrapper.py\<close>. \<open>Eachdist\<close> models the
  development script \<open>src/scripts/eachdist.py\<close> with \<open>shlex\<close> and \<open>str.format\<close>, and the file header checker;
  \<open>Release\<close> the scripts of the nightly release job, with what they do to a dependency list in \<open>PinUpdates\<close>;
  \<open>MockCollector\<close> and \<open>Profiler\<close> the collector of the contract tests with its polling client and the profiler of the
  performance tests.

  \<^bold>\<open>Conventions.\<close> Strings are Latin-1 character lists, Python's integers \<open>int\<close>, floats and decimals \<open>rat\<close> (the
  decimal context of 28 digits is written out), bytes 8-bit words, times integer micro- or nanoseconds passed as
  arguments. Dictionaries are association lists, which keep Python's order. A fallible computation has the type
  \<open>'a res\<close>, an \<open>exn\<close> or a value; exceptions of other libraries are \<open>Foreign\<close>. Every \<open>raise\<close>, early return and
  handled exception of the code is a branch. Objects whose identity matters live in an explicit store or heap
  (\<open>OtlpLogs\<close>, \<open>ViewPatches\<close>). Members of Python enumerations never equal texts.

  \<^bold>\<open>Interfaces.\<close> Each locale is interpreted on the model's definitions: a sampler (\<open>RemoteSampler\<close>, by the
  remote sampler and the always-record wrapper of it), rounding with a relative error (\<open>PyDecimal\<close>), the log batch (\<open>Batching\<close>, by the client
  and the processor), the metric attribute generator, the memo (by the namespace cache of the package
  resolver), the content blocks of a model answer (by the Claude and the Converse streams) and the patched class (by
  Flask, Starlette, FastAPI and Django).

  \<^bold>\<open>What is shown.\<close> Conservation: requests counted by the sampler, log events through the client, messages of language
  models, metric records through grouping. Bounds: grants of the reservoir per window, sizes and spans of requests to
  CloudWatch, attempts and waits of the retry loop. Equivalences: wildcard patterns and globs, the breadth-first size
  estimate and the plain sum, a decorated view and the view. Round trips: datagrams, queue URLs, files of packages,
  dependency pins.
  Safety: no model texts left in spans, Lambda handlers and patched hooks transparent, mutual exclusion in the
  path cache. Composition: the operation of a request is shared by the metrics of all its calls, the pipelines that
  the environment selects, the resource an AWS call names. Some properties say exactly when the code
  does not do what it means to do; the findings of the manifest point to them.

  \<^bold>\<open>Loops.\<close> Recursion is structural or has a measure. The export loop of the log processor runs with a number of rounds
  that suffices (each round removes at least one record), the size estimate with the depth limit of the code, the retry
  loop with its six attempts.

  \<^bold>\<open>Not modelled.\<close> The OpenTelemetry SDK, botocore, \<open>requests\<close>, gevent, the web frameworks, sockets, \<open>inspect\<close>, the file
  system and the protobuf encoders are parameters, with what the code relies on as hypotheses. Logging,
  descriptions for logs and constructors that only store arguments are left out, and so are the declarations of
  argument parsers. The unit and contract tests, the servers they call and the sample applications make single calls to
  client libraries and have no logic to verify; the protobuf modules of the mock collector are generated.
\<close>

end
